theory Spec2Isabelle
  imports Complex_Main
begin

section \<open>Go values: float64, int, run-time panics\<close>

text \<open>
  A Go \<open>float64\<close> is modelled by its four kinds of value: a finite number, the two
  infinities and NaN. A finite value is the real number it denotes; the float64 values
  among them are the integer multiples \<open>m * 2^e\<close> with \<open>\<bar>m\<bar> < 2^53\<close>,
  \<open>- 1074 \<le> e\<close> and magnitude below \<open>2^1024\<close>. Every arithmetic operation computes the
  exact real result and rounds it as IEEE 754 does in its default mode, which is the one
  Go uses: to the nearest float64 value, a tie to the one with the even significand, and
  to an infinity when the rounded magnitude reaches \<open>2^1024\<close>. Each operation rounds on
  its own, as in the code that the Go compiler produces for amd64, which does not fuse a
  multiplication with an addition. The two zeros are one value \<open>Fin 0\<close>: every divisor in
  the program is a converted \<open>int\<close>, the constant 2 or \<open>1 + exp x\<close>, so no division by a
  negative zero occurs.
\<close>

datatype float64 = Fin real | PInf | NInf | NaN

text \<open>The integer nearest to \<open>q\<close>, the even one of the two when \<open>q\<close> lies half way.\<close>

definition halfEven :: "real \<Rightarrow> int" where
  "halfEven q =
     (let f = \<lfloor>q\<rfloor>; r = q - of_int f
      in if r < 1 / 2 then f else if 1 / 2 < r then f + 1 else if even f then f else f + 1)"

text \<open>
  Rounding of an exact result. \<open>e\<close> is the binary exponent of \<open>x\<close>, not below that of the
  subnormal numbers; \<open>u\<close> is the distance between neighbouring float64 values at that
  exponent, so that \<open>x / u\<close> is rounded to a significand of at most 53 bits.
\<close>

definition round64 :: "real \<Rightarrow> float64" where
  "round64 x =
     (if x = 0 then Fin 0
      else
        (let e = max \<lfloor>log 2 \<bar>x\<bar>\<rfloor> (- 1022);
             u = 2 powi (e - 52);
             y = of_int (halfEven (x / u)) * u
         in if 2 ^ 1024 \<le> \<bar>y\<bar> then (if 0 < x then PInf else NInf) else Fin y))"

text \<open>A value of the model that is a float64 value: rounding leaves it as it is.\<close>

fun isFloat64 :: "float64 \<Rightarrow> bool" where
  "isFloat64 (Fin x) = (round64 x = Fin x)"
| "isFloat64 PInf = True"
| "isFloat64 NInf = True"
| "isFloat64 NaN = True"

fun fneg :: "float64 \<Rightarrow> float64" where
  "fneg (Fin x) = Fin (- x)"
| "fneg PInf = NInf"
| "fneg NInf = PInf"
| "fneg NaN = NaN"

fun fadd :: "float64 \<Rightarrow> float64 \<Rightarrow> float64" where
  "fadd (Fin a) (Fin b) = round64 (a + b)"
| "fadd NaN y = NaN"
| "fadd x NaN = NaN"
| "fadd PInf NInf = NaN"
| "fadd NInf PInf = NaN"
| "fadd PInf y = PInf"
| "fadd x PInf = PInf"
| "fadd NInf y = NInf"
| "fadd x NInf = NInf"

definition fsub :: "float64 \<Rightarrow> float64 \<Rightarrow> float64" where
  "fsub x y = fadd x (fneg y)"

fun fmul :: "float64 \<Rightarrow> float64 \<Rightarrow> float64" where
  "fmul (Fin a) (Fin b) = round64 (a * b)"
| "fmul NaN y = NaN"
| "fmul x NaN = NaN"
| "fmul PInf (Fin b) = (if b = 0 then NaN else if 0 < b then PInf else NInf)"
| "fmul NInf (Fin b) = (if b = 0 then NaN else if 0 < b then NInf else PInf)"
| "fmul (Fin a) PInf = (if a = 0 then NaN else if 0 < a then PInf else NInf)"
| "fmul (Fin a) NInf = (if a = 0 then NaN else if 0 < a then NInf else PInf)"
| "fmul PInf PInf = PInf"
| "fmul PInf NInf = NInf"
| "fmul NInf PInf = NInf"
| "fmul NInf NInf = PInf"

fun fdiv :: "float64 \<Rightarrow> float64 \<Rightarrow> float64" where
  "fdiv (Fin a) (Fin b) =
     (if b = 0 then (if a = 0 then NaN else if 0 < a then PInf else NInf)
      else round64 (a / b))"
| "fdiv NaN y = NaN"
| "fdiv x NaN = NaN"
| "fdiv (Fin a) PInf = Fin 0"
| "fdiv (Fin a) NInf = Fin 0"
| "fdiv PInf (Fin b) = (if 0 \<le> b then PInf else NInf)"
| "fdiv NInf (Fin b) = (if 0 \<le> b then NInf else PInf)"
| "fdiv PInf y = NaN"
| "fdiv NInf y = NaN"

text \<open>Go's \<open>x < y\<close>, \<open>x > y\<close> and \<open>x == y\<close> on float64: false whenever an operand is NaN.\<close>

fun flt :: "float64 \<Rightarrow> float64 \<Rightarrow> bool" where
  "flt (Fin a) (Fin b) = (a < b)"
| "flt NaN y = False"
| "flt x NaN = False"
| "flt x NInf = False"
| "flt PInf y = False"
| "flt NInf y = True"
| "flt x PInf = True"

definition fgt :: "float64 \<Rightarrow> float64 \<Rightarrow> bool" where
  "fgt x y = flt y x"

fun feq :: "float64 \<Rightarrow> float64 \<Rightarrow> bool" where
  "feq NaN y = False"
| "feq x NaN = False"
| "feq x y = (x = y)"

text \<open>
  \<open>math.Exp\<close> and \<open>math.Log2\<close> with their special cases. On a finite argument the
  library approximates the function; here the result is the exact value, rounded.
\<close>

fun fexp :: "float64 \<Rightarrow> float64" where
  "fexp (Fin x) = round64 (exp x)"
| "fexp PInf = PInf"
| "fexp NInf = Fin 0"
| "fexp NaN = NaN"

fun flog2 :: "float64 \<Rightarrow> float64" where
  "flog2 (Fin x) = (if x < 0 then NaN else if x = 0 then NInf else round64 (log 2 x))"
| "flog2 PInf = PInf"
| "flog2 NInf = NaN"
| "flog2 NaN = NaN"

text \<open>
  The conversions \<open>float64(i)\<close> and \<open>int(f)\<close>. The first rounds an integer that has more
  than 53 significant bits. The second truncates towards zero; for a value outside the
  range of \<open>int\<close>, for NaN and for the infinities the result is implementation-specific,
  and the value that amd64 produces is used.
\<close>

definition float64_of_int :: "int \<Rightarrow> float64" where
  "float64_of_int i = round64 (of_int i)"

fun int_of_float64 :: "float64 \<Rightarrow> int" where
  "int_of_float64 (Fin x) =
     (if - (2 ^ 63) \<le> x \<and> x < 2 ^ 63 then (if 0 \<le> x then \<lfloor>x\<rfloor> else \<lceil>x\<rceil>)
      else - 9223372036854775808)"
| "int_of_float64 PInf = - 9223372036854775808"
| "int_of_float64 NInf = - 9223372036854775808"
| "int_of_float64 NaN = - 9223372036854775808"

text \<open>
  Go's \<open>int\<close> is modelled by \<open>int\<close>: the integers that the program computes are
  lengths, indices and products of two of them, far below \<open>2^63\<close>. Integer division
  truncates towards zero and panics on a zero divisor.
\<close>

text \<open>The values made by \<open>errors.New\<close> in package matrices.\<close>

datatype err =
    ErrGetOutside
  | ErrSetOutside
  | ErrDifferentDimensions
  | ErrDotDimensions
  | ErrEmptyMax
  | ErrEmptyMin

text \<open>
  A run-time panic: one raised by the Go runtime, or \<open>panic(err)\<close> on a returned error.
  A computation that may panic has type \<open>panic + 'a\<close>; a Go function that returns
  \<open>(T, error)\<close> has result type \<open>panic + (T \<times> err option)\<close>, since it returns both values.
\<close>

datatype panic =
    DivideByZero
  | IndexOutOfRange
  | SliceBoundsOutOfRange
  | MakeSliceLenOutOfRange
  | PanicErr err

fun andThen :: "panic + 'a \<Rightarrow> ('a \<Rightarrow> panic + 'b) \<Rightarrow> panic + 'b" where
  "andThen (Inl p) f = Inl p"
| "andThen (Inr x) f = f x"

definition quo :: "int \<Rightarrow> int \<Rightarrow> panic + int" where
  "quo a b = (if b = 0 then Inl DivideByZero else Inr (sgn a * sgn b * (\<bar>a\<bar> div \<bar>b\<bar>)))"

text \<open>\<open>xs[i]\<close> as a read, and \<open>xs[i] = v\<close> as a write, with the bounds check of the runtime.\<close>

definition index :: "'a list \<Rightarrow> int \<Rightarrow> panic + 'a" where
  "index xs i = (if 0 \<le> i \<and> i < int (length xs) then Inr (xs ! nat i) else Inl IndexOutOfRange)"

definition assign :: "'a list \<Rightarrow> int \<Rightarrow> 'a \<Rightarrow> panic + 'a list" where
  "assign xs i v =
     (if 0 \<le> i \<and> i < int (length xs) then Inr (xs[nat i := v]) else Inl IndexOutOfRange)"

text \<open>\<open>make([]T, n)\<close> filled with the zero value \<open>z\<close>.\<close>

definition make_slice :: "'a \<Rightarrow> int \<Rightarrow> panic + 'a list" where
  "make_slice z n = (if n < 0 then Inl MakeSliceLenOutOfRange else Inr (replicate (nat n) z))"

section \<open>Package matrices\<close>

text \<open>
  \<open>type Matrix struct { cols int; values []float64 }\<close>. The backing array of \<open>values\<close> is
  written only while a matrix is built (in \<open>OneHotMatrix\<close>, \<open>operate\<close>, \<open>Apply\<close>, \<open>Dot\<close>,
  \<open>Transpose\<close>, each on a matrix it has just allocated) and by the exported \<open>Set\<close>, which
  the network code never calls on a stored matrix; a matrix is therefore a value here.
\<close>

record Matrix =
  cols :: int
  vals :: "float64 list"

definition Rows :: "Matrix \<Rightarrow> panic + int" where
  "Rows m = quo (int (length (vals m))) (cols m)"

definition Cols :: "Matrix \<Rightarrow> int" where
  "Cols m = cols m"

definition InitMatrix :: "int \<Rightarrow> int \<Rightarrow> panic + Matrix" where
  "InitMatrix rows c =
     andThen (make_slice (Fin 0) (rows * c)) (\<lambda>vs. Inr \<lparr>cols = c, vals = vs\<rparr>)"

definition InitMatrixWithValues :: "int \<Rightarrow> float64 list \<Rightarrow> Matrix" where
  "InitMatrixWithValues c vs = \<lparr>cols = c, vals = vs\<rparr>"

definition Copy :: "Matrix \<Rightarrow> Matrix" where
  "Copy m = InitMatrixWithValues (cols m) (vals m)"

text \<open>\<open>&&\<close> evaluates from the left, so \<open>m.Rows()\<close> is computed first.\<close>

definition checkRowCol :: "Matrix \<Rightarrow> int \<Rightarrow> int \<Rightarrow> panic + bool" where
  "checkRowCol m row col =
     andThen (Rows m) (\<lambda>r. Inr (row < r \<and> col < Cols m \<and> 0 \<le> row \<and> 0 \<le> col))"

definition at_m :: "Matrix \<Rightarrow> int \<Rightarrow> int \<Rightarrow> panic + float64" where
  "at_m m row col = index (vals m) (row * Cols m + col)"

definition set_m :: "Matrix \<Rightarrow> int \<Rightarrow> int \<Rightarrow> float64 \<Rightarrow> panic + Matrix" where
  "set_m m row col v =
     andThen (assign (vals m) (row * Cols m + col) v) (\<lambda>vs. Inr (m\<lparr>vals := vs\<rparr>))"

definition At :: "Matrix \<Rightarrow> int \<Rightarrow> int \<Rightarrow> panic + (float64 \<times> err option)" where
  "At m row col =
     andThen (checkRowCol m row col) (\<lambda>ok.
       if \<not> ok then Inr (Fin 0, Some ErrGetOutside)
       else andThen (at_m m row col) (\<lambda>v. Inr (v, None)))"

text \<open>\<open>Set\<close> writes through the slice; the matrix returned here is the receiver afterwards.\<close>

definition Set :: "Matrix \<Rightarrow> int \<Rightarrow> int \<Rightarrow> float64 \<Rightarrow> panic + (Matrix \<times> err option)" where
  "Set m row col v =
     andThen (checkRowCol m row col) (\<lambda>ok.
       if \<not> ok then Inr (m, Some ErrSetOutside)
       else andThen (set_m m row col v) (\<lambda>m'. Inr (m', None)))"

definition OneHotMatrix :: "int \<Rightarrow> int \<Rightarrow> int \<Rightarrow> int \<Rightarrow> panic + (Matrix \<times> err option)" where
  "OneHotMatrix rows c setrow setcol =
     andThen (InitMatrix rows c) (\<lambda>m. Set m setrow setcol (Fin 1))"

subsection \<open>Max, MaxAt, Min, MinAt\<close>

text \<open>
  The loop \<open>for i, val := range m.values\<close> of \<open>MaxAt\<close>: the values still to visit, the
  index of the first of them, and the running \<open>maxval\<close> and \<open>maxvalIndex\<close>.
\<close>

fun MaxAt_loop :: "float64 list \<Rightarrow> int \<Rightarrow> float64 \<Rightarrow> int \<Rightarrow> int" where
  "MaxAt_loop [] i maxval maxvalIndex = maxvalIndex"
| "MaxAt_loop (v # vs) i maxval maxvalIndex =
     (if fgt v maxval then MaxAt_loop vs (i + 1) v i
      else MaxAt_loop vs (i + 1) maxval maxvalIndex)"

definition MaxAt :: "Matrix \<Rightarrow> panic + (int \<times> err option)" where
  "MaxAt m =
     andThen (Rows m) (\<lambda>r.
       if r = 0 \<or> Cols m = 0 then Inr (0, Some ErrEmptyMax)
       else andThen (index (vals m) 0) (\<lambda>maxval.
         Inr (MaxAt_loop (vals m) 0 maxval 0, None)))"

definition Max :: "Matrix \<Rightarrow> panic + (float64 \<times> err option)" where
  "Max m =
     andThen (MaxAt m) (\<lambda>(i, e).
       andThen (index (vals m) i) (\<lambda>v. Inr (v, e)))"

fun MinAt_loop :: "float64 list \<Rightarrow> int \<Rightarrow> float64 \<Rightarrow> int \<Rightarrow> int" where
  "MinAt_loop [] i minval minvalIndex = minvalIndex"
| "MinAt_loop (v # vs) i minval minvalIndex =
     (if flt v minval then MinAt_loop vs (i + 1) v i
      else MinAt_loop vs (i + 1) minval minvalIndex)"

definition MinAt :: "Matrix \<Rightarrow> panic + (int \<times> err option)" where
  "MinAt m =
     andThen (Rows m) (\<lambda>r.
       if r = 0 \<or> Cols m = 0 then Inr (0, Some ErrEmptyMin)
       else andThen (index (vals m) 0) (\<lambda>minval.
         Inr (MinAt_loop (vals m) 0 minval 0, None)))"

definition Min :: "Matrix \<Rightarrow> panic + (float64 \<times> err option)" where
  "Min m =
     andThen (MinAt m) (\<lambda>(i, e).
       andThen (index (vals m) i) (\<lambda>v. Inr (v, e)))"

subsection \<open>Elementwise operations\<close>

text \<open>
  \<open>if err != nil { panic(err) }\<close> after a call that returns \<open>(T, error)\<close>.
\<close>

definition must :: "panic + ('a \<times> err option) \<Rightarrow> panic + 'a" where
  "must r = andThen r (\<lambda>(x, e). case e of None \<Rightarrow> Inr x | Some er \<Rightarrow> Inl (PanicErr er))"

text \<open>
  A counting loop \<open>for i := lo; i < hi; i++\<close> whose body threads a state and may panic;
  it is given the list of the values \<open>i\<close> takes.
\<close>

fun for_loop :: "int list \<Rightarrow> 's \<Rightarrow> (int \<Rightarrow> 's \<Rightarrow> panic + 's) \<Rightarrow> panic + 's" where
  "for_loop [] s body = Inr s"
| "for_loop (i # is) s body = andThen (body i s) (\<lambda>s'. for_loop is s' body)"

text \<open>The zero value of \<open>Matrix\<close>, returned beside an error (\<open>var result Matrix\<close>).\<close>

definition zeroMatrix :: Matrix where
  "zeroMatrix = \<lparr>cols = 0, vals = []\<rparr>"

text \<open>
  The loop of \<open>operate\<close>, \<open>result.values[i] = operation(m.values[i], n.values[i])\<close> for
  \<open>i\<close> over \<open>range m.values\<close>: the values of \<open>m\<close> still to visit, those of \<open>n\<close>, the
  index, and the values of \<open>result\<close>. Both indexings are bounds-checked.
\<close>

fun operate_loop ::
  "(float64 \<Rightarrow> float64 \<Rightarrow> float64) \<Rightarrow> float64 list \<Rightarrow> float64 list \<Rightarrow> int \<Rightarrow> float64 list
   \<Rightarrow> panic + float64 list" where
  "operate_loop operation [] ns i res = Inr res"
| "operate_loop operation (x # xs) ns i res =
     andThen (index ns i) (\<lambda>y.
     andThen (assign res i (operation x y)) (\<lambda>res'.
       operate_loop operation xs ns (i + 1) res'))"

definition operate ::
  "Matrix \<Rightarrow> Matrix \<Rightarrow> (float64 \<Rightarrow> float64 \<Rightarrow> float64) \<Rightarrow> panic + (Matrix \<times> err option)" where
  "operate m n operation =
     andThen (Rows m) (\<lambda>rm.
     andThen (Rows n) (\<lambda>rn.
       if rm \<noteq> rn \<or> Cols m \<noteq> Cols n then Inr (zeroMatrix, Some ErrDifferentDimensions)
       else
         andThen (InitMatrix rm (Cols m)) (\<lambda>result.
         andThen (operate_loop operation (vals m) (vals n) 0 (vals result)) (\<lambda>vs.
           Inr (result\<lparr>vals := vs\<rparr>, None)))))"

definition Add :: "Matrix \<Rightarrow> Matrix \<Rightarrow> panic + (Matrix \<times> err option)" where
  "Add m n = operate m n (\<lambda>x y. fadd x y)"

definition Sub :: "Matrix \<Rightarrow> Matrix \<Rightarrow> panic + (Matrix \<times> err option)" where
  "Sub m n = operate m n (\<lambda>x y. fsub x y)"

definition Mult :: "Matrix \<Rightarrow> Matrix \<Rightarrow> panic + (Matrix \<times> err option)" where
  "Mult m n = operate m n (\<lambda>x y. fmul x y)"

fun Apply_loop ::
  "(float64 \<Rightarrow> float64) \<Rightarrow> float64 list \<Rightarrow> int \<Rightarrow> float64 list \<Rightarrow> panic + float64 list" where
  "Apply_loop operation [] i res = Inr res"
| "Apply_loop operation (x # xs) i res =
     andThen (assign res i (operation x)) (\<lambda>res'. Apply_loop operation xs (i + 1) res')"

definition Apply :: "Matrix \<Rightarrow> (float64 \<Rightarrow> float64) \<Rightarrow> panic + Matrix" where
  "Apply m operation =
     andThen (Rows m) (\<lambda>r.
     andThen (InitMatrix r (Cols m)) (\<lambda>result.
     andThen (Apply_loop operation (vals m) 0 (vals result)) (\<lambda>vs.
       Inr (result\<lparr>vals := vs\<rparr>))))"

definition Sum :: "Matrix \<Rightarrow> float64" where
  "Sum m = foldl fadd (Fin 0) (vals m)"

subsection \<open>Dot and Transpose\<close>

text \<open>
  The bounds \<open>result.Rows()\<close>, \<open>result.Cols()\<close>, \<open>m.Rows()\<close> and \<open>m.Cols()\<close> of these
  loops do not change while the loops run (\<open>set\<close> keeps the length and the column
  count), so each is evaluated once, where the loop first tests it.
\<close>

definition Dot_cell :: "Matrix \<Rightarrow> Matrix \<Rightarrow> int \<Rightarrow> int \<Rightarrow> panic + float64" where
  "Dot_cell m n i j =
     for_loop [0 .. Cols m - 1] (Fin 0) (\<lambda>counter sum.
       andThen (at_m m i counter) (\<lambda>a.
       andThen (at_m n counter j) (\<lambda>b.
         Inr (fadd sum (fmul a b)))))"

definition Dot :: "Matrix \<Rightarrow> Matrix \<Rightarrow> panic + (Matrix \<times> err option)" where
  "Dot m n =
     andThen (Rows n) (\<lambda>rn.
       if Cols m \<noteq> rn then Inr (zeroMatrix, Some ErrDotDimensions)
       else
         andThen (Rows m) (\<lambda>rm.
         andThen (InitMatrix rm (Cols n)) (\<lambda>result0.
         andThen (Rows result0) (\<lambda>rr.
         andThen
           (for_loop [0 .. rr - 1] result0 (\<lambda>i result1.
              for_loop [0 .. Cols result1 - 1] result1 (\<lambda>j result.
                andThen (Dot_cell m n i j) (\<lambda>sum. set_m result i j sum))))
           (\<lambda>result. Inr (result, None))))))"

definition Transpose :: "Matrix \<Rightarrow> panic + Matrix" where
  "Transpose m =
     andThen (Rows m) (\<lambda>rm.
     andThen (InitMatrix (Cols m) rm) (\<lambda>result0.
       for_loop [0 .. rm - 1] result0 (\<lambda>i result1.
         for_loop [0 .. Cols m - 1] result1 (\<lambda>j result.
           andThen (at_m m i j) (\<lambda>val. set_m result j i val)))))"

subsection \<open>Scalar functions and the sigmoid\<close>

definition Negate :: "float64 \<Rightarrow> float64" where
  "Negate f = fneg f"

definition OnePlus :: "float64 \<Rightarrow> float64" where
  "OnePlus f = fadd (Fin 1) f"

definition OneMinus :: "float64 \<Rightarrow> float64" where
  "OneMinus f = fsub (Fin 1) f"

definition Invert :: "float64 \<Rightarrow> float64" where
  "Invert f = fdiv (Fin 1) f"

text \<open>\<open>Mult(f)\<close> of package matrices, the closure \<open>func(g) { return f * g }\<close>.\<close>

definition MultBy :: "float64 \<Rightarrow> float64 \<Rightarrow> float64" where
  "MultBy f g = fmul f g"

definition Sigmoid :: "Matrix \<Rightarrow> panic + Matrix" where
  "Sigmoid m =
     andThen (Apply m Negate) (\<lambda>a.
     andThen (Apply a fexp) (\<lambda>b.
     andThen (Apply b OnePlus) (\<lambda>c.
       Apply c Invert)))"

definition SigmoidPrime :: "Matrix \<Rightarrow> panic + Matrix" where
  "SigmoidPrime m =
     andThen (Sigmoid m) (\<lambda>s.
     andThen (Sigmoid m) (\<lambda>s2.
     andThen (Apply s2 OneMinus) (\<lambda>t.
       must (Mult s t))))"

section \<open>Package nn\<close>

record TrainItem =
  Values :: Matrix
  Label :: float64
  Distinct :: int

text \<open>
  \<open>type NN struct { layers []int; weights []matrices.Matrix; biases []matrices.Matrix }\<close>.
  A value of this record is the contents of the three slices. Methods with the value
  receiver \<open>network NN\<close> get a copy of the three slice headers, which still point to the
  caller's arrays; where that matters (in \<open>Train\<close>) the arrays live in an explicit store.
\<close>

record NN =
  layers :: "int list"
  weights :: "Matrix list"
  biases :: "Matrix list"

text \<open>
  \<open>Copy\<close> of NN. The three slices are copied element by element into fresh slices of the
  same length (no index can be out of range), and the result is the positional literal
  \<open>NN{layers, biases, weights}\<close> of a struct whose fields are, in order, \<open>layers\<close>,
  \<open>weights\<close>, \<open>biases\<close>.
\<close>

definition NN_Copy :: "NN \<Rightarrow> NN" where
  "NN_Copy network =
     (let layers' = layers network;
          biases' = map Copy (biases network);
          weights' = map Copy (weights network)
      in \<lparr>layers = layers', weights = biases', biases = weights'\<rparr>)"

text \<open>
  \<open>FeedForward\<close>: the loop \<open>for i := range network.weights\<close>, as a recursion over the
  weights still to visit, with the index \<open>i\<close> and \<open>lastOutput\<close>.
\<close>

fun FeedForward_loop :: "NN \<Rightarrow> Matrix list \<Rightarrow> int \<Rightarrow> Matrix \<Rightarrow> panic + Matrix" where
  "FeedForward_loop network [] i lastOutput = Inr lastOutput"
| "FeedForward_loop network (w # ws) i lastOutput =
     andThen (index (biases network) i) (\<lambda>b.
     andThen (must (Dot lastOutput w)) (\<lambda>multiplied.
     andThen (must (Add multiplied b)) (\<lambda>added.
     andThen (Sigmoid added) (\<lambda>out.
       FeedForward_loop network ws (i + 1) out))))"

definition FeedForward :: "NN \<Rightarrow> Matrix \<Rightarrow> panic + Matrix" where
  "FeedForward network input = FeedForward_loop network (weights network) 0 input"

fun Evaluate_loop :: "NN \<Rightarrow> TrainItem list \<Rightarrow> int \<Rightarrow> panic + int" where
  "Evaluate_loop network [] correct = Inr correct"
| "Evaluate_loop network (input # rest) correct =
     andThen (FeedForward network (Values input)) (\<lambda>output.
     andThen (must (MaxAt output)) (\<lambda>mx.
       Evaluate_loop network rest
         (if feq (float64_of_int mx) (Label input) then correct + 1 else correct)))"

definition Evaluate :: "NN \<Rightarrow> TrainItem list \<Rightarrow> panic + float64" where
  "Evaluate network inputs =
     andThen (Evaluate_loop network inputs 0) (\<lambda>correct.
       Inr (fdiv (float64_of_int correct) (float64_of_int (int (length inputs)))))"

fun Cost_loop :: "NN \<Rightarrow> TrainItem list \<Rightarrow> float64 \<Rightarrow> panic + float64" where
  "Cost_loop network [] cost = Inr cost"
| "Cost_loop network (input # rest) cost =
     andThen (FeedForward network (Values input)) (\<lambda>output.
     andThen (must (OneHotMatrix 1 (Distinct input) 0 (int_of_float64 (Label input)))) (\<lambda>y.
     andThen (Apply y Negate) (\<lambda>yneg.
     andThen (Apply output flog2) (\<lambda>logs.
     andThen (must (Mult yneg logs)) (\<lambda>first.
     andThen (Apply y OneMinus) (\<lambda>ycompl.
     andThen (Apply output OneMinus) (\<lambda>ocompl.
     andThen (Apply ocompl flog2) (\<lambda>logs'.
     andThen (must (Mult ycompl logs')) (\<lambda>second.
     andThen (must (Sub first second)) (\<lambda>together.
       Cost_loop network rest (fadd cost (Sum together))))))))))))"

definition Cost :: "NN \<Rightarrow> TrainItem list \<Rightarrow> panic + float64" where
  "Cost network inputs =
     andThen (Cost_loop network inputs (Fin 0)) (\<lambda>cost.
       Inr (fdiv cost (float64_of_int (int (length inputs)))))"

subsection \<open>backprop\<close>

text \<open>
  \<open>for i, m := range ms { zs[i] = matrices.InitMatrix(m.Rows(), m.Cols()) }\<close> into a
  fresh slice of the length of \<open>ms\<close>.
\<close>

fun zeroLike :: "Matrix list \<Rightarrow> panic + Matrix list" where
  "zeroLike [] = Inr []"
| "zeroLike (m # ms) =
     andThen (Rows m) (\<lambda>r.
     andThen (InitMatrix r (Cols m)) (\<lambda>z.
     andThen (zeroLike ms) (\<lambda>zs. Inr (z # zs))))"

text \<open>
  The forward pass of \<open>backprop\<close>. The slices \<open>activations\<close> and \<open>zs\<close> are allocated at
  full length and filled at \<open>i + 1\<close> and \<open>i\<close>; nothing reads them before the loop ends,
  so the model appends.
\<close>

fun backprop_forward ::
  "NN \<Rightarrow> Matrix list \<Rightarrow> int \<Rightarrow> Matrix \<Rightarrow> Matrix list \<Rightarrow> Matrix list
   \<Rightarrow> panic + (Matrix list \<times> Matrix list)" where
  "backprop_forward network [] i activation activations zs = Inr (activations, zs)"
| "backprop_forward network (w # ws) i activation activations zs =
     andThen (index (biases network) i) (\<lambda>b.
     andThen (must (Dot activation w)) (\<lambda>multiplied.
     andThen (must (Add multiplied b)) (\<lambda>z.
     andThen (Sigmoid z) (\<lambda>a.
       backprop_forward network ws (i + 1) a (activations @ [a]) (zs @ [z])))))"

definition check :: "err option \<Rightarrow> panic + unit" where
  "check e = (case e of None \<Rightarrow> Inr () | Some er \<Rightarrow> Inl (PanicErr er))"

definition len :: "'a list \<Rightarrow> int" where
  "len xs = int (length xs)"

text \<open>
  One round of the loop \<open>for l := 2; l < len(network.layers); l++\<close>: the state is
  \<open>delta\<close>, \<open>nablaW\<close> and \<open>nablaB\<close>.
\<close>

definition backprop_back ::
  "NN \<Rightarrow> Matrix list \<Rightarrow> Matrix list \<Rightarrow> int \<Rightarrow> Matrix \<times> Matrix list \<times> Matrix list
   \<Rightarrow> panic + (Matrix \<times> Matrix list \<times> Matrix list)" where
  "backprop_back network activations zs l st =
     (case st of (delta, nablaW, nablaB) \<Rightarrow>
       andThen (index zs (len zs - l)) (\<lambda>z.
       andThen (SigmoidPrime z) (\<lambda>sp.
       andThen (index (weights network) (len (weights network) - l + 1)) (\<lambda>w.
       andThen (Transpose w) (\<lambda>wt.
       andThen (must (Dot delta wt)) (\<lambda>dotted.
       andThen (must (Mult dotted sp)) (\<lambda>delta'.
       andThen (assign nablaB (len nablaB - l) delta') (\<lambda>nablaB'.
       andThen (index activations (len activations - l - 1)) (\<lambda>a.
       andThen (Transpose a) (\<lambda>aT.
       andThen (Dot aT delta') (\<lambda>(gw, e).
       andThen (assign nablaW (len nablaW - l) gw) (\<lambda>nablaW'.
       andThen (check e) (\<lambda>_.
         Inr (delta', nablaW', nablaB'))))))))))))))"

definition backprop :: "NN \<Rightarrow> TrainItem \<Rightarrow> panic + (Matrix list \<times> Matrix list)" where
  "backprop network item =
     andThen (zeroLike (weights network)) (\<lambda>nablaW0.
     andThen (zeroLike (biases network)) (\<lambda>nablaB0.
     andThen (backprop_forward network (weights network) 0 (Values item) [Values item] [])
       (\<lambda>(activations, zs).
     andThen (must (OneHotMatrix 1 (Distinct item) 0 (int_of_float64 (Label item)))) (\<lambda>y.
     andThen (index activations (len activations - 1)) (\<lambda>aLast.
     andThen (must (Sub aLast y)) (\<lambda>delta.
     andThen (assign nablaB0 (len nablaB0 - 1) delta) (\<lambda>nablaB1.
     andThen (index activations (len activations - 2)) (\<lambda>aPrev.
     andThen (Transpose aPrev) (\<lambda>aT.
     andThen (Dot aT delta) (\<lambda>(gw, e).
     andThen (assign nablaW0 (len nablaW0 - 1) gw) (\<lambda>nablaW1.
     andThen (check e) (\<lambda>_.
     andThen
       (for_loop [2 .. len (layers network) - 1] (delta, nablaW1, nablaB1)
          (backprop_back network activations zs))
       (\<lambda>(deltaEnd, nablaW, nablaB). Inr (nablaW, nablaB))))))))))))))"

subsection \<open>updateMiniBatch\<close>

text \<open>
  \<open>for i, nabla := range nablas { cx[i], err = cx[i].Add(nabla); if err != nil { panic(err) } }\<close>
\<close>

fun accumulate :: "Matrix list \<Rightarrow> Matrix list \<Rightarrow> int \<Rightarrow> panic + Matrix list" where
  "accumulate cx [] i = Inr cx"
| "accumulate cx (nabla # nablas) i =
     andThen (index cx i) (\<lambda>c.
     andThen (Add c nabla) (\<lambda>(s, e).
     andThen (assign cx i s) (\<lambda>cx'.
     andThen (check e) (\<lambda>_.
       accumulate cx' nablas (i + 1)))))"

text \<open>The loop \<open>for _, item := range batch\<close> over the accumulators \<open>cxw\<close> and \<open>cxb\<close>.\<close>

fun sumGradients ::
  "NN \<Rightarrow> TrainItem list \<Rightarrow> Matrix list \<Rightarrow> Matrix list \<Rightarrow> panic + (Matrix list \<times> Matrix list)" where
  "sumGradients network [] cxw cxb = Inr (cxw, cxb)"
| "sumGradients network (item # batch) cxw cxb =
     andThen (backprop network item) (\<lambda>(nablaW, nablaB).
     andThen (accumulate cxw nablaW 0) (\<lambda>cxw'.
     andThen (accumulate cxb nablaB 0) (\<lambda>cxb'.
       sumGradients network batch cxw' cxb')))"

text \<open>
  The loop \<open>for i, w := range cxw\<close> that writes \<open>network.weights[i]\<close>, and the loop
  \<open>for i, b := range cxb\<close> that writes \<open>network.biases[i]\<close>. The last argument is the
  array behind \<open>network.weights\<close> (\<open>network.biases\<close>), returned as the loop leaves it.
\<close>

fun updateWeights ::
  "float64 \<Rightarrow> float64 \<Rightarrow> int \<Rightarrow> (float64 \<Rightarrow> float64) \<Rightarrow> Matrix list \<Rightarrow> int \<Rightarrow> Matrix list
   \<Rightarrow> panic + Matrix list" where
  "updateWeights eta lmbda n multByConst [] i ws = Inr ws"
| "updateWeights eta lmbda n multByConst (w # cxw) i ws =
     (let regularization = MultBy (fsub (Fin 1) (fdiv (fmul eta lmbda) (float64_of_int n))) in
      andThen (Apply w multByConst) (\<lambda>reduced.
      andThen (index ws i) (\<lambda>old.
      andThen (Apply old regularization) (\<lambda>decayed.
      andThen (Sub decayed reduced) (\<lambda>(new, e).
      andThen (assign ws i new) (\<lambda>ws'.
      andThen (check e) (\<lambda>_.
        updateWeights eta lmbda n multByConst cxw (i + 1) ws')))))))"

fun updateBiases ::
  "(float64 \<Rightarrow> float64) \<Rightarrow> Matrix list \<Rightarrow> int \<Rightarrow> Matrix list \<Rightarrow> panic + Matrix list" where
  "updateBiases multByConst [] i bs = Inr bs"
| "updateBiases multByConst (b # cxb) i bs =
     andThen (Apply b multByConst) (\<lambda>reduced.
     andThen (index bs i) (\<lambda>old.
     andThen (Sub old reduced) (\<lambda>(new, e).
     andThen (assign bs i new) (\<lambda>bs'.
     andThen (check e) (\<lambda>_.
       updateBiases multByConst cxb (i + 1) bs')))))"

text \<open>
  \<open>updateMiniBatch\<close> writes into the arrays behind \<open>network.weights\<close> and
  \<open>network.biases\<close>; the model returns the network with the arrays as they are at the
  end. The two arrays are taken to be distinct, as they are in every network made by
  \<open>InitNN\<close>, \<open>Copy\<close> or \<open>LoadNetwork\<close>.
\<close>

definition updateMiniBatch ::
  "NN \<Rightarrow> TrainItem list \<Rightarrow> float64 \<Rightarrow> float64 \<Rightarrow> int \<Rightarrow> panic + NN" where
  "updateMiniBatch network batch eta lmbda n =
     andThen (zeroLike (weights network)) (\<lambda>cxw0.
     andThen (zeroLike (biases network)) (\<lambda>cxb0.
     andThen (sumGradients network batch cxw0 cxb0) (\<lambda>(cxw, cxb).
       (let multByConst = MultBy (fdiv eta (float64_of_int (len batch))) in
        andThen (updateWeights eta lmbda n multByConst cxw 0 (weights network)) (\<lambda>ws.
        andThen (updateBiases multByConst cxb 0 (biases network)) (\<lambda>bs.
          Inr (network\<lparr>weights := ws, biases := bs\<rparr>)))))))"

subsection \<open>Train\<close>

text \<open>
  The slice expressions \<open>s[lo:hi]\<close> and \<open>s[lo:]\<close> on a slice whose capacity is its
  length, with the bounds check of the runtime.
\<close>

definition slice :: "'a list \<Rightarrow> int \<Rightarrow> int \<Rightarrow> panic + 'a list" where
  "slice xs lo hi =
     (if 0 \<le> lo \<and> lo \<le> hi \<and> hi \<le> len xs then Inr (take (nat (hi - lo)) (drop (nat lo) xs))
      else Inl SliceBoundsOutOfRange)"

definition slice_from :: "'a list \<Rightarrow> int \<Rightarrow> panic + 'a list" where
  "slice_from xs lo = slice xs lo (len xs)"

text \<open>
  \<open>batchesCount := int(float64(inputCount)/float64(miniBatchSize) + 0.5)\<close>
\<close>

definition batchesCount :: "int \<Rightarrow> int \<Rightarrow> int" where
  "batchesCount inputCount miniBatchSize =
     int_of_float64
       (fadd (fdiv (float64_of_int inputCount) (float64_of_int miniBatchSize)) (Fin (1 / 2)))"

text \<open>
  The batching of one iteration (the slice \<open>shuffled\<close> has length \<open>inputCount\<close>):
  \<open>batches := make([][]TrainItem, batchesCount)\<close> and the loop that fills it.
\<close>

definition makeBatches :: "'a list \<Rightarrow> int \<Rightarrow> panic + 'a list list" where
  "makeBatches shuffled miniBatchSize =
     (let inputCount = len shuffled;
          count = batchesCount inputCount miniBatchSize
      in
        andThen (make_slice [] count) (\<lambda>batches0.
          for_loop [0 .. count - 1] batches0 (\<lambda>i batches.
            andThen
              (if i + miniBatchSize \<ge> inputCount then slice_from shuffled (i * miniBatchSize)
               else slice shuffled (i * miniBatchSize) (i * miniBatchSize + miniBatchSize))
              (\<lambda>batch. assign batches i batch))))"

definition zeroTrainItem :: TrainItem where
  "zeroTrainItem = \<lparr>Values = zeroMatrix, Label = Fin 0, Distinct = 0\<rparr>"

text \<open>\<open>for i, v := range perm { shuffled[v] = inputs[i] }\<close>\<close>

fun shuffle_loop :: "'a list \<Rightarrow> int list \<Rightarrow> int \<Rightarrow> 'a list \<Rightarrow> panic + 'a list" where
  "shuffle_loop inputs [] i shuffled = Inr shuffled"
| "shuffle_loop inputs (v # perm) i shuffled =
     andThen (index inputs i) (\<lambda>x.
     andThen (assign shuffled v x) (\<lambda>shuffled'.
       shuffle_loop inputs perm (i + 1) shuffled'))"

text \<open>\<open>for _, batch := range batches { network.updateMiniBatch(batch, eta, lmbda, len(inputs)) }\<close>\<close>

fun runBatches ::
  "NN \<Rightarrow> TrainItem list list \<Rightarrow> float64 \<Rightarrow> float64 \<Rightarrow> int \<Rightarrow> panic + NN" where
  "runBatches network [] eta lmbda n = Inr network"
| "runBatches network (batch # batches) eta lmbda n =
     andThen (updateMiniBatch network batch eta lmbda n) (\<lambda>network'.
       runBatches network' batches eta lmbda n)"

text \<open>
  The variables of \<open>Train\<close> that change in the loop. \<open>Train\<close> has the value receiver
  \<open>network NN\<close>: its variable \<open>network\<close> starts as a copy of the caller's three slice
  headers and so shares the caller's arrays, while every \<open>network.Copy()\<close> allocates
  new ones. The store holds these arrays, one cell for each network that has been
  allocated; cell 0 is the caller's. The variables \<open>network\<close> and \<open>bestNetwork\<close> are the
  numbers of the cells they point to, and an assignment \<open>network = bestNetwork\<close>
  changes the number only. The loop counter \<open>i\<close> is \<open>iter\<close>.
\<close>

record Train_state =
  store :: "NN list"
  networkRef :: nat
  bestNetworkRef :: nat
  bestCost :: float64
  bestBefore :: int
  curEta :: float64
  iter :: int

datatype control = Break Train_state | Continue Train_state

text \<open>The head of the loop: the \<open>if\<close> ... \<open>else if\<close> before the shuffle.\<close>

definition Train_head :: "bool \<Rightarrow> int \<Rightarrow> float64 \<Rightarrow> float64 \<Rightarrow> Train_state \<Rightarrow> control" where
  "Train_head doingBestOfN epochs etaFraction oldEta s =
     (if \<not> doingBestOfN \<and> iter s \<ge> epochs then Break s
      else if doingBestOfN \<and> bestBefore s \<ge> epochs then
        (if fgt etaFraction (Fin 0) \<and> fgt (fmul (curEta s) etaFraction) oldEta
         then Continue (s\<lparr>bestBefore := 0, curEta := fdiv (curEta s) (Fin 2)\<rparr>)
         else Break (s\<lparr>networkRef := bestNetworkRef s\<rparr>))
      else Continue s)"

text \<open>
  The rest of the loop body. \<open>perm\<close> is what \<open>rand.Perm(inputCount)\<close> returned in this
  iteration. Printing is left out, but not the call of \<open>Evaluate\<close> it makes.
\<close>

definition Train_body ::
  "bool \<Rightarrow> TrainItem list \<Rightarrow> int \<Rightarrow> float64 \<Rightarrow> TrainItem list \<Rightarrow> int list \<Rightarrow> Train_state
   \<Rightarrow> panic + Train_state" where
  "Train_body doingBestOfN inputs miniBatchSize lmbda testData perm s =
     (let inputCount = len inputs in
      andThen (make_slice zeroTrainItem inputCount) (\<lambda>shuffled0.
      andThen (shuffle_loop inputs perm 0 shuffled0) (\<lambda>shuffled.
      andThen (makeBatches shuffled miniBatchSize) (\<lambda>batches.
      andThen (runBatches (store s ! networkRef s) batches (curEta s) lmbda (len inputs))
        (\<lambda>network'.
      andThen (Cost network' testData) (\<lambda>cost.
        (let s1 = s\<lparr>store := (store s)[networkRef s := network']\<rparr>;
             s2 = (if doingBestOfN then
                     (if flt cost (bestCost s1)
                      then s1\<lparr>store := store s1 @ [NN_Copy network'],
                              bestNetworkRef := length (store s1),
                              bestCost := cost,
                              bestBefore := 0\<rparr>
                      else s1\<lparr>bestBefore := bestBefore s1 + 1\<rparr>)
                   else s1)
         in
           andThen (if len testData > 0 then Evaluate network' testData else Inr (Fin 0))
             (\<lambda>_. Inr (s2\<lparr>iter := iter s2 + 1\<rparr>)))))))))"

text \<open>
  The loop \<open>for { ... }\<close> can run for ever, so it takes fuel: one unit for each test of
  the loop head, \<open>None\<close> when the fuel runs out. \<open>perms i\<close> is the permutation drawn in
  the iteration whose counter is \<open>i\<close>.
\<close>

fun Train_loop ::
  "nat \<Rightarrow> bool \<Rightarrow> int \<Rightarrow> float64 \<Rightarrow> float64 \<Rightarrow> TrainItem list \<Rightarrow> int \<Rightarrow> float64
   \<Rightarrow> TrainItem list \<Rightarrow> (int \<Rightarrow> int list) \<Rightarrow> Train_state \<Rightarrow> (panic + Train_state) option" where
  "Train_loop 0 doingBestOfN epochs etaFraction oldEta inputs miniBatchSize lmbda testData perms s =
     None"
| "Train_loop (Suc fuel) doingBestOfN epochs etaFraction oldEta inputs miniBatchSize lmbda testData
     perms s =
     (case Train_head doingBestOfN epochs etaFraction oldEta s of
        Break s' \<Rightarrow> Some (Inr s')
      | Continue s' \<Rightarrow>
          (case Train_body doingBestOfN inputs miniBatchSize lmbda testData (perms (iter s')) s' of
             Inl p \<Rightarrow> Some (Inl p)
           | Inr s'' \<Rightarrow>
               Train_loop fuel doingBestOfN epochs etaFraction oldEta inputs miniBatchSize lmbda
                 testData perms s''))"

text \<open>
  \<open>Train\<close>. The result is the state in which the loop was left; what the caller has
  afterwards is cell 0 of its store.
\<close>

definition Train ::
  "nat \<Rightarrow> (int \<Rightarrow> int list) \<Rightarrow> NN \<Rightarrow> TrainItem list \<Rightarrow> int \<Rightarrow> int \<Rightarrow> float64 \<Rightarrow> float64
   \<Rightarrow> float64 \<Rightarrow> TrainItem list \<Rightarrow> bool \<Rightarrow> (panic + Train_state) option" where
  "Train fuel perms network inputs epochs miniBatchSize eta etaFraction lmbda testData printCost =
     (let oldEta = eta;
          doingBestOfN = (epochs < 0);
          epochs' = (if epochs < 0 then - epochs else epochs)
      in
        case Cost network testData of
          Inl p \<Rightarrow> Some (Inl p)
        | Inr cost0 \<Rightarrow>
            Train_loop fuel doingBestOfN epochs' etaFraction oldEta inputs miniBatchSize lmbda
              testData perms
              \<lparr>store = [network, NN_Copy network], networkRef = 0, bestNetworkRef = 1,
               bestCost = cost0, bestBefore = 0, curEta = eta, iter = 0\<rparr>)"

text \<open>
  What the caller's slices show after \<open>Train\<close>, and the network \<open>bestNetwork\<close> points to.
\<close>

definition callerNetwork :: "Train_state \<Rightarrow> NN" where
  "callerNetwork s = store s ! 0"

definition snapshot :: "Train_state \<Rightarrow> NN" where
  "snapshot s = store s ! bestNetworkRef s"

section \<open>Persistence as JSON\<close>

text \<open>
  \<open>MarshalJSON\<close> and \<open>UnmarshalJSON\<close> of both types hand a struct of exported fields to
  \<open>json.Marshal\<close> and \<open>json.Unmarshal\<close> of the standard library. The byte string is
  represented by the JSON value it denotes, and the library by what its documentation
  says for the types that occur here: a struct is an object with its fields in order, a
  slice is an array, an \<open>int\<close> and a finite \<open>float64\<close> are numbers (the shortest decimal
  that reads back as the same \<open>float64\<close>), and marshalling NaN or an infinity returns an
  \<open>UnsupportedValueError\<close>. On reading, a missing key and \<open>null\<close> leave the zero value,
  and a number that is not integral cannot be stored in an \<open>int\<close>. A nil slice and an
  empty one are not told apart. What \<open>MarshalJSON\<close> never writes is outside this
  representation: a number that no \<open>float64\<close> is written as, another spelling of a
  number such as \<open>2.0\<close> for an \<open>int\<close>, a key in another case and a repeated key.
\<close>

datatype json = JNull | JNumber real | JArray "json list" | JObject "(string \<times> json) list"

datatype json_error = UnsupportedValueError | UnmarshalTypeError

text \<open>The first error of a sequence of results ends it, as it ends the library's loops.\<close>

fun collect :: "(json_error + 'a) list \<Rightarrow> json_error + 'a list" where
  "collect [] = Inr []"
| "collect (Inl e # rs) = Inl e"
| "collect (Inr x # rs) = (case collect rs of Inl e \<Rightarrow> Inl e | Inr xs \<Rightarrow> Inr (x # xs))"

fun marshal_float64 :: "float64 \<Rightarrow> json_error + json" where
  "marshal_float64 (Fin r) = Inr (JNumber r)"
| "marshal_float64 PInf = Inl UnsupportedValueError"
| "marshal_float64 NInf = Inl UnsupportedValueError"
| "marshal_float64 NaN = Inl UnsupportedValueError"

definition marshal_int :: "int \<Rightarrow> json" where
  "marshal_int i = JNumber (of_int i)"

fun unmarshal_float64 :: "json \<Rightarrow> json_error + float64" where
  "unmarshal_float64 (JNumber r) = Inr (Fin r)"
| "unmarshal_float64 JNull = Inr (Fin 0)"
| "unmarshal_float64 j = Inl UnmarshalTypeError"

fun unmarshal_int :: "json \<Rightarrow> json_error + int" where
  "unmarshal_int (JNumber r) = (if r = of_int \<lfloor>r\<rfloor> then Inr \<lfloor>r\<rfloor> else Inl UnmarshalTypeError)"
| "unmarshal_int JNull = Inr 0"
| "unmarshal_int j = Inl UnmarshalTypeError"

fun unmarshal_slice :: "(json \<Rightarrow> json_error + 'a) \<Rightarrow> json \<Rightarrow> json_error + 'a list" where
  "unmarshal_slice elem (JArray js) = collect (map elem js)"
| "unmarshal_slice elem JNull = Inr []"
| "unmarshal_slice elem j = Inl UnmarshalTypeError"

definition field :: "string \<Rightarrow> (string \<times> json) list \<Rightarrow> json" where
  "field k fs = (case map_of fs k of None \<Rightarrow> JNull | Some j \<Rightarrow> j)"

text \<open>
  \<open>MarshalJSON\<close> of Matrix: \<open>json.Marshal(struct{Cols int; Values []float64}{m.cols, m.values})\<close>.
\<close>

definition Matrix_MarshalJSON :: "Matrix \<Rightarrow> json_error + json" where
  "Matrix_MarshalJSON m =
     (case collect (map marshal_float64 (vals m)) of
        Inl e \<Rightarrow> Inl e
      | Inr js \<Rightarrow> Inr (JObject [(''Cols'', marshal_int (cols m)), (''Values'', JArray js)]))"

text \<open>
  \<open>UnmarshalJSON\<close> of Matrix: it reads into a fresh struct, returns the error if there is
  one, and otherwise assigns both fields of the receiver; the result is the receiver
  afterwards.
\<close>

fun Matrix_UnmarshalJSON :: "json \<Rightarrow> json_error + Matrix" where
  "Matrix_UnmarshalJSON (JObject fs) =
     (case unmarshal_int (field ''Cols'' fs) of
        Inl e \<Rightarrow> Inl e
      | Inr c \<Rightarrow>
          (case unmarshal_slice unmarshal_float64 (field ''Values'' fs) of
             Inl e \<Rightarrow> Inl e
           | Inr vs \<Rightarrow> Inr \<lparr>cols = c, vals = vs\<rparr>))"
| "Matrix_UnmarshalJSON JNull = Inr \<lparr>cols = 0, vals = []\<rparr>"
| "Matrix_UnmarshalJSON j = Inl UnmarshalTypeError"

text \<open>
  \<open>MarshalJSON\<close> of NN marshals the struct \<open>{Layers, Weights, Biases}\<close> filled with
  \<open>network.layers\<close>, \<open>network.weights\<close>, \<open>network.biases\<close>; each matrix goes through its
  own \<open>MarshalJSON\<close>. \<open>UnmarshalJSON\<close> of NN assigns the three fields read, each matrix
  through its own \<open>UnmarshalJSON\<close>.
\<close>

definition NN_MarshalJSON :: "NN \<Rightarrow> json_error + json" where
  "NN_MarshalJSON network =
     (case collect (map Matrix_MarshalJSON (weights network)) of
        Inl e \<Rightarrow> Inl e
      | Inr ws \<Rightarrow>
          (case collect (map Matrix_MarshalJSON (biases network)) of
             Inl e \<Rightarrow> Inl e
           | Inr bs \<Rightarrow>
               Inr (JObject [(''Layers'', JArray (map marshal_int (layers network))),
                             (''Weights'', JArray ws), (''Biases'', JArray bs)])))"

fun NN_UnmarshalJSON :: "json \<Rightarrow> json_error + NN" where
  "NN_UnmarshalJSON (JObject fs) =
     (case unmarshal_slice unmarshal_int (field ''Layers'' fs) of
        Inl e \<Rightarrow> Inl e
      | Inr ls \<Rightarrow>
          (case unmarshal_slice Matrix_UnmarshalJSON (field ''Weights'' fs) of
             Inl e \<Rightarrow> Inl e
           | Inr ws \<Rightarrow>
               (case unmarshal_slice Matrix_UnmarshalJSON (field ''Biases'' fs) of
                  Inl e \<Rightarrow> Inl e
                | Inr bs \<Rightarrow> Inr \<lparr>layers = ls, weights = ws, biases = bs\<rparr>)))"
| "NN_UnmarshalJSON JNull = Inr \<lparr>layers = [], weights = [], biases = []\<rparr>"
| "NN_UnmarshalJSON j = Inl UnmarshalTypeError"

subsection \<open>Finite values\<close>

text \<open>A float64 that is neither an infinity nor NaN.\<close>

definition isFinite :: "float64 \<Rightarrow> bool" where
  "isFinite x = (case x of Fin r \<Rightarrow> True | PInf \<Rightarrow> False | NInf \<Rightarrow> False | NaN \<Rightarrow> False)"

subsection \<open>Well-formed networks and items\<close>

text \<open>
  The invariant of the data model: a matrix of \<open>r\<close> rows and \<open>c\<close> columns has the column
  count \<open>c\<close> and \<open>r * c\<close> values (both positive here); a network has at least two layers,
  one weight matrix and one bias matrix for each layer after the first, the \<open>i\<close>-th
  weight matrix of \<open>layers[i]\<close> rows and \<open>layers[i+1]\<close> columns and the \<open>i\<close>-th bias matrix
  of one row and \<open>layers[i+1]\<close> columns. An item fits a network when its values are one
  row of \<open>layers[0]\<close> columns, its number of classes is the size of the last layer and
  its label is the index of one of them. A pair of gradient lists is shaped like the
  network when it is well-formed in the place of the weights and biases.
\<close>

definition shape :: "int \<Rightarrow> int \<Rightarrow> Matrix \<Rightarrow> bool" where
  "shape r c m = (0 < r \<and> 0 < c \<and> cols m = c \<and> int (length (vals m)) = r * c)"

definition wellFormedNN :: "NN \<Rightarrow> bool" where
  "wellFormedNN network =
     (2 \<le> length (layers network)
      \<and> length (weights network) + 1 = length (layers network)
      \<and> length (biases network) = length (weights network)
      \<and> list_all
          (\<lambda>i. shape (layers network ! i) (layers network ! Suc i) (weights network ! i)
             \<and> shape 1 (layers network ! Suc i) (biases network ! i))
          [0 ..< length (weights network)])"

definition wellFormedItem :: "NN \<Rightarrow> TrainItem \<Rightarrow> bool" where
  "wellFormedItem network item =
     (shape 1 (layers network ! 0) (Values item)
      \<and> Distinct item = last (layers network)
      \<and> 0 \<le> int_of_float64 (Label item)
      \<and> int_of_float64 (Label item) < Distinct item)"

definition gradientsShaped :: "NN \<Rightarrow> Matrix list \<Rightarrow> Matrix list \<Rightarrow> bool" where
  "gradientsShaped network nablaW nablaB =
     wellFormedNN (network\<lparr>weights := nablaW, biases := nablaB\<rparr>)"

section \<open>Rounding\<close>

text \<open>
  Rounding is exact on the float64 values, never gives NaN, and does not take a number
  of magnitude 1 or more to zero.
\<close>

lemma halfEven_of_int: "halfEven (of_int j) = j"
  by (simp add: halfEven_def)

lemma floor_log2_less:
  assumes "0 < x" "x < 2 powi k"
  shows "\<lfloor>log 2 x\<rfloor> < k"
proof -
  define K where "K = \<lfloor>log 2 x\<rfloor>"
  from assms(1) have "(\<lfloor>log 2 x\<rfloor> = K) = (2 powr real_of_int K \<le> x \<and> x < 2 powr real_of_int (K + 1))"
    by (rule floor_log_eq_powr_iff) simp
  with K_def have "2 powr real_of_int K \<le> x" by simp
  then have "2 powi K \<le> x" by (simp add: powr_real_of_int')
  with assms(2) have "(2::real) powi K < 2 powi k" by simp
  then have "K < k"
    by (metis less_irrefl not_less power_int_increasing one_le_numeral order.strict_trans1)
  with K_def show ?thesis by simp
qed


lemma round64_repr:
  assumes x: "x = of_int m * 2 powi e" and m: "\<bar>m\<bar> < 2 ^ 53" and e: "- 1074 \<le> e"
    and r: "\<bar>x\<bar> < 2 ^ 1024"
  shows "round64 x = Fin x"
proof (cases "x = 0")
  case True
  then show ?thesis by (simp add: round64_def)
next
  case False
  define E where "E = max \<lfloor>log 2 \<bar>x\<bar>\<rfloor> (- 1022)"
  define u :: real where "u = 2 powi (E - 52)"
  have upos: "0 < u" by (simp add: u_def)
  have absx: "\<bar>x\<bar> = of_int \<bar>m\<bar> * 2 powi e" by (simp add: x abs_mult)
  have "of_int \<bar>m\<bar> < (2::real) ^ 53" using m by (metis of_int_less_numeral_power_cancel_iff)
  moreover have "0 < (2::real) powi e" by simp
  ultimately have "of_int \<bar>m\<bar> * 2 powi e < (2::real) ^ 53 * 2 powi e"
    by (rule mult_strict_right_mono)
  also have "\<dots> = 2 powi (e + 53)" by (simp add: power_int_add)
  finally have lt: "\<bar>x\<bar> < 2 powi (e + 53)" by (simp add: absx)
  from False have "0 < \<bar>x\<bar>" by simp
  from floor_log2_less [OF this lt] have "\<lfloor>log 2 \<bar>x\<bar>\<rfloor> \<le> e + 52" by simp
  with e have E: "E \<le> e + 52" by (simp add: E_def)
  define k where "k = nat (e - (E - 52))"
  from E have ke: "e = (E - 52) + int k" by (simp add: k_def)
  have "x / u = of_int m * (2 powi e / 2 powi (E - 52))" by (simp add: x u_def)
  also have "2 powi e / 2 powi (E - 52) = (2::real) ^ k"
    by (subst ke) (simp add: power_int_add)
  finally have q: "x / u = of_int (m * 2 ^ k)" by simp
  have "halfEven (x / u) = m * 2 ^ k" unfolding q by (rule halfEven_of_int)
  then have y: "of_int (halfEven (x / u)) * u = x"
    using q upos by (metis nonzero_eq_divide_eq less_irrefl)
  with False r show ?thesis
    by (simp add: round64_def Let_def E_def [symmetric] u_def [symmetric])
qed





lemma round64_dyadic:
  assumes "\<bar>m\<bar> < 2 ^ 53" "n \<le> 1074"
  shows "round64 (of_int m / 2 ^ n) = Fin (of_int m / 2 ^ n)"
proof (rule round64_repr [of _ m "- int n"])
  show "real_of_int m / 2 ^ n = real_of_int m * 2 powi - int n"
    by (simp add: power_int_minus field_simps)
  show "\<bar>m\<bar> < 2 ^ 53" by fact
  show "- 1074 \<le> - int n" using assms(2) by simp
  have "\<bar>real_of_int m / 2 ^ n\<bar> \<le> \<bar>real_of_int m\<bar>"
    by (simp add: abs_divide field_simps mult_le_cancel_left1)
  also have "\<bar>real_of_int m\<bar> < 2 ^ 53"
    using assms(1) by (metis of_int_abs of_int_less_numeral_power_cancel_iff)
  also have "(2::real) ^ 53 \<le> 2 ^ 1024" by (rule power_increasing) simp_all
  finally show "\<bar>real_of_int m / 2 ^ n\<bar> < 2 ^ 1024" .
qed

text \<open>A result of magnitude \<open>2^1024\<close> or more becomes an infinity.\<close>

lemma halfEven_ge:
  assumes "of_int j \<le> q"
  shows "j \<le> halfEven q"
proof -
  from assms have "j \<le> \<lfloor>q\<rfloor>" by (simp add: le_floor_iff)
  then show ?thesis by (simp add: halfEven_def Let_def)
qed

lemma halfEven_le:
  assumes "q \<le> of_int j"
  shows "halfEven q \<le> j"
proof (cases "q = of_int \<lfloor>q\<rfloor>")
  case True
  then have "q - of_int \<lfloor>q\<rfloor> = 0" by simp
  then have "halfEven q = \<lfloor>q\<rfloor>" by (simp add: halfEven_def Let_def)
  with assms show ?thesis by (simp add: floor_le_iff)
next
  case False
  moreover have "of_int \<lfloor>q\<rfloor> \<le> q" by (rule of_int_floor_le)
  ultimately have "of_int \<lfloor>q\<rfloor> < q" by linarith
  with assms have "\<lfloor>q\<rfloor> < j" by linarith
  then show ?thesis by (simp add: halfEven_def Let_def)
qed





text \<open>
  What rounding returns is a float64 value, and a finite result lies within half the
  distance between neighbouring float64 values of the exact one.
\<close>

lemma less_powi_floor_log2:
  assumes "0 < x"
  shows "x < 2 powi (\<lfloor>log 2 x\<rfloor> + 1)"
proof -
  define K where "K = \<lfloor>log 2 x\<rfloor>"
  from assms have "(\<lfloor>log 2 x\<rfloor> = K) = (2 powr real_of_int K \<le> x \<and> x < 2 powr real_of_int (K + 1))"
    by (rule floor_log_eq_powr_iff) simp
  with K_def have "x < 2 powr real_of_int (K + 1)" by simp
  also have "2 powr real_of_int (K + 1) = (2::real) powi (K + 1)"
    by (rule powr_real_of_int') simp_all
  finally show ?thesis by (simp add: K_def)
qed

lemma round64_isFloat64: "isFloat64 (round64 x)"
proof (cases "x = 0")
  case True
  then show ?thesis by (simp add: round64_def)
next
  case False
  define E where "E = max \<lfloor>log 2 \<bar>x\<bar>\<rfloor> (- 1022)"
  define u :: real where "u = 2 powi (E - 52)"
  define n where "n = halfEven (x / u)"
  define y where "y = of_int n * u"
  have upos: "0 < u" by (simp add: u_def)
  have r: "round64 x = (if 2 ^ 1024 \<le> \<bar>y\<bar> then (if 0 < x then PInf else NInf) else Fin y)"
    using False by (simp add: round64_def Let_def E_def [symmetric] u_def [symmetric] n_def y_def)
  show ?thesis
  proof (cases "2 ^ 1024 \<le> \<bar>y\<bar>")
    case True
    with r show ?thesis by simp
  next
    case small: False
    have "E + 1 = 53 + (E - 52)" by simp
    then have "(2::real) powi (E + 1) = 2 powi (53 + (E - 52))" by (rule arg_cong)
    also have "\<dots> = 2 powi 53 * 2 powi (E - 52)" by (rule power_int_add) simp
    finally have p53: "(2::real) powi (E + 1) = 2 ^ 53 * u" by (simp add: u_def)
    from False have "\<bar>x\<bar> < 2 powi (\<lfloor>log 2 \<bar>x\<bar>\<rfloor> + 1)" by (intro less_powi_floor_log2) simp
    also have "\<dots> \<le> 2 powi (E + 1)" by (intro power_int_increasing) (simp_all add: E_def)
    also note p53
    finally have "\<bar>x / u\<bar> < 2 ^ 53" using upos by (simp add: pos_divide_less_eq)
    then have "x / u \<le> 2 ^ 53" "- (2 ^ 53) \<le> x / u" by linarith+
    then have "x / u \<le> real_of_int (2 ^ 53)" "real_of_int (- (2 ^ 53)) \<le> x / u" by simp_all
    from halfEven_le [OF this(1)] halfEven_ge [OF this(2)] have n: "\<bar>n\<bar> \<le> 2 ^ 53"
      by (simp add: n_def)
    have "round64 y = Fin y"
    proof (cases "\<bar>n\<bar> = 2 ^ 53")
      case True
      then have "n = 2 ^ 53 \<or> n = - (2 ^ 53)" by linarith
      then obtain s :: int where s: "n = s * 2 ^ 53" "\<bar>s\<bar> = 1" by fastforce
      show ?thesis
      proof (rule round64_repr [of _ s "E + 1"])
        have "y = of_int s * (2 ^ 53 * u)" by (simp add: y_def s(1))
        also note p53 [symmetric]
        finally show "y = real_of_int s * 2 powi (E + 1)" .
        show "\<bar>s\<bar> < 2 ^ 53" using s(2) by simp
        show "- 1074 \<le> E + 1" by (simp add: E_def)
        show "\<bar>y\<bar> < 2 ^ 1024" using small by simp
      qed
    next
      case False
      with n have "\<bar>n\<bar> < 2 ^ 53" by simp
      then show ?thesis
      proof (rule round64_repr [of _ n "E - 52", rotated])
        show "y = real_of_int n * 2 powi (E - 52)" by (simp add: y_def u_def)
        show "- 1074 \<le> E - 52" by (simp add: E_def)
        show "\<bar>y\<bar> < 2 ^ 1024" using small by simp
      qed
    qed
    with r small show ?thesis by simp
  qed
qed

lemma halfEven_near: "\<bar>of_int (halfEven q) - q\<bar> \<le> 1 / 2"
proof -
  have "of_int \<lfloor>q\<rfloor> \<le> q" "q < of_int \<lfloor>q\<rfloor> + 1" by linarith+
  then show ?thesis by (auto simp add: halfEven_def Let_def)
qed

lemma round64_near:
  assumes "round64 x = Fin y"
  shows "\<bar>y - x\<bar> \<le> 2 powi (max \<lfloor>log 2 \<bar>x\<bar>\<rfloor> (- 1022) - 53)"
proof (cases "x = 0")
  case True
  with assms show ?thesis by (simp add: round64_def)
next
  case False
  define E where "E = max \<lfloor>log 2 \<bar>x\<bar>\<rfloor> (- 1022)"
  define u :: real where "u = 2 powi (E - 52)"
  have upos: "0 < u" by (simp add: u_def)
  from assms False have y: "y = of_int (halfEven (x / u)) * u"
    by (simp add: round64_def Let_def E_def [symmetric] u_def [symmetric] split: if_splits)
  have "y - x = (of_int (halfEven (x / u)) - x / u) * u"
    using upos by (simp add: y field_simps)
  then have "\<bar>y - x\<bar> = \<bar>of_int (halfEven (x / u)) - x / u\<bar> * u"
    using upos by (simp add: abs_mult)
  also have "\<dots> \<le> 1 / 2 * u"
    using halfEven_near [of "x / u"] upos by (intro mult_right_mono) simp_all
  also have "1 / 2 * u = 2 powi (E - 53)"
  proof -
    have "E - 52 = (E - 53) + 1" by simp
    then have "(2::real) powi (E - 52) = 2 powi ((E - 53) + 1)" by (rule arg_cong)
    also have "\<dots> = 2 powi (E - 53) * 2" by (rule power_int_add_1) simp
    finally show ?thesis by (simp add: u_def)
  qed
  finally show ?thesis by (simp add: E_def)
qed

text \<open>The numbers that occur in the concrete runs below.\<close>

lemma round64_0: "round64 0 = Fin 0"
  by (simp add: round64_def)

lemma round64_1: "round64 1 = Fin 1"
  using round64_dyadic [of 1 0] by simp

lemma round64_neg_1: "round64 (- 1) = Fin (- 1)"
  using round64_dyadic [of "- 1" 0] by simp

lemma round64_numeral:
  "numeral k < (2::int) ^ 53 \<Longrightarrow> round64 (numeral k) = Fin (numeral k)"
  using round64_dyadic [of "numeral k" 0] by simp

lemma round64_neg_numeral:
  "numeral k < (2::int) ^ 53 \<Longrightarrow> round64 (- numeral k) = Fin (- numeral k)"
  using round64_dyadic [of "- numeral k" 0] by simp

lemma round64_half: "round64 (1 / 2) = Fin (1 / 2)"
  using round64_dyadic [of 1 1] by simp

lemma round64_neg_half: "round64 (- (1 / 2)) = Fin (- (1 / 2))"
  using round64_dyadic [of "- 1" 1] by simp

lemma round64_halves:
  "numeral k < (2::int) ^ 53 \<Longrightarrow> round64 (numeral k / 2) = Fin (numeral k / 2)"
  using round64_dyadic [of "numeral k" 1] by simp

lemma round64_neg_halves:
  "numeral k < (2::int) ^ 53 \<Longrightarrow> round64 (- (numeral k / 2)) = Fin (- (numeral k / 2))"
  using round64_dyadic [of "- numeral k" 1] by simp

lemma round64_quarter: "round64 (1 / 4) = Fin (1 / 4)"
  using round64_dyadic [of 1 2] by simp

lemma round64_neg_quarter: "round64 (- (1 / 4)) = Fin (- (1 / 4))"
  using round64_dyadic [of "- 1" 2] by simp

lemma round64_quarters:
  "numeral k < (2::int) ^ 53 \<Longrightarrow> round64 (numeral k / 4) = Fin (numeral k / 4)"
  using round64_dyadic [of "numeral k" 2] by simp

lemma round64_neg_quarters:
  "numeral k < (2::int) ^ 53 \<Longrightarrow> round64 (- (numeral k / 4)) = Fin (- (numeral k / 4))"
  using round64_dyadic [of "- numeral k" 2] by simp

lemmas round64_simps =
  round64_0 round64_1 round64_neg_1 round64_numeral round64_neg_numeral round64_half
  round64_neg_half round64_halves round64_neg_halves round64_quarter round64_neg_quarter
  round64_quarters round64_neg_quarters

text \<open>
  Every operation returns a float64 value: a computation that starts from float64
  values meets no other number.
\<close>

lemma halfEven_minus: "halfEven (- q) = - halfEven q"
proof (cases "q = of_int \<lfloor>q\<rfloor>")
  case True
  then obtain k where "q = of_int k" ..
  then have "- q = of_int (- k)" by simp
  with \<open>q = of_int k\<close> show ?thesis by (simp only: halfEven_of_int)
next
  case False
  then have f: "\<lfloor>- q\<rfloor> = - \<lfloor>q\<rfloor> - 1" by (simp add: floor_minus ceiling_altdef)
  have "of_int \<lfloor>q\<rfloor> \<le> q" "q < of_int \<lfloor>q\<rfloor> + 1" by linarith+
  with False show ?thesis by (auto simp add: halfEven_def Let_def f)
qed

lemma round64_minus: "round64 (- x) = fneg (round64 x)"
  by (simp add: round64_def Let_def halfEven_minus abs_mult)

lemma float64_closed:
  "isFloat64 (fadd x y)" "isFloat64 (fsub x y)" "isFloat64 (fmul x y)" "isFloat64 (fdiv x y)"
  "isFloat64 (fexp x)" "isFloat64 (flog2 x)" "isFloat64 (float64_of_int i)"
  "isFloat64 x \<Longrightarrow> isFloat64 (fneg x)"
proof -
  show "isFloat64 (fadd x y)" for x y
    by (cases x; cases y) (simp_all add: round64_isFloat64)
  then show "isFloat64 (fsub x y)" by (simp add: fsub_def)
  show "isFloat64 (fmul x y)"
    by (cases x; cases y) (simp_all add: round64_isFloat64)
  show "isFloat64 (fdiv x y)"
    by (cases x; cases y) (simp_all add: round64_isFloat64 round64_0)
  show "isFloat64 (fexp x)"
    by (cases x) (simp_all add: round64_isFloat64 round64_0)
  show "isFloat64 (flog2 x)"
    by (cases x) (simp_all add: round64_isFloat64)
  show "isFloat64 (float64_of_int i)"
    by (simp add: float64_of_int_def round64_isFloat64)
  show "isFloat64 x \<Longrightarrow> isFloat64 (fneg x)"
  proof (cases x)
    case (Fin a)
    assume "isFloat64 x"
    with Fin have "round64 a = Fin a" by simp
    moreover have "round64 (- a) = fneg (round64 a)" by (rule round64_minus)
    ultimately show ?thesis using Fin by simp
  qed simp_all
qed

section \<open>Evaluation\<close>

lemma isFinite_simps [simp]:
  "isFinite (Fin r)" "\<not> isFinite PInf" "\<not> isFinite NInf" "\<not> isFinite NaN"
  by (simp_all add: isFinite_def)

text \<open>The definitions that a concrete run unfolds.\<close>

lemmas run_defs =
  InitMatrix_def make_slice_def MaxAt_def MinAt_def Max_def Min_def Rows_def Cols_def quo_def
  index_def assign_def must_def check_def len_def operate_def Add_def Sub_def Mult_def Apply_def
  Dot_def Dot_cell_def Transpose_def at_m_def set_m_def Set_def checkRowCol_def OneHotMatrix_def
  Sigmoid_def SigmoidPrime_def Negate_def OnePlus_def OneMinus_def Invert_def MultBy_def
  zeroMatrix_def fsub_def fgt_def float64_of_int_def FeedForward_def NN_Copy_def Copy_def
  InitMatrixWithValues_def Evaluate_def Cost_def Sum_def slice_def slice_from_def
  batchesCount_def makeBatches_def upto.simps backprop_def backprop_back_def updateMiniBatch_def
  Train_def Train_head_def Train_body_def zeroTrainItem_def round64_simps

section \<open>What a call that returns has computed\<close>

text \<open>
  A computation that did not panic went through each of its steps; the lemmas of this
  section read the result of a successful call off its arguments.
\<close>

lemma andThen_Inr: "andThen m f = Inr r \<longleftrightarrow> (\<exists>x. m = Inr x \<and> f x = Inr r)"
  by (cases m) auto

lemma must_Inr: "must m = Inr x \<longleftrightarrow> m = Inr (x, None)"
  by (cases m) (auto simp: must_def split: option.splits prod.splits)

lemma check_Inr: "check e = Inr u \<longleftrightarrow> e = None"
  by (cases e) (auto simp: check_def)

lemma index_Inr: "index xs i = Inr x \<longleftrightarrow> 0 \<le> i \<and> i < int (length xs) \<and> x = xs ! nat i"
  by (auto simp: index_def)

lemma assign_Inr:
  "assign xs i v = Inr ys \<longleftrightarrow> 0 \<le> i \<and> i < int (length xs) \<and> ys = xs[nat i := v]"
  by (auto simp: assign_def)

lemma make_slice_Inr: "make_slice z n = Inr xs \<longleftrightarrow> 0 \<le> n \<and> xs = replicate (nat n) z"
  by (auto simp: make_slice_def)

lemma InitMatrix_Inr:
  "InitMatrix r c = Inr m \<longleftrightarrow> 0 \<le> r * c \<and> m = \<lparr>cols = c, vals = replicate (nat (r * c)) (Fin 0)\<rparr>"
  by (auto simp: InitMatrix_def andThen_Inr make_slice_Inr)

lemma quo_bound:
  assumes "quo (int k) c = Inr q"
  shows "c \<noteq> 0" and "0 \<le> q * c" and "nat (q * c) \<le> k"
proof -
  from assms show c: "c \<noteq> 0" by (auto simp: quo_def split: if_splits)
  from assms c have q: "q = sgn (int k) * sgn c * (int k div \<bar>c\<bar>)"
    by (auto simp: quo_def)
  have "sgn c * c = \<bar>c\<bar>" by (simp add: abs_if sgn_if)
  then have qc: "q * c = sgn (int k) * (\<bar>c\<bar> * (int k div \<bar>c\<bar>))"
    unfolding q by (simp add: mult.assoc mult.left_commute mult.commute)
  have nonneg: "0 \<le> \<bar>c\<bar> * (int k div \<bar>c\<bar>)"
    using c by (simp add: pos_imp_zdiv_nonneg_iff)
  have "\<bar>c\<bar> * (int k div \<bar>c\<bar>) + int k mod \<bar>c\<bar> = int k" by simp
  moreover have "0 \<le> int k mod \<bar>c\<bar>" using c by simp
  ultimately have le: "\<bar>c\<bar> * (int k div \<bar>c\<bar>) \<le> int k" by linarith
  from qc nonneg show "0 \<le> q * c" by (simp add: sgn_if)
  from qc nonneg le show "nat (q * c) \<le> k" by (simp add: sgn_if nat_le_iff)
qed

lemma Apply_loop_Inr:
  "Apply_loop f xs (int k) res = Inr r \<Longrightarrow> k \<le> length res \<Longrightarrow>
     k + length xs \<le> length res \<and> r = take k res @ map f xs @ drop (k + length xs) res"
proof (induction xs arbitrary: k res)
  case Nil
  then show ?case by simp
next
  case (Cons x xs)
  from Cons.prems obtain res' where a: "assign res (int k) (f x) = Inr res'"
    and rest: "Apply_loop f xs (int (Suc k)) res' = Inr r"
    by (auto simp: andThen_Inr add.commute)
  from a have k: "k < length res" and res': "res' = res[k := f x]"
    by (auto simp: assign_Inr)
  from k res' have "Suc k \<le> length res'" by simp
  from Cons.IH [OF rest this] have len: "Suc k + length xs \<le> length res'"
    and r: "r = take (Suc k) res' @ map f xs @ drop (Suc k + length xs) res'" by auto
  from len res' have "k + length (x # xs) \<le> length res" by simp
  moreover have "take (Suc k) res' = take k res @ [f x]"
    using k res' by (simp add: take_Suc_conv_app_nth)
  moreover have "drop (Suc k + length xs) res' = drop (k + length (x # xs)) res"
    using res' by simp
  ultimately show ?case using r by simp
qed

lemma Apply_Inr:
  assumes "Apply m f = Inr r"
  shows "r = \<lparr>cols = cols m, vals = map f (vals m)\<rparr>"
proof -
  from assms obtain q res vs where q: "quo (int (length (vals m))) (cols m) = Inr q"
    and res: "InitMatrix q (cols m) = Inr res"
    and vs: "Apply_loop f (vals m) 0 (vals res) = Inr vs"
    and r: "r = res\<lparr>vals := vs\<rparr>"
    by (auto simp: Apply_def andThen_Inr Rows_def Cols_def)
  from res have res': "res = \<lparr>cols = cols m, vals = replicate (nat (q * cols m)) (Fin 0)\<rparr>"
    by (simp add: InitMatrix_Inr)
  from vs have "Apply_loop f (vals m) (int 0) (vals res) = Inr vs" by simp
  from Apply_loop_Inr [OF this]
  have len: "length (vals m) \<le> length (vals res)"
    and v: "vs = map f (vals m) @ drop (length (vals m)) (vals res)" by auto
  from quo_bound(3) [OF q] res' have "length (vals res) \<le> length (vals m)" by simp
  with v have "vs = map f (vals m)" by simp
  with r res' show ?thesis by simp
qed

lemma operate_loop_Inr:
  "operate_loop f xs ns (int k) res = Inr r \<Longrightarrow> k \<le> length res \<Longrightarrow> k \<le> length ns \<Longrightarrow>
     k + length xs \<le> length res \<and> k + length xs \<le> length ns
     \<and> r = take k res @ map2 f xs (drop k ns) @ drop (k + length xs) res"
proof (induction xs arbitrary: k res)
  case Nil
  then show ?case by simp
next
  case (Cons x xs)
  from Cons.prems obtain y res' where y: "index ns (int k) = Inr y"
    and a: "assign res (int k) (f x y) = Inr res'"
    and rest: "operate_loop f xs ns (int (Suc k)) res' = Inr r"
    by (auto simp: andThen_Inr add.commute)
  from y have kn: "k < length ns" and y': "y = ns ! k" by (auto simp: index_Inr)
  from a have k: "k < length res" and res': "res' = res[k := f x y]"
    by (auto simp: assign_Inr)
  from k res' have "Suc k \<le> length res'" by simp
  moreover from kn have "Suc k \<le> length ns" by simp
  ultimately have "Suc k + length xs \<le> length res' \<and> Suc k + length xs \<le> length ns
     \<and> r = take (Suc k) res' @ map2 f xs (drop (Suc k) ns) @ drop (Suc k + length xs) res'"
    using Cons.IH [OF rest] by blast
  then have len: "Suc k + length xs \<le> length res'"
    and lenn: "Suc k + length xs \<le> length ns"
    and r: "r = take (Suc k) res' @ map2 f xs (drop (Suc k) ns) @ drop (Suc k + length xs) res'"
    by auto
  have "take (Suc k) res' = take k res @ [f x y]"
    using k res' by (simp add: take_Suc_conv_app_nth)
  moreover have "drop (Suc k + length xs) res' = drop (k + length (x # xs)) res"
    using res' by simp
  moreover have "drop k ns = y # drop (Suc k) ns"
    using kn y' by (simp add: Cons_nth_drop_Suc)
  ultimately show ?case using r len lenn res' by simp
qed

lemma operate_Inr:
  assumes "operate m n f = Inr (r, None)"
  shows "r = \<lparr>cols = cols m, vals = map2 f (vals m) (vals n)\<rparr>"
    and "cols n = cols m" and "length (vals m) \<le> length (vals n)"
proof -
  from assms have "\<exists>q res vs. quo (int (length (vals m))) (cols m) = Inr q
      \<and> cols m = cols n \<and> InitMatrix q (cols m) = Inr res
      \<and> operate_loop f (vals m) (vals n) 0 (vals res) = Inr vs \<and> r = res\<lparr>vals := vs\<rparr>"
    by (auto simp: operate_def andThen_Inr Rows_def Cols_def split: if_splits)
  then obtain q res vs where q: "quo (int (length (vals m))) (cols m) = Inr q"
    and eq: "cols m = cols n"
    and res: "InitMatrix q (cols m) = Inr res"
    and vs: "operate_loop f (vals m) (vals n) 0 (vals res) = Inr vs"
    and r: "r = res\<lparr>vals := vs\<rparr>"
    by blast
  from res have res': "res = \<lparr>cols = cols m, vals = replicate (nat (q * cols m)) (Fin 0)\<rparr>"
    by (simp add: InitMatrix_Inr)
  from vs have "operate_loop f (vals m) (vals n) (int 0) (vals res) = Inr vs" by simp
  from operate_loop_Inr [OF this]
  have len: "length (vals m) \<le> length (vals res)"
    and lenn: "length (vals m) \<le> length (vals n)"
    and v: "vs = map2 f (vals m) (vals n) @ drop (length (vals m)) (vals res)" by auto
  from quo_bound(3) [OF q] res' have "length (vals res) \<le> length (vals m)" by simp
  with v have "vs = map2 f (vals m) (vals n)" by simp
  with r res' show "r = \<lparr>cols = cols m, vals = map2 f (vals m) (vals n)\<rparr>" by simp
  from eq show "cols n = cols m" by simp
  from lenn show "length (vals m) \<le> length (vals n)" .
qed

lemma zeroLike_length: "zeroLike ms = Inr zs \<Longrightarrow> length zs = length ms"
  by (induction ms arbitrary: zs) (auto simp: andThen_Inr)

lemma last_update_before:
  "Suc k < length xs \<Longrightarrow> last (xs[k := v]) = last xs"
proof -
  assume k: "Suc k < length xs"
  then have "xs \<noteq> []" "xs[k := v] \<noteq> []" by auto
  then show ?thesis using k by (simp add: last_conv_nth)
qed

lemma backprop_back_keeps_last:
  assumes "backprop_back network activations zs l (d, nw, nb) = Inr (d', nw', nb')"
    and "2 \<le> l"
  shows "length nw' = length nw \<and> length nb' = length nb
         \<and> last nw' = last nw \<and> last nb' = last nb"
proof -
  from assms(1) obtain dl gw where nb': "assign nb (len nb - l) dl = Inr nb'"
    and nw': "assign nw (len nw - l) gw = Inr nw'"
    by (auto simp: backprop_back_def andThen_Inr check_Inr split: prod.splits)
  from nb' assms(2) have "nb' = nb[nat (len nb - l) := dl]"
    and "Suc (nat (len nb - l)) < length nb"
    by (auto simp: assign_Inr len_def)
  moreover from nw' assms(2) have "nw' = nw[nat (len nw - l) := gw]"
    and "Suc (nat (len nw - l)) < length nw"
    by (auto simp: assign_Inr len_def)
  ultimately show ?thesis by (simp add: last_update_before)
qed

lemma backprop_back_loop_keeps_last:
  "for_loop ls (d, nw, nb) (backprop_back network activations zs) = Inr (d', nw', nb') \<Longrightarrow>
   list_all (\<lambda>l. 2 \<le> l) ls \<Longrightarrow>
   length nw' = length nw \<and> length nb' = length nb \<and> last nw' = last nw \<and> last nb' = last nb"
proof (induction ls arbitrary: d nw nb)
  case Nil
  then show ?case by simp
next
  case (Cons l ls)
  from Cons.prems(1) obtain d1 nw1 nb1
    where step: "backprop_back network activations zs l (d, nw, nb) = Inr (d1, nw1, nb1)"
      and rest: "for_loop ls (d1, nw1, nb1) (backprop_back network activations zs)
                   = Inr (d', nw', nb')"
    by (auto simp: andThen_Inr)
  from Cons.prems(2) have l: "2 \<le> l" and ls: "list_all (\<lambda>l. 2 \<le> l) ls" by auto
  from backprop_back_keeps_last [OF step l] Cons.IH [OF rest ls] show ?case by simp
qed

lemma upto_from_2: "list_all (\<lambda>l. 2 \<le> l) [2 .. k]"
  by (simp add: list_all_iff)

lemma backprop_forward_FeedForward:
  "backprop_forward network ws i a activations zs = Inr (activations', zs') \<Longrightarrow>
   activations \<noteq> [] \<Longrightarrow> last activations = a \<Longrightarrow>
   FeedForward_loop network ws i a = Inr (last activations')
   \<and> length activations' = length activations + length ws"
proof (induction ws arbitrary: i a activations zs)
  case Nil
  then show ?case by simp
next
  case (Cons w ws)
  from Cons.prems(1) obtain b multiplied z a'
    where b: "index (biases network) i = Inr b"
      and m: "must (Dot a w) = Inr multiplied"
      and z: "must (Add multiplied b) = Inr z"
      and a': "Sigmoid z = Inr a'"
      and rest: "backprop_forward network ws (i + 1) a' (activations @ [a']) (zs @ [z])
                   = Inr (activations', zs')"
    by (auto simp: andThen_Inr)
  from Cons.IH [OF rest] have "FeedForward_loop network ws (i + 1) a' = Inr (last activations')"
    and "length activations' = length (activations @ [a']) + length ws" by auto
  with b m z a' show ?case by simp
qed

lemma OneHotMatrix_row_Inr:
  assumes "OneHotMatrix 1 c 0 setcol = Inr (y, None)"
  shows "y = \<lparr>cols = c, vals = (replicate (nat c) (Fin 0))[nat setcol := Fin 1]\<rparr>"
    and "0 \<le> setcol" and "setcol < c"
proof -
  from assms obtain m where m: "InitMatrix 1 c = Inr m" and s: "Set m 0 setcol (Fin 1) = Inr (y, None)"
    by (auto simp: OneHotMatrix_def andThen_Inr)
  from m have m': "m = \<lparr>cols = c, vals = replicate (nat c) (Fin 0)\<rparr>" and c: "0 \<le> c"
    by (auto simp: InitMatrix_Inr)
  from s obtain ok where ok: "checkRowCol m 0 setcol = Inr ok"
    and s': "(if \<not> ok then Inr (m, Some ErrSetOutside)
              else andThen (set_m m 0 setcol (Fin 1)) (\<lambda>m'. Inr (m', None))) = Inr (y, None)"
    by (auto simp: Set_def andThen_Inr)
  from s' have ok': ok and y: "set_m m 0 setcol (Fin 1) = Inr y"
    by (auto simp: andThen_Inr split: if_splits)
  from ok ok' show "0 \<le> setcol" and "setcol < c" using m'
    by (auto simp: checkRowCol_def andThen_Inr Cols_def)
  from y m' show "y = \<lparr>cols = c, vals = (replicate (nat c) (Fin 0))[nat setcol := Fin 1]\<rparr>"
    by (auto simp: set_m_def andThen_Inr assign_Inr Cols_def)
qed

lemma nat_len_minus: "nat (int n - 1) = n - 1" "nat (int n - 2) = n - 2"
  by arith+

section \<open>Max, MaxAt, Min and MinAt on empty matrices\<close>

text \<open>
  C7. \<open>Max\<close>, \<open>MaxAt\<close>, \<open>Min\<close> and \<open>MinAt\<close> are claimed to return an EmptyMatrix error, not
  to crash, on a matrix with 0 rows or 0 columns. The code at two such matrices, both
  made by \<open>InitMatrix\<close>: on the matrix with 0 rows and 3 columns \<open>MaxAt\<close> and \<open>MinAt\<close>
  return the error, but \<open>Max\<close> and \<open>Min\<close> then read \<open>m.values[0]\<close> of an empty slice and
  panic; on the matrix with 3 rows and 0 columns all four panic in \<open>Rows\<close>, which
  divides by the column count before \<open>m.Cols() == 0\<close> is looked at.
\<close>

theorem C7_empty_matrix_panics:
  "InitMatrix 0 3 = Inr \<lparr>cols = 3, vals = []\<rparr>
   \<and> MaxAt \<lparr>cols = 3, vals = []\<rparr> = Inr (0, Some ErrEmptyMax)
   \<and> MinAt \<lparr>cols = 3, vals = []\<rparr> = Inr (0, Some ErrEmptyMin)
   \<and> Max \<lparr>cols = 3, vals = []\<rparr> = Inl IndexOutOfRange
   \<and> Min \<lparr>cols = 3, vals = []\<rparr> = Inl IndexOutOfRange
   \<and> InitMatrix 3 0 = Inr \<lparr>cols = 0, vals = []\<rparr>
   \<and> MaxAt \<lparr>cols = 0, vals = []\<rparr> = Inl DivideByZero
   \<and> MinAt \<lparr>cols = 0, vals = []\<rparr> = Inl DivideByZero
   \<and> Max \<lparr>cols = 0, vals = []\<rparr> = Inl DivideByZero
   \<and> Min \<lparr>cols = 0, vals = []\<rparr> = Inl DivideByZero"
  by (simp add: InitMatrix_def make_slice_def MaxAt_def MinAt_def Max_def Min_def Rows_def
      Cols_def quo_def index_def)

section \<open>Copy of a network\<close>

text \<open>
  C2. \<open>Copy\<close> is claimed to return a network with the same layer sizes, the same \<open>i\<close>-th
  weight matrix and the same \<open>i\<close>-th bias matrix, whose \<open>FeedForward\<close> agrees with the
  original's. In the code the copy's weights are the copies of the original's biases
  and its biases the copies of the original's weights, for every network. At the
  network with layers 2, 1, weights \<open>(1, 2)\<close> and bias \<open>0\<close>, on the input \<open>(0, 0)\<close>, the
  original's \<open>FeedForward\<close> returns \<open>1/2\<close> and the copy's panics on the shape error of
  \<open>Dot\<close>.
\<close>

theorem C2_Copy_swaps_weights_and_biases:
  "weights (NN_Copy network) = map Copy (biases network)
   \<and> biases (NN_Copy network) = map Copy (weights network)
   \<and> NN_Copy \<lparr>layers = [2, 1], weights = [\<lparr>cols = 1, vals = [Fin 1, Fin 2]\<rparr>],
               biases = [\<lparr>cols = 1, vals = [Fin 0]\<rparr>]\<rparr>
       = \<lparr>layers = [2, 1], weights = [\<lparr>cols = 1, vals = [Fin 0]\<rparr>],
           biases = [\<lparr>cols = 1, vals = [Fin 1, Fin 2]\<rparr>]\<rparr>
   \<and> FeedForward \<lparr>layers = [2, 1], weights = [\<lparr>cols = 1, vals = [Fin 1, Fin 2]\<rparr>],
                    biases = [\<lparr>cols = 1, vals = [Fin 0]\<rparr>]\<rparr>
         \<lparr>cols = 2, vals = [Fin 0, Fin 0]\<rparr>
       = Inr \<lparr>cols = 1, vals = [Fin (1 / 2)]\<rparr>
   \<and> FeedForward (NN_Copy \<lparr>layers = [2, 1], weights = [\<lparr>cols = 1, vals = [Fin 1, Fin 2]\<rparr>],
                             biases = [\<lparr>cols = 1, vals = [Fin 0]\<rparr>]\<rparr>)
         \<lparr>cols = 2, vals = [Fin 0, Fin 0]\<rparr>
       = Inl (PanicErr ErrDotDimensions)"
  by (simp add: run_defs)

section \<open>Batching\<close>

text \<open>
  C3. The batching of \<open>Train\<close> is claimed to put every item in exactly one batch and to
  keep every slice bound within the list. With 10 items and mini-batches of 4 the code
  makes 3 batches, and the third is \<open>shuffled[8:12]\<close>, since its test
  \<open>i+miniBatchSize >= inputCount\<close> is \<open>2+4 >= 10\<close>: the slice expression panics. With 5
  items and mini-batches of 4 it makes the one batch \<open>shuffled[0:4]\<close>, and the fifth item
  is in no batch.
\<close>

theorem C3_batching_out_of_range_and_dropped_item:
  "batchesCount 10 4 = 3
   \<and> makeBatches [0, 1, 2, 3, 4, 5, 6, 7, 8, 9 :: nat] 4 = Inl SliceBoundsOutOfRange
   \<and> batchesCount 5 4 = 1
   \<and> makeBatches [0, 1, 2, 3, 4 :: nat] 4 = Inr [[0, 1, 2, 3]]"
  by (simp add: run_defs)

section \<open>Evaluate and Cost on no items\<close>

text \<open>
  C10. On the empty list of items \<open>Evaluate\<close> returns \<open>0/0\<close>, which is NaN, and \<open>Cost\<close>
  divides its sum \<open>0.0\<close> by zero likewise; neither panics nor has a guard, for every
  network.
\<close>

theorem C10_Evaluate_and_Cost_of_no_items:
  "Evaluate network [] = Inr (fdiv (float64_of_int 0) (float64_of_int (len [])))
   \<and> Cost network [] = Inr (fdiv (Fin 0) (float64_of_int (len [])))
   \<and> Evaluate network [] = Inr NaN
   \<and> Cost network [] = Inr NaN"
  by (simp add: Evaluate_def Cost_def float64_of_int_def len_def round64_0)

section \<open>The loop of Train\<close>

text \<open>
  C1. In best-of-N mode with \<open>etaFraction = 0\<close> the caller is claimed to end up with the
  best-cost snapshot, not with the parameters of the last iteration. A run with patience
  1 (\<open>epochs = -1\<close>), one training item, mini-batches of 1, \<open>eta = 1\<close>, \<open>lmbda = 0\<close> and no
  test data, on the network with layers 1, 1 whose weight and bias are 0: the validation
  cost is NaN throughout, so the one iteration does not improve it and the loop stops
  after it, with \<open>network = bestNetwork\<close>. The snapshot is the network as it was before
  the iteration; the caller's arrays hold the weight and bias \<open>1/2\<close> that
  \<open>updateMiniBatch\<close> wrote in that iteration, since the assignment changes the variable
  of \<open>Train\<close> only.
\<close>

theorem C1_caller_keeps_last_iteration:
  "Train 2 (\<lambda>i. [0])
     \<lparr>layers = [1, 1], weights = [\<lparr>cols = 1, vals = [Fin 0]\<rparr>],
      biases = [\<lparr>cols = 1, vals = [Fin 0]\<rparr>]\<rparr>
     [\<lparr>Values = \<lparr>cols = 1, vals = [Fin 1]\<rparr>, Label = Fin 0, Distinct = 1\<rparr>]
     (- 1) 1 (Fin 1) (Fin 0) (Fin 0) [] False
   = Some (Inr
       \<lparr>store =
          [\<lparr>layers = [1, 1], weights = [\<lparr>cols = 1, vals = [Fin (1 / 2)]\<rparr>],
            biases = [\<lparr>cols = 1, vals = [Fin (1 / 2)]\<rparr>]\<rparr>,
           \<lparr>layers = [1, 1], weights = [\<lparr>cols = 1, vals = [Fin 0]\<rparr>],
            biases = [\<lparr>cols = 1, vals = [Fin 0]\<rparr>]\<rparr>],
        networkRef = 1, bestNetworkRef = 1, bestCost = NaN, bestBefore = 1,
        curEta = Fin 1, iter = 1\<rparr>)
   \<and> callerNetwork
       \<lparr>store =
          [\<lparr>layers = [1, 1], weights = [\<lparr>cols = 1, vals = [Fin (1 / 2)]\<rparr>],
            biases = [\<lparr>cols = 1, vals = [Fin (1 / 2)]\<rparr>]\<rparr>,
           \<lparr>layers = [1, 1], weights = [\<lparr>cols = 1, vals = [Fin 0]\<rparr>],
            biases = [\<lparr>cols = 1, vals = [Fin 0]\<rparr>]\<rparr>],
        networkRef = 1, bestNetworkRef = 1, bestCost = NaN, bestBefore = 1,
        curEta = Fin 1, iter = 1\<rparr>
     = \<lparr>layers = [1, 1], weights = [\<lparr>cols = 1, vals = [Fin (1 / 2)]\<rparr>],
        biases = [\<lparr>cols = 1, vals = [Fin (1 / 2)]\<rparr>]\<rparr>
   \<and> snapshot
       \<lparr>store =
          [\<lparr>layers = [1, 1], weights = [\<lparr>cols = 1, vals = [Fin (1 / 2)]\<rparr>],
            biases = [\<lparr>cols = 1, vals = [Fin (1 / 2)]\<rparr>]\<rparr>,
           \<lparr>layers = [1, 1], weights = [\<lparr>cols = 1, vals = [Fin 0]\<rparr>],
            biases = [\<lparr>cols = 1, vals = [Fin 0]\<rparr>]\<rparr>],
        networkRef = 1, bestNetworkRef = 1, bestCost = NaN, bestBefore = 1,
        curEta = Fin 1, iter = 1\<rparr>
     = \<lparr>layers = [1, 1], weights = [\<lparr>cols = 1, vals = [Fin 0]\<rparr>],
        biases = [\<lparr>cols = 1, vals = [Fin 0]\<rparr>]\<rparr>
   \<and> updateMiniBatch
       \<lparr>layers = [1, 1], weights = [\<lparr>cols = 1, vals = [Fin 0]\<rparr>],
        biases = [\<lparr>cols = 1, vals = [Fin 0]\<rparr>]\<rparr>
       [\<lparr>Values = \<lparr>cols = 1, vals = [Fin 1]\<rparr>, Label = Fin 0, Distinct = 1\<rparr>]
       (Fin 1) (Fin 0) 1
     = Inr \<lparr>layers = [1, 1], weights = [\<lparr>cols = 1, vals = [Fin (1 / 2)]\<rparr>],
            biases = [\<lparr>cols = 1, vals = [Fin (1 / 2)]\<rparr>]\<rparr>"
  by (simp add: run_defs callerNetwork_def snapshot_def numeral_2_eq_2)

text \<open>
  C6, as stated: on the decay path \<open>eta\<close> is halved exactly when \<open>eta*etaFraction\<close>
  exceeds the initial \<open>eta\<close>. With \<open>eta = -1\<close> and \<open>etaFraction = -1\<close>, as \<open>Train\<close> may be
  called, the product \<open>1\<close> exceeds the initial \<open>eta = -1\<close> when the counter reaches the
  patience window 5, and the loop stops: the code also asks for \<open>etaFraction > 0\<close>.
\<close>

theorem C6_negative_fraction_counterexample:
  "fgt (fmul (Fin (- 1)) (Fin (- 1))) (Fin (- 1))
   \<and> Train_head True 5 (Fin (- 1)) (Fin (- 1))
       \<lparr>store = [\<lparr>layers = [], weights = [], biases = []\<rparr>,
                 \<lparr>layers = [], weights = [], biases = []\<rparr>],
        networkRef = 0, bestNetworkRef = 1, bestCost = Fin 1,
        bestBefore = 5, curEta = Fin (- 1), iter = 5\<rparr>
     = Break
       \<lparr>store = [\<lparr>layers = [], weights = [], biases = []\<rparr>,
                 \<lparr>layers = [], weights = [], biases = []\<rparr>],
        networkRef = 1, bestNetworkRef = 1, bestCost = Fin 1,
        bestBefore = 5, curEta = Fin (- 1), iter = 5\<rparr>"
  by (simp add: Train_head_def fgt_def round64_simps)

text \<open>
  C6, amended. In best-of-N mode, at a test of the loop head where the counter has
  reached the patience window: when \<open>etaFraction > 0\<close> and \<open>eta*etaFraction\<close> exceeds
  \<open>oldEta\<close>, the loop goes on with the body run on the same store and the same
  \<open>network\<close>, the counter reset and \<open>eta\<close> halved; otherwise it stops. \<open>oldEta\<close> is the
  argument that \<open>Train\<close> passes to the loop, its own \<open>eta\<close> as it was called, and no
  iteration changes it.
\<close>

theorem C6_decay_or_stop:
  assumes "epochs \<le> bestBefore s"
  shows
    "(fgt etaFraction (Fin 0) \<and> fgt (fmul (curEta s) etaFraction) oldEta \<longrightarrow>
        Train_loop (Suc fuel) True epochs etaFraction oldEta inputs miniBatchSize lmbda testData
          perms s
        = (case Train_body True inputs miniBatchSize lmbda testData (perms (iter s))
                  (s\<lparr>bestBefore := 0, curEta := fdiv (curEta s) (Fin 2)\<rparr>) of
             Inl p \<Rightarrow> Some (Inl p)
           | Inr s'' \<Rightarrow>
               Train_loop fuel True epochs etaFraction oldEta inputs miniBatchSize lmbda testData
                 perms s''))
     \<and> (\<not> (fgt etaFraction (Fin 0) \<and> fgt (fmul (curEta s) etaFraction) oldEta) \<longrightarrow>
          (\<exists>s'. Train_loop (Suc fuel) True epochs etaFraction oldEta inputs miniBatchSize lmbda
                  testData perms s = Some (Inr s')))"
  using assms by (simp add: Train_head_def)

theorem C6_decay_or_stop_witness:
  "(5 :: int) \<le> bestBefore
       \<lparr>store = [\<lparr>layers = [], weights = [], biases = []\<rparr>,
                 \<lparr>layers = [], weights = [], biases = []\<rparr>],
        networkRef = 0, bestNetworkRef = 1, bestCost = Fin 1,
        bestBefore = 5, curEta = Fin 1, iter = 7\<rparr>
   \<and> fgt (Fin 4) (Fin 0) \<and> fgt (fmul (Fin 1) (Fin 4)) (Fin 1)
   \<and> Train_loop (Suc 0) True 5 (Fin 4) (Fin 1) [] 1 (Fin 0) [] (\<lambda>i. [])
       \<lparr>store = [\<lparr>layers = [], weights = [], biases = []\<rparr>,
                 \<lparr>layers = [], weights = [], biases = []\<rparr>],
        networkRef = 0, bestNetworkRef = 1, bestCost = Fin 1,
        bestBefore = 5, curEta = Fin 1, iter = 7\<rparr>
     = (case Train_body True [] 1 (Fin 0) [] []
              \<lparr>store = [\<lparr>layers = [], weights = [], biases = []\<rparr>,
                        \<lparr>layers = [], weights = [], biases = []\<rparr>],
               networkRef = 0, bestNetworkRef = 1, bestCost = Fin 1,
               bestBefore = 0, curEta = Fin (1 / 2), iter = 7\<rparr> of
          Inl p \<Rightarrow> Some (Inl p)
        | Inr s'' \<Rightarrow> Train_loop 0 True 5 (Fin 4) (Fin 1) [] 1 (Fin 0) [] (\<lambda>i. []) s'')
   \<and> (\<exists>s'. Train_loop (Suc 0) True 5 (Fin 0) (Fin 1) [] 1 (Fin 0) [] (\<lambda>i. [])
       \<lparr>store = [\<lparr>layers = [], weights = [], biases = []\<rparr>,
                 \<lparr>layers = [], weights = [], biases = []\<rparr>],
        networkRef = 0, bestNetworkRef = 1, bestCost = Fin 1,
        bestBefore = 5, curEta = Fin 1, iter = 7\<rparr> = Some (Inr s'))"
proof -
  let ?s = "\<lparr>store = [\<lparr>layers = [], weights = [], biases = []\<rparr>,
                     \<lparr>layers = [], weights = [], biases = []\<rparr>],
            networkRef = 0, bestNetworkRef = 1, bestCost = Fin 1,
            bestBefore = 5, curEta = Fin 1, iter = 7\<rparr>"
  have h: "(5 :: int) \<le> bestBefore ?s" by simp
  have c: "fgt (Fin 4) (Fin 0) \<and> fgt (fmul (curEta ?s) (Fin 4)) (Fin 1)"
    by (simp add: fgt_def round64_simps)
  have n: "\<not> (fgt (Fin 0) (Fin 0) \<and> fgt (fmul (curEta ?s) (Fin 0)) (Fin 1))"
    by (simp add: fgt_def round64_simps)
  from C6_decay_or_stop [OF h, of "Fin 4" "Fin 1" 0 "[]" 1 "Fin 0" "[]" "\<lambda>i. []"] c
  have cont: "Train_loop (Suc 0) True 5 (Fin 4) (Fin 1) [] 1 (Fin 0) [] (\<lambda>i. []) ?s
     = (case Train_body True [] 1 (Fin 0) [] []
              (?s\<lparr>bestBefore := 0, curEta := fdiv (curEta ?s) (Fin 2)\<rparr>) of
          Inl p \<Rightarrow> Some (Inl p)
        | Inr s'' \<Rightarrow> Train_loop 0 True 5 (Fin 4) (Fin 1) [] 1 (Fin 0) [] (\<lambda>i. []) s'')"
    by blast
  from C6_decay_or_stop [OF h, of "Fin 0" "Fin 1" 0 "[]" 1 "Fin 0" "[]" "\<lambda>i. []"] n
  have stop: "\<exists>s'. Train_loop (Suc 0) True 5 (Fin 0) (Fin 1) [] 1 (Fin 0) [] (\<lambda>i. []) ?s
     = Some (Inr s')"
    by blast
  from cont have cont': "Train_loop (Suc 0) True 5 (Fin 4) (Fin 1) [] 1 (Fin 0) [] (\<lambda>i. []) ?s
     = (case Train_body True [] 1 (Fin 0) [] []
              \<lparr>store = [\<lparr>layers = [], weights = [], biases = []\<rparr>,
                        \<lparr>layers = [], weights = [], biases = []\<rparr>],
               networkRef = 0, bestNetworkRef = 1, bestCost = Fin 1,
               bestBefore = 0, curEta = Fin (1 / 2), iter = 7\<rparr> of
          Inl p \<Rightarrow> Some (Inl p)
        | Inr s'' \<Rightarrow> Train_loop 0 True 5 (Fin 4) (Fin 1) [] 1 (Fin 0) [] (\<lambda>i. []) s'')"
    by (simp add: round64_simps)
  show ?thesis using h c cont' stop by (simp add: round64_simps)
qed

section \<open>Calls that return\<close>

text \<open>
  On a well-formed network and items that fit it no operation panics: every index is
  within its slice and every pair of operands has matching dimensions.
\<close>

lemma Rows_shape: "shape r c m \<Longrightarrow> Rows m = Inr r"
  by (auto simp: shape_def Rows_def quo_def sgn_if zero_less_mult_iff)

lemma InitMatrix_shape:
  "0 < r \<Longrightarrow> 0 < c \<Longrightarrow>
     InitMatrix r c = Inr \<lparr>cols = c, vals = replicate (nat (r * c)) (Fin 0)\<rparr>
     \<and> shape r c \<lparr>cols = c, vals = replicate (nat (r * c)) (Fin 0)\<rparr>"
  by (simp add: InitMatrix_def make_slice_def shape_def not_less)

lemma Apply_loop_total:
  "k + length xs \<le> length res \<Longrightarrow>
     Apply_loop f xs (int k) res = Inr (take k res @ map f xs @ drop (k + length xs) res)"
proof (induction xs arbitrary: k res)
  case Nil
  then show ?case by simp
next
  case (Cons x xs)
  then have k: "k < length res" by simp
  with Cons.prems have "Suc k + length xs \<le> length (res[k := f x])" by simp
  from Cons.IH [OF this] k show ?case
    by (simp add: assign_def add.commute take_Suc_conv_app_nth)
qed

lemma Apply_total:
  assumes "shape r c m"
  shows "Apply m f = Inr \<lparr>cols = c, vals = map f (vals m)\<rparr>"
    and "shape r c \<lparr>cols = c, vals = map f (vals m)\<rparr>"
proof -
  from assms have pos: "0 < r" "0 < c" and c: "cols m = c"
    and l: "int (length (vals m)) = r * c" by (auto simp: shape_def)
  from l have l': "length (vals m) = nat (r * c)" by simp
  from Apply_loop_total [of 0 "vals m" "replicate (nat (r * c)) (Fin 0)" f] l'
  have "Apply_loop f (vals m) 0 (replicate (nat (r * c)) (Fin 0)) = Inr (map f (vals m))"
    by simp
  with Rows_shape [OF assms] InitMatrix_shape [OF pos] c
  show "Apply m f = Inr \<lparr>cols = c, vals = map f (vals m)\<rparr>"
    by (simp add: Apply_def Cols_def)
  from assms show "shape r c \<lparr>cols = c, vals = map f (vals m)\<rparr>" by (simp add: shape_def)
qed

lemma operate_loop_total:
  "k + length xs \<le> length res \<Longrightarrow> k + length xs \<le> length ns \<Longrightarrow>
     operate_loop f xs ns (int k) res
       = Inr (take k res @ map2 f xs (drop k ns) @ drop (k + length xs) res)"
proof (induction xs arbitrary: k res)
  case Nil
  then show ?case by simp
next
  case (Cons x xs)
  then have k: "k < length res" "k < length ns" by simp_all
  with Cons.prems have "Suc k + length xs \<le> length (res[k := f x (ns ! k)])"
    "Suc k + length xs \<le> length ns" by simp_all
  from Cons.IH [OF this] k show ?case
    by (simp add: assign_def index_def add.commute take_Suc_conv_app_nth Cons_nth_drop_Suc [symmetric])
qed

lemma operate_total:
  assumes "shape r c m" and "shape r c n"
  shows "operate m n f = Inr (\<lparr>cols = c, vals = map2 f (vals m) (vals n)\<rparr>, None)"
    and "shape r c \<lparr>cols = c, vals = map2 f (vals m) (vals n)\<rparr>"
proof -
  from assms have pos: "0 < r" "0 < c" and c: "cols m = c" "cols n = c"
    and l: "int (length (vals m)) = r * c" "int (length (vals n)) = r * c"
    by (auto simp: shape_def)
  from l have l': "length (vals m) = nat (r * c)" "length (vals n) = nat (r * c)" by simp_all
  from operate_loop_total [of 0 "vals m" "replicate (nat (r * c)) (Fin 0)" "vals n" f] l'
  have "operate_loop f (vals m) (vals n) 0 (replicate (nat (r * c)) (Fin 0))
          = Inr (map2 f (vals m) (vals n))"
    by simp
  with Rows_shape [OF assms(1)] Rows_shape [OF assms(2)] InitMatrix_shape [OF pos] c
  show "operate m n f = Inr (\<lparr>cols = c, vals = map2 f (vals m) (vals n)\<rparr>, None)"
    by (simp add: operate_def Cols_def)
  from l' pos c show "shape r c \<lparr>cols = c, vals = map2 f (vals m) (vals n)\<rparr>"
    by (simp add: shape_def)
qed

lemma for_loop_invariant:
  assumes "P s"
    and "\<And>i s. i \<in> set is \<Longrightarrow> P s \<Longrightarrow> \<exists>s'. body i s = Inr s' \<and> P s'"
  shows "\<exists>s'. for_loop is s body = Inr s' \<and> P s'"
  using assms
proof (induction "is" arbitrary: s)
  case Nil
  then show ?case by simp
next
  case (Cons i "is")
  from Cons.prems(2) [of i s] Cons.prems(1) obtain s1 where s1: "body i s = Inr s1" "P s1"
    by auto
  from Cons.IH [OF s1(2)] Cons.prems(2) obtain s' where "for_loop is s1 body = Inr s'" "P s'"
    by auto
  with s1 show ?case by simp
qed

lemma cell_bound:
  fixes i j r c :: int
  assumes "0 \<le> i" "i < r" "0 \<le> j" "j < c"
  shows "0 \<le> i * c + j" and "i * c + j < r * c"
proof -
  from assms show "0 \<le> i * c + j" by simp
  from assms have "(i + 1) * c \<le> r * c" by (intro mult_right_mono) simp_all
  with assms show "i * c + j < r * c" by (simp add: algebra_simps)
qed

lemma at_m_shape:
  "shape r c m \<Longrightarrow> 0 \<le> i \<Longrightarrow> i < r \<Longrightarrow> 0 \<le> j \<Longrightarrow> j < c \<Longrightarrow> \<exists>v. at_m m i j = Inr v"
  using cell_bound [of i r j c] by (simp add: at_m_def index_def shape_def Cols_def)

lemma set_m_shape:
  "shape r c m \<Longrightarrow> 0 \<le> i \<Longrightarrow> i < r \<Longrightarrow> 0 \<le> j \<Longrightarrow> j < c \<Longrightarrow>
     \<exists>m'. set_m m i j v = Inr m' \<and> shape r c m'"
  using cell_bound [of i r j c] by (simp add: set_m_def assign_def shape_def Cols_def)


lemma Dot_cell_total:
  assumes "shape r k m" and "shape k c n" and "0 \<le> i" "i < r" "0 \<le> j" "j < c"
  shows "\<exists>v. Dot_cell m n i j = Inr v"
proof -
  have "\<exists>s'. for_loop [0 .. Cols m - 1] (Fin 0) (\<lambda>counter sum.
       andThen (at_m m i counter) (\<lambda>a.
       andThen (at_m n counter j) (\<lambda>b.
         Inr (fadd sum (fmul a b))))) = Inr s' \<and> True"
  proof (rule for_loop_invariant)
    fix counter s assume "counter \<in> set [0 .. Cols m - 1]"
    with assms(1) have cnt: "0 \<le> counter" "counter < k" by (auto simp: Cols_def shape_def)
    from at_m_shape [OF assms(1) assms(3,4) cnt] obtain a where "at_m m i counter = Inr a" ..
    moreover from at_m_shape [OF assms(2) cnt assms(5,6)] obtain b
      where "at_m n counter j = Inr b" ..
    ultimately show "\<exists>s'. andThen (at_m m i counter) (\<lambda>a.
       andThen (at_m n counter j) (\<lambda>b. Inr (fadd s (fmul a b)))) = Inr s' \<and> True"
      by simp
  qed simp
  then show ?thesis by (simp add: Dot_cell_def)
qed

lemma Dot_total:
  assumes "shape r k m" and "shape k c n"
  shows "\<exists>res. Dot m n = Inr (res, None) \<and> shape r c res"
proof -
  from assms have pos: "0 < r" "0 < c" and km: "Cols m = k"
    by (auto simp: shape_def Cols_def)
  let ?res0 = "\<lparr>cols = c, vals = replicate (nat (r * c)) (Fin 0)\<rparr>"
  note init = InitMatrix_shape [OF pos]
  have "\<exists>res. for_loop [0 .. r - 1] ?res0 (\<lambda>i result1.
              for_loop [0 .. Cols result1 - 1] result1 (\<lambda>j result.
                andThen (Dot_cell m n i j) (\<lambda>sum. set_m result i j sum))) = Inr res
          \<and> shape r c res"
  proof (rule for_loop_invariant)
    show "shape r c ?res0" using init by simp
  next
    fix i result1 assume i: "i \<in> set [0 .. r - 1]" and sh: "shape r c result1"
    then have ir: "0 \<le> i" "i < r" by auto
    from sh have cr: "Cols result1 = c" by (simp add: shape_def Cols_def)
    have "\<exists>res. for_loop [0 .. c - 1] result1 (\<lambda>j result.
                andThen (Dot_cell m n i j) (\<lambda>sum. set_m result i j sum)) = Inr res
          \<and> shape r c res"
    proof (rule for_loop_invariant)
      show "shape r c result1" by (rule sh)
    next
      fix j result assume j: "j \<in> set [0 .. c - 1]" and shr: "shape r c result"
      then have jc: "0 \<le> j" "j < c" by auto
      from Dot_cell_total [OF assms ir jc] obtain v where v: "Dot_cell m n i j = Inr v" ..
      from set_m_shape [OF shr ir jc, of v] v
      show "\<exists>s'. andThen (Dot_cell m n i j) (\<lambda>sum. set_m result i j sum) = Inr s'
                 \<and> shape r c s'"
        by simp
    qed
    with cr show "\<exists>s'. for_loop [0 .. Cols result1 - 1] result1 (\<lambda>j result.
                andThen (Dot_cell m n i j) (\<lambda>sum. set_m result i j sum)) = Inr s'
          \<and> shape r c s'"
      by simp
  qed
  then obtain res where loop: "for_loop [0 .. r - 1] ?res0 (\<lambda>i result1.
              for_loop [0 .. Cols result1 - 1] result1 (\<lambda>j result.
                andThen (Dot_cell m n i j) (\<lambda>sum. set_m result i j sum))) = Inr res"
    and res: "shape r c res" by blast
  have r0: "Rows ?res0 = Inr r" by (rule Rows_shape [OF init [THEN conjunct2]])
  from Rows_shape [OF assms(1)] Rows_shape [OF assms(2)] km init r0 loop
  have "Dot m n = Inr (res, None)"
    using assms(2) by (simp add: Dot_def shape_def Cols_def)
  with res show ?thesis by blast
qed

lemma Transpose_total:
  assumes "shape r c m"
  shows "\<exists>res. Transpose m = Inr res \<and> shape c r res"
proof -
  from assms have pos: "0 < c" "0 < r" and cm: "Cols m = c"
    by (auto simp: shape_def Cols_def)
  let ?res0 = "\<lparr>cols = r, vals = replicate (nat (c * r)) (Fin 0)\<rparr>"
  note init = InitMatrix_shape [OF pos]
  have "\<exists>res. for_loop [0 .. r - 1] ?res0 (\<lambda>i result1.
         for_loop [0 .. Cols m - 1] result1 (\<lambda>j result.
           andThen (at_m m i j) (\<lambda>val. set_m result j i val))) = Inr res
          \<and> shape c r res"
  proof (rule for_loop_invariant)
    show "shape c r ?res0" using init by simp
  next
    fix i result1 assume i: "i \<in> set [0 .. r - 1]" and sh: "shape c r result1"
    then have ir: "0 \<le> i" "i < r" by auto
    show "\<exists>s'. for_loop [0 .. Cols m - 1] result1 (\<lambda>j result.
           andThen (at_m m i j) (\<lambda>val. set_m result j i val)) = Inr s' \<and> shape c r s'"
    proof (rule for_loop_invariant)
      show "shape c r result1" by (rule sh)
    next
      fix j result assume j: "j \<in> set [0 .. Cols m - 1]" and shr: "shape c r result"
      with cm have jc: "0 \<le> j" "j < c" by auto
      from at_m_shape [OF assms ir jc] obtain v where v: "at_m m i j = Inr v" ..
      from set_m_shape [OF shr jc ir, of v] v
      show "\<exists>s'. andThen (at_m m i j) (\<lambda>val. set_m result j i val) = Inr s' \<and> shape c r s'"
        by simp
    qed
  qed
  then obtain res where loop: "for_loop [0 .. r - 1] ?res0 (\<lambda>i result1.
         for_loop [0 .. Cols m - 1] result1 (\<lambda>j result.
           andThen (at_m m i j) (\<lambda>val. set_m result j i val))) = Inr res"
    and res: "shape c r res" by blast
  from Rows_shape [OF assms] cm init loop have "Transpose m = Inr res"
    by (simp add: Transpose_def)
  with res show ?thesis by blast
qed

lemma Sigmoid_total:
  assumes "shape r c m"
  shows "\<exists>res. Sigmoid m = Inr res \<and> shape r c res"
proof -
  note a = Apply_total [OF assms, of Negate]
  note b = Apply_total [OF a(2), of fexp]
  note c = Apply_total [OF b(2), of OnePlus]
  note d = Apply_total [OF c(2), of Invert]
  from a(1) b(1) c(1) d show ?thesis by (simp add: Sigmoid_def)
qed

lemma SigmoidPrime_total:
  assumes "shape r c m"
  shows "\<exists>res. SigmoidPrime m = Inr res \<and> shape r c res"
proof -
  from Sigmoid_total [OF assms] obtain s where s: "Sigmoid m = Inr s" "shape r c s" by blast
  note t = Apply_total [OF s(2), of OneMinus]
  note u = operate_total [OF s(2) t(2), of "\<lambda>x y. fmul x y"]
  from s t(1) u show ?thesis by (simp add: SigmoidPrime_def Mult_def must_def)
qed

lemma OneHotMatrix_total:
  assumes "0 < c" "0 \<le> k" "k < c"
  shows "\<exists>y. OneHotMatrix 1 c 0 k = Inr (y, None) \<and> shape 1 c y"
proof -
  have one: "(0 :: int) < 1" by simp
  note init = InitMatrix_shape [OF one assms(1)]
  let ?m = "\<lparr>cols = c, vals = replicate (nat (1 * c)) (Fin 0)\<rparr>"
  from init have sh: "shape 1 c ?m" by simp
  from set_m_shape [OF sh _ one assms(2,3), of "Fin 1"] obtain y
    where y: "set_m ?m 0 k (Fin 1) = Inr y" "shape 1 c y" by auto
  from init Rows_shape [OF sh] y assms show ?thesis
    by (simp add: OneHotMatrix_def Set_def checkRowCol_def Cols_def)
qed


lemma wellFormedNN_nth:
  assumes "wellFormedNN network" and "i < length (weights network)"
  shows "shape (layers network ! i) (layers network ! Suc i) (weights network ! i)"
    and "shape 1 (layers network ! Suc i) (biases network ! i)"
  using assms by (auto simp: wellFormedNN_def list_all_iff)

lemma backprop_forward_total:
  assumes wf: "wellFormedNN network"
  shows "k \<le> length (weights network) \<Longrightarrow> shape 1 (layers network ! k) a \<Longrightarrow>
     length acts = Suc k \<Longrightarrow> length zs = k \<Longrightarrow>
     (\<forall>j \<le> k. shape 1 (layers network ! j) (acts ! j)) \<Longrightarrow>
     (\<forall>j < k. shape 1 (layers network ! Suc j) (zs ! j)) \<Longrightarrow>
     \<exists>acts' zs'.
        backprop_forward network (drop k (weights network)) (int k) a acts zs = Inr (acts', zs')
      \<and> length acts' = Suc (length (weights network)) \<and> length zs' = length (weights network)
      \<and> (\<forall>j \<le> length (weights network). shape 1 (layers network ! j) (acts' ! j))
      \<and> (\<forall>j < length (weights network). shape 1 (layers network ! Suc j) (zs' ! j))"
proof (induction "length (weights network) - k" arbitrary: k a acts zs)
  case 0
  then have "drop k (weights network) = []" "k = length (weights network)" by simp_all
  with 0 show ?case by simp
next
  case (Suc d)
  then have k: "k < length (weights network)" by simp
  then have dr: "drop k (weights network) = weights network ! k # drop (Suc k) (weights network)"
    by (simp add: Cons_nth_drop_Suc)
  from wf k have kb: "k < length (biases network)" by (simp add: wellFormedNN_def)
  note w = wellFormedNN_nth [OF wf k]
  from Dot_total [OF Suc.prems(2) w(1)] obtain multiplied
    where m: "Dot a (weights network ! k) = Inr (multiplied, None)"
      and ms: "shape 1 (layers network ! Suc k) multiplied" by blast
  note add = operate_total [OF ms w(2), of "\<lambda>x y. fadd x y"]
  let ?z = "\<lparr>cols = layers network ! Suc k,
             vals = map2 fadd (vals multiplied) (vals (biases network ! k))\<rparr>"
  from Sigmoid_total [OF add(2)] obtain a' where a': "Sigmoid ?z = Inr a'"
    and as: "shape 1 (layers network ! Suc k) a'" by blast
  have "Suc k \<le> length (weights network)" using k by simp
  moreover have "length (acts @ [a']) = Suc (Suc k)" using Suc.prems(3) by simp
  moreover have "length (zs @ [?z]) = Suc k" using Suc.prems(4) by simp
  moreover have "\<forall>j \<le> Suc k. shape 1 (layers network ! j) ((acts @ [a']) ! j)"
    using Suc.prems(3,5) as by (auto simp: nth_append le_Suc_eq)
  moreover have "\<forall>j < Suc k. shape 1 (layers network ! Suc j) ((zs @ [?z]) ! j)"
    using Suc.prems(4,6) add(2) by (auto simp: nth_append less_Suc_eq)
  moreover have "d = length (weights network) - Suc k" using Suc.hyps(2) by simp
  ultimately obtain acts' zs' where
    "backprop_forward network (drop (Suc k) (weights network)) (int (Suc k)) a'
       (acts @ [a']) (zs @ [?z]) = Inr (acts', zs')"
    "length acts' = Suc (length (weights network))" "length zs' = length (weights network)"
    "\<forall>j \<le> length (weights network). shape 1 (layers network ! j) (acts' ! j)"
    "\<forall>j < length (weights network). shape 1 (layers network ! Suc j) (zs' ! j)"
    using Suc.hyps(1) [of "Suc k" a' "acts @ [a']" "zs @ [?z]"] as by blast
  with m add(1) a' kb show ?case
    by (simp add: dr index_def must_def Add_def add.commute)
qed


lemma for_loop_upto_invariant:
  assumes "I a s" and "a \<le> b + 1"
    and "\<And>i s. a \<le> i \<Longrightarrow> i \<le> b \<Longrightarrow> I i s \<Longrightarrow> \<exists>s'. body i s = Inr s' \<and> I (i + 1) s'"
  shows "\<exists>s'. for_loop [a .. b] s body = Inr s' \<and> I (b + 1) s'"
  using assms
proof (induction "nat (b + 1 - a)" arbitrary: a s)
  case 0
  then have "a = b + 1" by simp
  with 0 show ?case by simp
next
  case (Suc d)
  then have ab: "a \<le> b" by simp
  then have up: "[a .. b] = a # [a + 1 .. b]" by (simp add: upto.simps)
  from Suc.prems(3) [of a s] ab Suc.prems(1) obtain s1
    where s1: "body a s = Inr s1" "I (a + 1) s1" by auto
  have "d = nat (b + 1 - (a + 1))" using Suc.hyps(2) by simp
  moreover have "a + 1 \<le> b + 1" using ab by simp
  moreover have "\<exists>s'. body i s = Inr s' \<and> I (i + 1) s'"
    if "a + 1 \<le> i" "i \<le> b" "I i s" for i s
    using Suc.prems(3) [of i s] that by simp
  ultimately obtain s' where "for_loop [a + 1 .. b] s1 body = Inr s'" "I (b + 1) s'"
    using Suc.hyps(1) [of "a + 1" s1] s1(2) by blast
  with s1 up show ?case by simp
qed

lemma gradientsShaped_iff:
  assumes "wellFormedNN network"
  shows "gradientsShaped network nw nb \<longleftrightarrow>
     length nw = length (weights network) \<and> length nb = length (weights network)
     \<and> (\<forall>i < length (weights network).
          shape (layers network ! i) (layers network ! Suc i) (nw ! i)
          \<and> shape 1 (layers network ! Suc i) (nb ! i))"
  using assms by (auto simp: gradientsShaped_def wellFormedNN_def list_all_iff)

lemma gradientsShaped_update:
  assumes wf: "wellFormedNN network" and g: "gradientsShaped network nw nb"
    and q: "q < length (weights network)"
    and w: "shape (layers network ! q) (layers network ! Suc q) gw"
    and b: "shape 1 (layers network ! Suc q) gb"
  shows "gradientsShaped network (nw[q := gw]) (nb[q := gb])"
  using g q w b unfolding gradientsShaped_iff [OF wf]
  by (auto simp: nth_list_update)

lemma backprop_back_total:
  assumes wf: "wellFormedNN network"
    and la: "length acts = Suc (length (weights network))"
    and lz: "length zs = length (weights network)"
    and sa: "\<forall>j \<le> length (weights network). shape 1 (layers network ! j) (acts ! j)"
    and sz: "\<forall>j < length (weights network). shape 1 (layers network ! Suc j) (zs ! j)"
    and l: "2 \<le> l" "l \<le> int (length (weights network))"
    and d: "shape 1 (layers network ! nat (int (length (weights network)) - l + 2)) delta"
    and g: "gradientsShaped network nw nb"
  shows "\<exists>delta' nw' nb'.
       backprop_back network acts zs l (delta, nw, nb) = Inr (delta', nw', nb')
     \<and> shape 1 (layers network ! nat (int (length (weights network)) - (l + 1) + 2)) delta'
     \<and> gradientsShaped network nw' nb'"
proof -
  let ?W = "length (weights network)"
  define q where "q = nat (int ?W - l)"
  from l have q: "Suc q < ?W" and ql: "int q = int ?W - l" by (auto simp: q_def)
  from g have lg: "length nw = ?W" "length nb = ?W"
    by (simp_all add: gradientsShaped_iff [OF wf])
  have e1: "len zs - l = int q" "len acts - l - 1 = int q" "len nb - l = int q"
    "len nw - l = int q" "len (weights network) - l + 1 = int (Suc q)"
    using ql la lz lg by (simp_all add: len_def)
  have idx1: "index zs (len zs - l) = Inr (zs ! q)"
    unfolding e1 using q lz by (simp add: index_def)
  have idx2: "index (weights network) (len (weights network) - l + 1)
                = Inr (weights network ! Suc q)"
    unfolding e1 using q by (simp add: index_def del: of_nat_Suc)
  have idx3: "index acts (len acts - l - 1) = Inr (acts ! q)"
    unfolding e1 using q la by (simp add: index_def)
  have as1: "assign nb (len nb - l) x = Inr (nb[q := x])" for x
    unfolding e1 using q lg by (simp add: assign_def)
  have as2: "assign nw (len nw - l) x = Inr (nw[q := x])" for x
    unfolding e1 using q lg by (simp add: assign_def)
  from ql have n1: "nat (int ?W - l + 2) = Suc (Suc q)" "nat (int ?W - (l + 1) + 2) = Suc q"
    by simp_all
  from q have qW: "q < ?W" by simp
  from sz qW have zq: "shape 1 (layers network ! Suc q) (zs ! q)" by simp
  from SigmoidPrime_total [OF zq] obtain sp where sp: "SigmoidPrime (zs ! q) = Inr sp"
    and sps: "shape 1 (layers network ! Suc q) sp" by blast
  note w = wellFormedNN_nth(1) [OF wf q]
  from Transpose_total [OF w] obtain wt where wt: "Transpose (weights network ! Suc q) = Inr wt"
    and wts: "shape (layers network ! Suc (Suc q)) (layers network ! Suc q) wt" by blast
  from d have d': "shape 1 (layers network ! Suc (Suc q)) delta" by (simp add: n1)
  from Dot_total [OF d' wts] obtain dotted where dotted: "Dot delta wt = Inr (dotted, None)"
    and ds: "shape 1 (layers network ! Suc q) dotted" by blast
  note mult = operate_total [OF ds sps, of "\<lambda>x y. fmul x y"]
  let ?delta' = "\<lparr>cols = layers network ! Suc q, vals = map2 fmul (vals dotted) (vals sp)\<rparr>"
  from sa qW have aq: "shape 1 (layers network ! q) (acts ! q)" by simp
  from Transpose_total [OF aq] obtain aT where aT: "Transpose (acts ! q) = Inr aT"
    and aTs: "shape (layers network ! q) 1 aT" by blast
  from Dot_total [OF aTs mult(2)] obtain gw where gw: "Dot aT ?delta' = Inr (gw, None)"
    and gws: "shape (layers network ! q) (layers network ! Suc q) gw" by blast
  note g' = gradientsShaped_update [OF wf g qW gws mult(2)]
  from sp wt dotted mult(1) aT gw
  have bb: "backprop_back network acts zs l (delta, nw, nb)
          = Inr (?delta', nw[q := gw], nb[q := ?delta'])"
    by (simp add: backprop_back_def idx1 idx2 idx3 as1 as2 must_def check_def Mult_def)
  show ?thesis unfolding n1 using bb mult(2) g' by blast
qed


lemma zeroLike_total:
  "list_all (\<lambda>m. \<exists>r c. shape r c m) ms \<Longrightarrow>
     zeroLike ms
       = Inr (map (\<lambda>m. \<lparr>cols = cols m, vals = replicate (length (vals m)) (Fin 0)\<rparr>) ms)"
proof (induction ms)
  case Nil
  then show ?case by simp
next
  case (Cons m ms)
  then obtain r c where sh: "shape r c m" by auto
  then have pos: "0 < r" "0 < c" and c: "cols m = c" and l: "nat (r * c) = length (vals m)"
    by (auto simp: shape_def)
  from Rows_shape [OF sh] InitMatrix_shape [OF pos] c l Cons show ?case
    by (simp add: Cols_def)
qed

lemma zeroLike_shaped:
  assumes wf: "wellFormedNN network"
  shows "\<exists>nw nb. zeroLike (weights network) = Inr nw \<and> zeroLike (biases network) = Inr nb
           \<and> gradientsShaped network nw nb"
proof -
  let ?z = "\<lambda>m. \<lparr>cols = cols m, vals = replicate (length (vals m)) (Fin 0)\<rparr>"
  have w: "list_all (\<lambda>m. \<exists>r c. shape r c m) (weights network)"
    unfolding list_all_length using wellFormedNN_nth(1) [OF wf] by blast
  have b: "list_all (\<lambda>m. \<exists>r c. shape r c m) (biases network)"
    unfolding list_all_length using wellFormedNN_nth(2) [OF wf] wf
    by (auto simp: wellFormedNN_def)
  have "gradientsShaped network (map ?z (weights network)) (map ?z (biases network))"
    unfolding gradientsShaped_iff [OF wf]
    using wellFormedNN_nth [OF wf] wf by (auto simp: wellFormedNN_def shape_def)
  with zeroLike_total [OF w] zeroLike_total [OF b] show ?thesis by blast
qed

lemma backprop_total:
  assumes wf: "wellFormedNN network" and wi: "wellFormedItem network item"
  shows "\<exists>nablaW nablaB. backprop network item = Inr (nablaW, nablaB)
           \<and> gradientsShaped network nablaW nablaB"
proof -
  let ?W = "length (weights network)"
  from wf have W: "0 < ?W" and L: "length (layers network) = Suc ?W"
    and lb: "length (biases network) = ?W"
    by (auto simp: wellFormedNN_def)
  from zeroLike_shaped [OF wf] obtain nw0 nb0
    where nw0: "zeroLike (weights network) = Inr nw0"
      and nb0: "zeroLike (biases network) = Inr nb0"
      and g0: "gradientsShaped network nw0 nb0" by blast
  from g0 have l0: "length nw0 = ?W" "length nb0 = ?W"
    by (simp_all add: gradientsShaped_iff [OF wf])
  from wi have v: "shape 1 (layers network ! 0) (Values item)"
    by (simp add: wellFormedItem_def)
  from backprop_forward_total [OF wf, of 0 "Values item" "[Values item]" "[]"] v
  obtain acts zs
    where fw: "backprop_forward network (weights network) 0 (Values item) [Values item] []
                 = Inr (acts, zs)"
      and la: "length acts = Suc ?W" and lz: "length zs = ?W"
      and sa: "\<forall>j \<le> ?W. shape 1 (layers network ! j) (acts ! j)"
      and sz: "\<forall>j < ?W. shape 1 (layers network ! Suc j) (zs ! j)"
    by auto
  from L have "layers network \<noteq> []" by auto
  with L have last: "last (layers network) = layers network ! ?W"
    by (simp add: last_conv_nth)
  from sa have aL: "shape 1 (layers network ! ?W) (acts ! ?W)" by simp
  then have posL: "0 < layers network ! ?W" by (simp add: shape_def)
  from wi last have dist: "Distinct item = layers network ! ?W"
    and lab: "0 \<le> int_of_float64 (Label item)" "int_of_float64 (Label item) < layers network ! ?W"
    by (simp_all add: wellFormedItem_def)
  from OneHotMatrix_total [OF posL lab] obtain y
    where y: "OneHotMatrix 1 (Distinct item) 0 (int_of_float64 (Label item)) = Inr (y, None)"
      and ys: "shape 1 (layers network ! ?W) y" by (auto simp: dist)
  note sub = operate_total [OF aL ys, of "\<lambda>x y. fsub x y"]
  let ?delta = "\<lparr>cols = layers network ! ?W, vals = map2 fsub (vals (acts ! ?W)) (vals y)\<rparr>"
  have idxL: "index acts (len acts - 1) = Inr (acts ! ?W)"
    using la by (simp add: index_def len_def)
  have idxP: "index acts (len acts - 2) = Inr (acts ! (?W - 1))"
    using la W by (simp add: index_def len_def nat_len_minus)
  have asB: "assign nb0 (len nb0 - 1) x = Inr (nb0[?W - 1 := x])" for x
    using l0 W by (simp add: assign_def len_def nat_len_minus)
  have asW: "assign nw0 (len nw0 - 1) x = Inr (nw0[?W - 1 := x])" for x
    using l0 W by (simp add: assign_def len_def nat_len_minus)
  from W have q: "?W - 1 < ?W" and Sq: "Suc (?W - 1) = ?W" by simp_all
  from sa have aP: "shape 1 (layers network ! (?W - 1)) (acts ! (?W - 1))" by simp
  from Transpose_total [OF aP] obtain aT where aT: "Transpose (acts ! (?W - 1)) = Inr aT"
    and aTs: "shape (layers network ! (?W - 1)) 1 aT" by blast
  from Dot_total [OF aTs sub(2)] obtain gw where gw: "Dot aT ?delta = Inr (gw, None)"
    and gws: "shape (layers network ! (?W - 1)) (layers network ! ?W) gw" by blast
  from gws have gws': "shape (layers network ! (?W - 1)) (layers network ! Suc (?W - 1)) gw"
    by (simp only: Sq)
  from sub(2) have ds': "shape 1 (layers network ! Suc (?W - 1)) ?delta"
    by (simp only: Sq)
  note g1 = gradientsShaped_update [OF wf g0 q gws' ds']
  let ?I = "\<lambda>l s. case s of (d, nw, nb) \<Rightarrow>
              shape 1 (layers network ! nat (int ?W - l + 2)) d \<and> gradientsShaped network nw nb"
  have "\<exists>s'. for_loop [2 .. int ?W] (?delta, nw0[?W - 1 := gw], nb0[?W - 1 := ?delta])
                (backprop_back network acts zs) = Inr s' \<and> ?I (int ?W + 1) s'"
  proof (rule for_loop_upto_invariant [where I = ?I])
    show "?I 2 (?delta, nw0[?W - 1 := gw], nb0[?W - 1 := ?delta])"
      using sub(2) g1 by simp
    show "2 \<le> int ?W + 1" using W by linarith
  next
    fix l s assume l: "2 \<le> l" "l \<le> int ?W" and I: "?I l s"
    obtain d nw nb where s: "s = (d, nw, nb)" by (cases s)
    with I have d: "shape 1 (layers network ! nat (int ?W - l + 2)) d"
      and g: "gradientsShaped network nw nb" by simp_all
    from backprop_back_total [OF wf la lz sa sz l d g] s
    show "\<exists>s'. backprop_back network acts zs l s = Inr s' \<and> ?I (l + 1) s'"
      by auto
  qed
  then obtain dEnd nablaW nablaB
    where loop: "for_loop [2 .. int ?W] (?delta, nw0[?W - 1 := gw], nb0[?W - 1 := ?delta])
                (backprop_back network acts zs) = Inr (dEnd, nablaW, nablaB)"
      and gE: "gradientsShaped network nablaW nablaB"
    by auto
  have up: "len (layers network) - 1 = int ?W" using L by (simp add: len_def)
  from nw0 nb0 fw y idxL sub(1) aT gw loop
  have "backprop network item = Inr (nablaW, nablaB)"
    by (simp add: backprop_def must_def check_def Sub_def idxP asB asW up)
  with gE show ?thesis by blast
qed


lemma shape_same_dims:
  "shape r c m \<Longrightarrow> cols m' = cols m \<Longrightarrow> length (vals m') = length (vals m) \<Longrightarrow> shape r c m'"
  by (simp add: shape_def)

lemma gradientsShaped_same_dims:
  assumes wf: "wellFormedNN network" and g: "gradientsShaped network nw nb"
    and "length nw' = length nw" and "length nb' = length nb"
    and "\<forall>i < length nw. cols (nw' ! i) = cols (nw ! i)
                          \<and> length (vals (nw' ! i)) = length (vals (nw ! i))"
    and "\<forall>i < length nb. cols (nb' ! i) = cols (nb ! i)
                          \<and> length (vals (nb' ! i)) = length (vals (nb ! i))"
  shows "gradientsShaped network nw' nb'"
  using assms unfolding gradientsShaped_iff [OF wf]
  by (auto intro: shape_same_dims)

lemma accumulate_total:
  "length nablas + k = length cx \<Longrightarrow>
   (\<forall>j < length nablas. \<exists>r c. shape r c (cx ! (k + j)) \<and> shape r c (nablas ! j)) \<Longrightarrow>
     \<exists>cx'. accumulate cx nablas (int k) = Inr cx' \<and> length cx' = length cx
       \<and> (\<forall>i < length cx. cols (cx' ! i) = cols (cx ! i)
                            \<and> length (vals (cx' ! i)) = length (vals (cx ! i)))"
proof (induction nablas arbitrary: k cx)
  case Nil
  then show ?case by simp
next
  case (Cons nabla nablas)
  from Cons.prems(1) have k: "k < length cx" by simp
  from Cons.prems(2) obtain r c where sh: "shape r c (cx ! k)" "shape r c nabla" by force
  note add = operate_total [OF sh, of "\<lambda>x y. fadd x y"]
  let ?s = "\<lparr>cols = c, vals = map2 fadd (vals (cx ! k)) (vals nabla)\<rparr>"
  let ?cx1 = "cx[k := ?s]"
  have "length nablas + Suc k = length ?cx1" using Cons.prems(1) by simp
  moreover have "\<forall>j < length nablas. \<exists>r c. shape r c (?cx1 ! (Suc k + j)) \<and> shape r c (nablas ! j)"
  proof (intro allI impI)
    fix j assume "j < length nablas"
    with Cons.prems(2) have "\<exists>r c. shape r c (cx ! (k + Suc j)) \<and> shape r c ((nabla # nablas) ! Suc j)"
      by (metis Suc_less_eq length_Cons)
    then show "\<exists>r c. shape r c (?cx1 ! (Suc k + j)) \<and> shape r c (nablas ! j)" by simp
  qed
  ultimately obtain cx' where rest: "accumulate ?cx1 nablas (int (Suc k)) = Inr cx'"
    and len: "length cx' = length ?cx1"
    and dims: "\<forall>i < length ?cx1. cols (cx' ! i) = cols (?cx1 ! i)
                            \<and> length (vals (cx' ! i)) = length (vals (?cx1 ! i))"
    using Cons.IH [of "Suc k" ?cx1] by blast
  have "cols (cx' ! i) = cols (cx ! i) \<and> length (vals (cx' ! i)) = length (vals (cx ! i))"
    if i: "i < length cx" for i
  proof (cases "i = k")
    case True
    from dims i have "cols (cx' ! i) = cols (?cx1 ! i)"
      "length (vals (cx' ! i)) = length (vals (?cx1 ! i))" by simp_all
    with True k sh show ?thesis by (simp add: shape_def)
  next
    case False
    with dims i show ?thesis by simp
  qed
  with rest len add(1) k show ?case
    by (simp add: index_def assign_def Add_def check_def add.commute)
qed

lemma sumGradients_total:
  assumes wf: "wellFormedNN network"
  shows "list_all (wellFormedItem network) batch \<Longrightarrow> gradientsShaped network cxw cxb \<Longrightarrow>
     \<exists>cxw' cxb'. sumGradients network batch cxw cxb = Inr (cxw', cxb')
        \<and> gradientsShaped network cxw' cxb'"
proof (induction batch arbitrary: cxw cxb)
  case Nil
  then show ?case by simp
next
  case (Cons item batch)
  then have wi: "wellFormedItem network item" and rest: "list_all (wellFormedItem network) batch"
    by simp_all
  from backprop_total [OF wf wi] obtain nablaW nablaB
    where bp: "backprop network item = Inr (nablaW, nablaB)"
      and gs: "gradientsShaped network nablaW nablaB" by blast
  note c = Cons.prems(2) [unfolded gradientsShaped_iff [OF wf]]
  note n = gs [unfolded gradientsShaped_iff [OF wf]]
  have "length nablaW + 0 = length cxw" using c n by simp
  moreover have "\<forall>j < length nablaW. \<exists>r c. shape r c (cxw ! (0 + j)) \<and> shape r c (nablaW ! j)"
    using c n by auto
  ultimately obtain cxw1 where w1: "accumulate cxw nablaW (int 0) = Inr cxw1"
    and lw: "length cxw1 = length cxw"
    and dw: "\<forall>i < length cxw. cols (cxw1 ! i) = cols (cxw ! i)
                            \<and> length (vals (cxw1 ! i)) = length (vals (cxw ! i))"
    using accumulate_total [of nablaW 0 cxw] by blast
  have "length nablaB + 0 = length cxb" using c n by simp
  moreover have "\<forall>j < length nablaB. \<exists>r c. shape r c (cxb ! (0 + j)) \<and> shape r c (nablaB ! j)"
    using c n by auto
  ultimately obtain cxb1 where b1: "accumulate cxb nablaB (int 0) = Inr cxb1"
    and lb: "length cxb1 = length cxb"
    and db: "\<forall>i < length cxb. cols (cxb1 ! i) = cols (cxb ! i)
                            \<and> length (vals (cxb1 ! i)) = length (vals (cxb ! i))"
    using accumulate_total [of nablaB 0 cxb] by blast
  note g1 = gradientsShaped_same_dims [OF wf Cons.prems(2) lw lb dw db]
  from Cons.IH [OF rest g1] obtain cxw' cxb'
    where "sumGradients network batch cxw1 cxb1 = Inr (cxw', cxb')"
      and "gradientsShaped network cxw' cxb'" by blast
  with bp w1 b1 show ?case by simp
qed


lemma updateWeights_total:
  "length cxw + k = length ws \<Longrightarrow>
   (\<forall>j < length cxw. \<exists>r c. shape r c (ws ! (k + j)) \<and> shape r c (cxw ! j)) \<Longrightarrow>
     \<exists>ws'. updateWeights eta lmbda n f cxw (int k) ws = Inr ws' \<and> length ws' = length ws
       \<and> (\<forall>i < length ws. cols (ws' ! i) = cols (ws ! i)
                            \<and> length (vals (ws' ! i)) = length (vals (ws ! i)))"
proof (induction cxw arbitrary: k ws)
  case Nil
  then show ?case by simp
next
  case (Cons w cxw)
  let ?reg = "MultBy (fsub (Fin 1) (fdiv (fmul eta lmbda) (float64_of_int n)))"
  from Cons.prems(1) have k: "k < length ws" by simp
  from Cons.prems(2) obtain r c where sh: "shape r c (ws ! k)" "shape r c w" by force
  note red = Apply_total [OF sh(2), of f]
  note dec = Apply_total [OF sh(1), of ?reg]
  note sub = operate_total [OF dec(2) red(2), of "\<lambda>x y. fsub x y"]
  let ?new = "\<lparr>cols = c, vals = map2 fsub (map ?reg (vals (ws ! k))) (map f (vals w))\<rparr>"
  let ?ws1 = "ws[k := ?new]"
  have "length cxw + Suc k = length ?ws1" using Cons.prems(1) by simp
  moreover have "\<forall>j < length cxw. \<exists>r c. shape r c (?ws1 ! (Suc k + j)) \<and> shape r c (cxw ! j)"
  proof (intro allI impI)
    fix j assume "j < length cxw"
    with Cons.prems(2) have "\<exists>r c. shape r c (ws ! (k + Suc j)) \<and> shape r c ((w # cxw) ! Suc j)"
      by (metis Suc_less_eq length_Cons)
    then show "\<exists>r c. shape r c (?ws1 ! (Suc k + j)) \<and> shape r c (cxw ! j)" by simp
  qed
  ultimately obtain ws' where rest: "updateWeights eta lmbda n f cxw (int (Suc k)) ?ws1 = Inr ws'"
    and len: "length ws' = length ?ws1"
    and dims: "\<forall>i < length ?ws1. cols (ws' ! i) = cols (?ws1 ! i)
                            \<and> length (vals (ws' ! i)) = length (vals (?ws1 ! i))"
    using Cons.IH [of "Suc k" ?ws1] by blast
  have "cols (ws' ! i) = cols (ws ! i) \<and> length (vals (ws' ! i)) = length (vals (ws ! i))"
    if i: "i < length ws" for i
  proof (cases "i = k")
    case True
    from dims i have "cols (ws' ! i) = cols (?ws1 ! i)"
      "length (vals (ws' ! i)) = length (vals (?ws1 ! i))" by simp_all
    with True k sh show ?thesis by (simp add: shape_def)
  next
    case False
    with dims i show ?thesis by simp
  qed
  with rest len red(1) dec(1) sub(1) k show ?case
    by (simp add: index_def assign_def Sub_def check_def add.commute Let_def)
qed

lemma updateBiases_total:
  "length cxb + k = length bs \<Longrightarrow>
   (\<forall>j < length cxb. \<exists>r c. shape r c (bs ! (k + j)) \<and> shape r c (cxb ! j)) \<Longrightarrow>
     \<exists>bs'. updateBiases f cxb (int k) bs = Inr bs' \<and> length bs' = length bs
       \<and> (\<forall>i < length bs. cols (bs' ! i) = cols (bs ! i)
                            \<and> length (vals (bs' ! i)) = length (vals (bs ! i)))"
proof (induction cxb arbitrary: k bs)
  case Nil
  then show ?case by simp
next
  case (Cons b cxb)
  from Cons.prems(1) have k: "k < length bs" by simp
  from Cons.prems(2) obtain r c where sh: "shape r c (bs ! k)" "shape r c b" by force
  note red = Apply_total [OF sh(2), of f]
  note sub = operate_total [OF sh(1) red(2), of "\<lambda>x y. fsub x y"]
  let ?new = "\<lparr>cols = c, vals = map2 fsub (vals (bs ! k)) (map f (vals b))\<rparr>"
  let ?bs1 = "bs[k := ?new]"
  have "length cxb + Suc k = length ?bs1" using Cons.prems(1) by simp
  moreover have "\<forall>j < length cxb. \<exists>r c. shape r c (?bs1 ! (Suc k + j)) \<and> shape r c (cxb ! j)"
  proof (intro allI impI)
    fix j assume "j < length cxb"
    with Cons.prems(2) have "\<exists>r c. shape r c (bs ! (k + Suc j)) \<and> shape r c ((b # cxb) ! Suc j)"
      by (metis Suc_less_eq length_Cons)
    then show "\<exists>r c. shape r c (?bs1 ! (Suc k + j)) \<and> shape r c (cxb ! j)" by simp
  qed
  ultimately obtain bs' where rest: "updateBiases f cxb (int (Suc k)) ?bs1 = Inr bs'"
    and len: "length bs' = length ?bs1"
    and dims: "\<forall>i < length ?bs1. cols (bs' ! i) = cols (?bs1 ! i)
                            \<and> length (vals (bs' ! i)) = length (vals (?bs1 ! i))"
    using Cons.IH [of "Suc k" ?bs1] by blast
  have "cols (bs' ! i) = cols (bs ! i) \<and> length (vals (bs' ! i)) = length (vals (bs ! i))"
    if i: "i < length bs" for i
  proof (cases "i = k")
    case True
    from dims i have "cols (bs' ! i) = cols (?bs1 ! i)"
      "length (vals (bs' ! i)) = length (vals (?bs1 ! i))" by simp_all
    with True k sh show ?thesis by (simp add: shape_def)
  next
    case False
    with dims i show ?thesis by simp
  qed
  with rest len red(1) sub(1) k show ?case
    by (simp add: index_def assign_def Sub_def check_def add.commute)
qed

lemma updateMiniBatch_total:
  assumes wf: "wellFormedNN network" and items: "list_all (wellFormedItem network) batch"
  shows "\<exists>network'. updateMiniBatch network batch eta lmbda n = Inr network'
           \<and> wellFormedNN network'"
proof -
  let ?c = "MultBy (fdiv eta (float64_of_int (len batch)))"
  from zeroLike_shaped [OF wf] obtain cxw0 cxb0
    where w0: "zeroLike (weights network) = Inr cxw0"
      and b0: "zeroLike (biases network) = Inr cxb0"
      and g0: "gradientsShaped network cxw0 cxb0" by blast
  from sumGradients_total [OF wf items g0] obtain cxw cxb
    where sums: "sumGradients network batch cxw0 cxb0 = Inr (cxw, cxb)"
      and g: "gradientsShaped network cxw cxb" by blast
  note gs = g [unfolded gradientsShaped_iff [OF wf]]
  from wf have lb: "length (biases network) = length (weights network)"
    by (simp add: wellFormedNN_def)
  have "length cxw + 0 = length (weights network)" using gs by simp
  moreover have "\<forall>j < length cxw. \<exists>r c. shape r c (weights network ! (0 + j)) \<and> shape r c (cxw ! j)"
    using gs wellFormedNN_nth(1) [OF wf] by auto
  ultimately obtain ws
    where ws: "updateWeights eta lmbda n ?c cxw (int 0) (weights network) = Inr ws"
      and lws: "length ws = length (weights network)"
      and dws: "\<forall>i < length (weights network). cols (ws ! i) = cols (weights network ! i)
                   \<and> length (vals (ws ! i)) = length (vals (weights network ! i))"
    using updateWeights_total [of cxw 0 "weights network" eta lmbda n ?c] by blast
  have "length cxb + 0 = length (biases network)" using gs lb by simp
  moreover have "\<forall>j < length cxb. \<exists>r c. shape r c (biases network ! (0 + j)) \<and> shape r c (cxb ! j)"
    using gs wellFormedNN_nth(2) [OF wf] by auto
  ultimately obtain bs
    where bs: "updateBiases ?c cxb (int 0) (biases network) = Inr bs"
      and lbs: "length bs = length (biases network)"
      and dbs: "\<forall>i < length (biases network). cols (bs ! i) = cols (biases network ! i)
                   \<and> length (vals (bs ! i)) = length (vals (biases network ! i))"
    using updateBiases_total [of cxb 0 "biases network" ?c] by blast
  have self: "gradientsShaped network (weights network) (biases network)"
    using wf by (simp add: gradientsShaped_def)
  from gradientsShaped_same_dims [OF wf self lws lbs dws dbs]
  have "wellFormedNN (network\<lparr>weights := ws, biases := bs\<rparr>)"
    by (simp add: gradientsShaped_def)
  moreover from w0 b0 sums ws bs
  have "updateMiniBatch network batch eta lmbda n = Inr (network\<lparr>weights := ws, biases := bs\<rparr>)"
    by (simp add: updateMiniBatch_def Let_def)
  ultimately show ?thesis by blast
qed

section \<open>The output layer in backprop\<close>

lemma backprop_output_layer:
  assumes "backprop network item = Inr (nablaW, nablaB)"
  shows "\<exists>activations zs y delta aT.
     backprop_forward network (weights network) 0 (Values item) [Values item] []
       = Inr (activations, zs)
     \<and> FeedForward network (Values item) = Inr (last activations)
     \<and> OneHotMatrix 1 (Distinct item) 0 (int_of_float64 (Label item)) = Inr (y, None)
     \<and> y = \<lparr>cols = Distinct item,
             vals = (replicate (nat (Distinct item)) (Fin 0))
                      [nat (int_of_float64 (Label item)) := Fin 1]\<rparr>
     \<and> 0 \<le> int_of_float64 (Label item) \<and> int_of_float64 (Label item) < Distinct item
     \<and> Sub (last activations) y = Inr (delta, None)
     \<and> delta = \<lparr>cols = cols (last activations),
                 vals = map2 fsub (vals (last activations)) (vals y)\<rparr>
     \<and> nablaB \<noteq> [] \<and> last nablaB = delta
     \<and> 2 \<le> length activations
     \<and> Transpose (activations ! (length activations - 2)) = Inr aT
     \<and> nablaW \<noteq> [] \<and> Dot aT delta = Inr (last nablaW, None)"
proof -
  from assms obtain nablaW0 nablaB0 activations zs y aLast delta nablaB1 aPrev aT gw nablaW1 dEnd
    where fw: "backprop_forward network (weights network) 0 (Values item) [Values item] []
                 = Inr (activations, zs)"
      and y: "OneHotMatrix 1 (Distinct item) 0 (int_of_float64 (Label item)) = Inr (y, None)"
      and aLast: "index activations (len activations - 1) = Inr aLast"
      and delta: "Sub aLast y = Inr (delta, None)"
      and nablaB1: "assign nablaB0 (len nablaB0 - 1) delta = Inr nablaB1"
      and aPrev: "index activations (len activations - 2) = Inr aPrev"
      and aT: "Transpose aPrev = Inr aT"
      and gw: "Dot aT delta = Inr (gw, None)"
      and nablaW1: "assign nablaW0 (len nablaW0 - 1) gw = Inr nablaW1"
      and loop: "for_loop [2 .. len (layers network) - 1] (delta, nablaW1, nablaB1)
                   (backprop_back network activations zs) = Inr (dEnd, nablaW, nablaB)"
    unfolding backprop_def
    by (auto simp: andThen_Inr must_Inr check_Inr split: prod.splits)
  from backprop_forward_FeedForward [OF fw]
  have ff: "FeedForward network (Values item) = Inr (last activations)"
    by (simp add: FeedForward_def)
  from aLast have ne: "activations \<noteq> []" and aLast': "aLast = last activations"
    by (auto simp: index_Inr len_def last_conv_nth nat_len_minus)
  from aPrev have two: "2 \<le> length activations"
    and aPrev': "aPrev = activations ! (length activations - 2)"
    by (auto simp: index_Inr len_def nat_len_minus)
  from backprop_back_loop_keeps_last [OF loop upto_from_2]
  have keep: "length nablaW = length nablaW1" "length nablaB = length nablaB1"
    "last nablaW = last nablaW1" "last nablaB = last nablaB1" by auto
  from nablaB1 have b1: "nablaB1 \<noteq> []" "last nablaB1 = delta"
    by (auto simp: assign_Inr len_def last_conv_nth nat_len_minus)
  from nablaW1 have w1: "nablaW1 \<noteq> []" "last nablaW1 = gw"
    by (auto simp: assign_Inr len_def last_conv_nth nat_len_minus)
  from keep b1 w1 have fin: "nablaB \<noteq> []" "last nablaB = delta" "nablaW \<noteq> []" "last nablaW = gw"
    by auto
  from delta have d: "delta = \<lparr>cols = cols aLast, vals = map2 fsub (vals aLast) (vals y)\<rparr>"
    unfolding Sub_def by (rule operate_Inr(1))
  show ?thesis
    using fw ff y OneHotMatrix_row_Inr [OF y] delta d fin two aT gw aLast' aPrev'
    by blast
qed

text \<open>
  C5. On a well-formed network and an item that fits it \<open>backprop\<close> returns. Whenever
  \<open>backprop\<close> returns, for any network and any training item: its forward pass has
  produced the activations, the last of which is what \<open>FeedForward\<close> returns on the
  item's values; \<open>y\<close> is the one-row matrix of width \<open>item.Distinct\<close> that is 0 but for a
  1 at the index \<open>int(item.Label)\<close>; \<open>delta\<close> is \<open>a[last] - y\<close>, element by element, with
  no factor from the sigmoid derivative; the last bias gradient returned is \<open>delta\<close> and
  the last weight gradient is the transpose of the activation before the last,
  multiplied (\<open>Dot\<close>) by \<open>delta\<close>. The loop over the earlier layers leaves both untouched.
\<close>

theorem C5_output_layer_error:
  "(wellFormedNN network \<and> wellFormedItem network item \<longrightarrow>
      (\<exists>gradW gradB. backprop network item = Inr (gradW, gradB)))
   \<and> (backprop network item = Inr (nablaW, nablaB) \<longrightarrow>
      (\<exists>activations zs y delta aT.
           backprop_forward network (weights network) 0 (Values item) [Values item] []
             = Inr (activations, zs)
           \<and> FeedForward network (Values item) = Inr (last activations)
           \<and> OneHotMatrix 1 (Distinct item) 0 (int_of_float64 (Label item)) = Inr (y, None)
           \<and> y = \<lparr>cols = Distinct item,
                   vals = (replicate (nat (Distinct item)) (Fin 0))
                            [nat (int_of_float64 (Label item)) := Fin 1]\<rparr>
           \<and> 0 \<le> int_of_float64 (Label item) \<and> int_of_float64 (Label item) < Distinct item
           \<and> Sub (last activations) y = Inr (delta, None)
           \<and> delta = \<lparr>cols = cols (last activations),
                       vals = map2 fsub (vals (last activations)) (vals y)\<rparr>
           \<and> nablaB \<noteq> [] \<and> last nablaB = delta
           \<and> 2 \<le> length activations
           \<and> Transpose (activations ! (length activations - 2)) = Inr aT
           \<and> nablaW \<noteq> [] \<and> Dot aT delta = Inr (last nablaW, None)))"
proof (intro conjI impI)
  assume "wellFormedNN network \<and> wellFormedItem network item"
  then have "wellFormedNN network" "wellFormedItem network item" by simp_all
  from backprop_total [OF this]
  show "\<exists>gradW gradB. backprop network item = Inr (gradW, gradB)" by blast
next
  assume "backprop network item = Inr (nablaW, nablaB)"
  then show "\<exists>activations zs y delta aT.
     backprop_forward network (weights network) 0 (Values item) [Values item] []
       = Inr (activations, zs)
     \<and> FeedForward network (Values item) = Inr (last activations)
     \<and> OneHotMatrix 1 (Distinct item) 0 (int_of_float64 (Label item)) = Inr (y, None)
     \<and> y = \<lparr>cols = Distinct item,
             vals = (replicate (nat (Distinct item)) (Fin 0))
                      [nat (int_of_float64 (Label item)) := Fin 1]\<rparr>
     \<and> 0 \<le> int_of_float64 (Label item) \<and> int_of_float64 (Label item) < Distinct item
     \<and> Sub (last activations) y = Inr (delta, None)
     \<and> delta = \<lparr>cols = cols (last activations),
                 vals = map2 fsub (vals (last activations)) (vals y)\<rparr>
     \<and> nablaB \<noteq> [] \<and> last nablaB = delta
     \<and> 2 \<le> length activations
     \<and> Transpose (activations ! (length activations - 2)) = Inr aT
     \<and> nablaW \<noteq> [] \<and> Dot aT delta = Inr (last nablaW, None)"
    by (rule backprop_output_layer)
qed

theorem C5_output_layer_error_witness:
  "wellFormedNN
     \<lparr>layers = [1, 1, 1],
      weights = [\<lparr>cols = 1, vals = [Fin 0]\<rparr>, \<lparr>cols = 1, vals = [Fin 2]\<rparr>],
      biases = [\<lparr>cols = 1, vals = [Fin 0]\<rparr>, \<lparr>cols = 1, vals = [Fin (- 1)]\<rparr>]\<rparr>
   \<and> wellFormedItem
       \<lparr>layers = [1, 1, 1],
        weights = [\<lparr>cols = 1, vals = [Fin 0]\<rparr>, \<lparr>cols = 1, vals = [Fin 2]\<rparr>],
        biases = [\<lparr>cols = 1, vals = [Fin 0]\<rparr>, \<lparr>cols = 1, vals = [Fin (- 1)]\<rparr>]\<rparr>
       \<lparr>Values = \<lparr>cols = 1, vals = [Fin 1]\<rparr>, Label = Fin 0, Distinct = 1\<rparr>
   \<and> (\<exists>gradW gradB.
        backprop
          \<lparr>layers = [1, 1, 1],
           weights = [\<lparr>cols = 1, vals = [Fin 0]\<rparr>, \<lparr>cols = 1, vals = [Fin 2]\<rparr>],
           biases = [\<lparr>cols = 1, vals = [Fin 0]\<rparr>, \<lparr>cols = 1, vals = [Fin (- 1)]\<rparr>]\<rparr>
          \<lparr>Values = \<lparr>cols = 1, vals = [Fin 1]\<rparr>, Label = Fin 0, Distinct = 1\<rparr>
        = Inr (gradW, gradB))
   \<and> backprop
       \<lparr>layers = [1, 1, 1],
        weights = [\<lparr>cols = 1, vals = [Fin 0]\<rparr>, \<lparr>cols = 1, vals = [Fin 2]\<rparr>],
        biases = [\<lparr>cols = 1, vals = [Fin 0]\<rparr>, \<lparr>cols = 1, vals = [Fin (- 1)]\<rparr>]\<rparr>
       \<lparr>Values = \<lparr>cols = 1, vals = [Fin 1]\<rparr>, Label = Fin 0, Distinct = 1\<rparr>
     = Inr ([\<lparr>cols = 1, vals = [Fin (- (1 / 4))]\<rparr>, \<lparr>cols = 1, vals = [Fin (- (1 / 4))]\<rparr>],
            [\<lparr>cols = 1, vals = [Fin (- (1 / 4))]\<rparr>, \<lparr>cols = 1, vals = [Fin (- (1 / 2))]\<rparr>])
   \<and> (\<exists>activations zs y delta aT.
     backprop_forward
       \<lparr>layers = [1, 1, 1],
        weights = [\<lparr>cols = 1, vals = [Fin 0]\<rparr>, \<lparr>cols = 1, vals = [Fin 2]\<rparr>],
        biases = [\<lparr>cols = 1, vals = [Fin 0]\<rparr>, \<lparr>cols = 1, vals = [Fin (- 1)]\<rparr>]\<rparr>
       [\<lparr>cols = 1, vals = [Fin 0]\<rparr>, \<lparr>cols = 1, vals = [Fin 2]\<rparr>] 0
       \<lparr>cols = 1, vals = [Fin 1]\<rparr> [\<lparr>cols = 1, vals = [Fin 1]\<rparr>] []
       = Inr (activations, zs)
     \<and> FeedForward
         \<lparr>layers = [1, 1, 1],
          weights = [\<lparr>cols = 1, vals = [Fin 0]\<rparr>, \<lparr>cols = 1, vals = [Fin 2]\<rparr>],
          biases = [\<lparr>cols = 1, vals = [Fin 0]\<rparr>, \<lparr>cols = 1, vals = [Fin (- 1)]\<rparr>]\<rparr>
         \<lparr>cols = 1, vals = [Fin 1]\<rparr>
       = Inr (last activations)
     \<and> OneHotMatrix 1 1 0 (int_of_float64 (Fin 0)) = Inr (y, None)
     \<and> y = \<lparr>cols = 1, vals = [Fin 1]\<rparr>
     \<and> Sub (last activations) y = Inr (delta, None)
     \<and> delta = \<lparr>cols = cols (last activations),
                 vals = map2 fsub (vals (last activations)) (vals y)\<rparr>
     \<and> delta = \<lparr>cols = 1, vals = [Fin (- (1 / 2))]\<rparr>
     \<and> 2 \<le> length activations
     \<and> Transpose (activations ! (length activations - 2)) = Inr aT
     \<and> Dot aT delta = Inr (\<lparr>cols = 1, vals = [Fin (- (1 / 4))]\<rparr>, None))"
proof -
  let ?net = "\<lparr>layers = [1, 1, 1],
      weights = [\<lparr>cols = 1, vals = [Fin 0]\<rparr>, \<lparr>cols = 1, vals = [Fin 2]\<rparr>],
      biases = [\<lparr>cols = 1, vals = [Fin 0]\<rparr>, \<lparr>cols = 1, vals = [Fin (- 1)]\<rparr>]\<rparr>"
  let ?item = "\<lparr>Values = \<lparr>cols = 1, vals = [Fin 1]\<rparr>, Label = Fin 0, Distinct = 1\<rparr>"
  have wn: "wellFormedNN ?net"
    by (simp add: wellFormedNN_def shape_def upt_rec [of 0] upt_rec [of 1])
  have wi: "wellFormedItem ?net ?item"
    by (simp add: wellFormedItem_def shape_def)
  have h: "backprop ?net ?item
    = Inr ([\<lparr>cols = 1, vals = [Fin (- (1 / 4))]\<rparr>, \<lparr>cols = 1, vals = [Fin (- (1 / 4))]\<rparr>],
           [\<lparr>cols = 1, vals = [Fin (- (1 / 4))]\<rparr>, \<lparr>cols = 1, vals = [Fin (- (1 / 2))]\<rparr>])"
    by (simp add: run_defs)
  note inst = C5_output_layer_error [of ?net ?item
      "[\<lparr>cols = 1, vals = [Fin (- (1 / 4))]\<rparr>, \<lparr>cols = 1, vals = [Fin (- (1 / 4))]\<rparr>]"
      "[\<lparr>cols = 1, vals = [Fin (- (1 / 4))]\<rparr>, \<lparr>cols = 1, vals = [Fin (- (1 / 2))]\<rparr>]"]
  from wn wi have wni: "wellFormedNN ?net \<and> wellFormedItem ?net ?item" by (rule conjI)
  from inst [THEN conjunct1, THEN mp, OF wni]
  have ret: "\<exists>gradW gradB. backprop ?net ?item = Inr (gradW, gradB)" .
  from inst [THEN conjunct2, THEN mp, OF h] obtain activations zs y delta aT where
    "backprop_forward ?net (weights ?net) 0 (Values ?item) [Values ?item] []
       = Inr (activations, zs)"
    "FeedForward ?net (Values ?item) = Inr (last activations)"
    "OneHotMatrix 1 (Distinct ?item) 0 (int_of_float64 (Label ?item)) = Inr (y, None)"
    "y = \<lparr>cols = Distinct ?item,
          vals = (replicate (nat (Distinct ?item)) (Fin 0))
                   [nat (int_of_float64 (Label ?item)) := Fin 1]\<rparr>"
    "Sub (last activations) y = Inr (delta, None)"
    "delta = \<lparr>cols = cols (last activations),
              vals = map2 fsub (vals (last activations)) (vals y)\<rparr>"
    "last [\<lparr>cols = 1, vals = [Fin (- (1 / 4))]\<rparr>, \<lparr>cols = 1, vals = [Fin (- (1 / 2))]\<rparr>] = delta"
    "2 \<le> length activations"
    "Transpose (activations ! (length activations - 2)) = Inr aT"
    "Dot aT delta
       = Inr (last [\<lparr>cols = 1, vals = [Fin (- (1 / 4))]\<rparr>, \<lparr>cols = 1, vals = [Fin (- (1 / 4))]\<rparr>],
              None)"
    by blast
  then have c: "backprop_forward ?net [\<lparr>cols = 1, vals = [Fin 0]\<rparr>, \<lparr>cols = 1, vals = [Fin 2]\<rparr>] 0
       \<lparr>cols = 1, vals = [Fin 1]\<rparr> [\<lparr>cols = 1, vals = [Fin 1]\<rparr>] [] = Inr (activations, zs)
     \<and> FeedForward ?net \<lparr>cols = 1, vals = [Fin 1]\<rparr> = Inr (last activations)
     \<and> OneHotMatrix 1 1 0 (int_of_float64 (Fin 0)) = Inr (y, None)
     \<and> y = \<lparr>cols = 1, vals = [Fin 1]\<rparr>
     \<and> Sub (last activations) y = Inr (delta, None)
     \<and> delta = \<lparr>cols = cols (last activations),
                 vals = map2 fsub (vals (last activations)) (vals y)\<rparr>
     \<and> delta = \<lparr>cols = 1, vals = [Fin (- (1 / 2))]\<rparr>
     \<and> 2 \<le> length activations
     \<and> Transpose (activations ! (length activations - 2)) = Inr aT
     \<and> Dot aT delta = Inr (\<lparr>cols = 1, vals = [Fin (- (1 / 4))]\<rparr>, None)"
    by simp
  show ?thesis
    apply (rule conjI [OF wn])
    apply (rule conjI [OF wi])
    apply (rule conjI [OF ret])
    apply (rule conjI [OF h])
    apply (rule exI [of _ activations], rule exI [of _ zs], rule exI [of _ y])
    apply (rule exI [of _ delta], rule exI [of _ aT])
    apply (rule c)
    done
qed

section \<open>The sums and the update of updateMiniBatch\<close>

lemma accumulate_Inr:
  "accumulate cx nablas (int k) = Inr cx' \<Longrightarrow> k \<le> length cx \<Longrightarrow>
     length cx' = length cx \<and> k + length nablas \<le> length cx
     \<and> (\<forall>j < length nablas. Add (cx ! (k + j)) (nablas ! j) = Inr (cx' ! (k + j), None))
     \<and> (\<forall>j < k. cx' ! j = cx ! j)"
proof (induction nablas arbitrary: k cx)
  case Nil
  then show ?case by simp
next
  case (Cons nabla nablas)
  from Cons.prems(1) obtain c s cx1 where c: "index cx (int k) = Inr c"
    and s: "Add c nabla = Inr (s, None)"
    and cx1: "assign cx (int k) s = Inr cx1"
    and rest: "accumulate cx1 nablas (int (Suc k)) = Inr cx'"
    by (auto simp: andThen_Inr check_Inr add.commute split: prod.splits)
  from c have k: "k < length cx" and c': "c = cx ! k" by (auto simp: index_Inr)
  from cx1 have cx1': "cx1 = cx[k := s]" by (auto simp: assign_Inr)
  from k cx1' have "Suc k \<le> length cx1" by simp
  from Cons.IH [OF rest this]
  have len: "length cx' = length cx1" and bound: "Suc k + length nablas \<le> length cx1"
    and adds: "\<forall>j < length nablas. Add (cx1 ! (Suc k + j)) (nablas ! j)
                  = Inr (cx' ! (Suc k + j), None)"
    and before: "\<forall>j < Suc k. cx' ! j = cx1 ! j"
    by auto
  have "Add (cx ! (k + j)) ((nabla # nablas) ! j) = Inr (cx' ! (k + j), None)"
    if j: "j < length (nabla # nablas)" for j
  proof (cases j)
    case 0
    from before have "cx' ! k = cx1 ! k" by simp
    with cx1' k have "cx' ! k = s" by simp
    with s c' 0 show ?thesis by simp
  next
    case (Suc j')
    with j have "j' < length nablas" by simp
    with adds have "Add (cx1 ! (Suc k + j')) (nablas ! j') = Inr (cx' ! (Suc k + j'), None)"
      by simp
    moreover have "cx1 ! (Suc k + j') = cx ! (Suc k + j')" using cx1' by simp
    ultimately show ?thesis using Suc by simp
  qed
  moreover have "\<forall>j < k. cx' ! j = cx ! j" using before cx1' by simp
  ultimately show ?case using len bound cx1' by simp
qed

lemma backprop_lengths:
  assumes "backprop network item = Inr (nablaW, nablaB)"
  shows "length nablaW = length (weights network)" and "length nablaB = length (biases network)"
proof -
  from assms obtain nablaW0 nablaB0 activations zs delta nablaB1 gw nablaW1 dEnd
    where w0: "zeroLike (weights network) = Inr nablaW0"
      and b0: "zeroLike (biases network) = Inr nablaB0"
      and nablaB1: "assign nablaB0 (len nablaB0 - 1) delta = Inr nablaB1"
      and nablaW1: "assign nablaW0 (len nablaW0 - 1) gw = Inr nablaW1"
      and loop: "for_loop [2 .. len (layers network) - 1] (delta, nablaW1, nablaB1)
                   (backprop_back network activations zs) = Inr (dEnd, nablaW, nablaB)"
    unfolding backprop_def
    by (auto simp: andThen_Inr must_Inr check_Inr split: prod.splits)
  from backprop_back_loop_keeps_last [OF loop upto_from_2]
  have "length nablaW = length nablaW1" "length nablaB = length nablaB1" by auto
  moreover from nablaB1 nablaW1 have "length nablaB1 = length nablaB0" "length nablaW1 = length nablaW0"
    by (auto simp: assign_Inr)
  ultimately show "length nablaW = length (weights network)"
    and "length nablaB = length (biases network)"
    using zeroLike_length [OF w0] zeroLike_length [OF b0] by auto
qed


lemma accumulate_all:
  assumes "accumulate cx nablas 0 = Inr cx'" and "length nablas = length cx"
  shows "length cx' = length cx"
    and "\<forall>i < length cx. cx' ! i = \<lparr>cols = cols (cx ! i),
                                      vals = map2 fadd (vals (cx ! i)) (vals (nablas ! i))\<rparr>
            \<and> length (vals (cx' ! i)) = length (vals (cx ! i))"
proof -
  from assms(1) have "accumulate cx nablas (int 0) = Inr cx'" by simp
  from accumulate_Inr [OF this] have len: "length cx' = length cx"
    and adds: "\<forall>j < length nablas. Add (cx ! j) (nablas ! j) = Inr (cx' ! j, None)"
    by auto
  from len show "length cx' = length cx" .
  show "\<forall>i < length cx. cx' ! i = \<lparr>cols = cols (cx ! i),
                                      vals = map2 fadd (vals (cx ! i)) (vals (nablas ! i))\<rparr>
            \<and> length (vals (cx' ! i)) = length (vals (cx ! i))"
  proof (intro allI impI)
    fix i assume "i < length cx"
    with adds assms(2) have a: "operate (cx ! i) (nablas ! i) (\<lambda>x y. fadd x y) = Inr (cx' ! i, None)"
      by (simp add: Add_def)
    from operate_Inr(1) [OF a] operate_Inr(3) [OF a]
    show "cx' ! i = \<lparr>cols = cols (cx ! i), vals = map2 fadd (vals (cx ! i)) (vals (nablas ! i))\<rparr>
            \<and> length (vals (cx' ! i)) = length (vals (cx ! i))"
      by simp
  qed
qed

lemma sumGradients_Inr:
  "sumGradients network batch cxw0 cxb0 = Inr (cxw, cxb) \<Longrightarrow>
   length cxw0 = length (weights network) \<Longrightarrow> length cxb0 = length (biases network) \<Longrightarrow>
   \<exists>grads. map (backprop network) batch = map Inr grads
     \<and> length cxw = length cxw0 \<and> length cxb = length cxb0
     \<and> (\<forall>i < length cxw0.
           cxw ! i = \<lparr>cols = cols (cxw0 ! i),
                      vals = foldl (map2 fadd) (vals (cxw0 ! i)) (map (\<lambda>g. vals (fst g ! i)) grads)\<rparr>
           \<and> length (vals (cxw ! i)) = length (vals (cxw0 ! i)))
     \<and> (\<forall>i < length cxb0.
           cxb ! i = \<lparr>cols = cols (cxb0 ! i),
                      vals = foldl (map2 fadd) (vals (cxb0 ! i)) (map (\<lambda>g. vals (snd g ! i)) grads)\<rparr>
           \<and> length (vals (cxb ! i)) = length (vals (cxb0 ! i)))"
proof (induction batch arbitrary: cxw0 cxb0)
  case Nil
  then have "cxw = cxw0" "cxb = cxb0" by auto
  then have "map (backprop network) [] = map Inr []
     \<and> length cxw = length cxw0 \<and> length cxb = length cxb0
     \<and> (\<forall>i < length cxw0.
           cxw ! i = \<lparr>cols = cols (cxw0 ! i),
                      vals = foldl (map2 fadd) (vals (cxw0 ! i)) (map (\<lambda>g. vals (fst g ! i)) [])\<rparr>
           \<and> length (vals (cxw ! i)) = length (vals (cxw0 ! i)))
     \<and> (\<forall>i < length cxb0.
           cxb ! i = \<lparr>cols = cols (cxb0 ! i),
                      vals = foldl (map2 fadd) (vals (cxb0 ! i)) (map (\<lambda>g. vals (snd g ! i)) [])\<rparr>
           \<and> length (vals (cxb ! i)) = length (vals (cxb0 ! i)))"
    by simp
  then show ?case by (rule exI)
next
  case (Cons item batch)
  from Cons.prems(1) obtain nablaW nablaB cxw1 cxb1
    where bp: "backprop network item = Inr (nablaW, nablaB)"
      and w1: "accumulate cxw0 nablaW 0 = Inr cxw1"
      and b1: "accumulate cxb0 nablaB 0 = Inr cxb1"
      and rest: "sumGradients network batch cxw1 cxb1 = Inr (cxw, cxb)"
    by (auto simp: andThen_Inr split: prod.splits)
  from backprop_lengths [OF bp] Cons.prems(2,3)
  have lw: "length nablaW = length cxw0" and lb: "length nablaB = length cxb0" by auto
  note aw = accumulate_all [OF w1 lw] and ab = accumulate_all [OF b1 lb]
  from aw(1) ab(1) Cons.prems(2,3)
  have l1: "length cxw1 = length (weights network)" "length cxb1 = length (biases network)"
    by auto
  from Cons.IH [OF rest l1] obtain grads where g: "map (backprop network) batch = map Inr grads"
    and lens: "length cxw = length cxw1" "length cxb = length cxb1"
    and sw: "\<forall>i < length cxw1.
           cxw ! i = \<lparr>cols = cols (cxw1 ! i),
                      vals = foldl (map2 fadd) (vals (cxw1 ! i)) (map (\<lambda>g. vals (fst g ! i)) grads)\<rparr>
           \<and> length (vals (cxw ! i)) = length (vals (cxw1 ! i))"
    and sb: "\<forall>i < length cxb1.
           cxb ! i = \<lparr>cols = cols (cxb1 ! i),
                      vals = foldl (map2 fadd) (vals (cxb1 ! i)) (map (\<lambda>g. vals (snd g ! i)) grads)\<rparr>
           \<and> length (vals (cxb ! i)) = length (vals (cxb1 ! i))"
    by blast
  let ?grads = "(nablaW, nablaB) # grads"
  have "map (backprop network) (item # batch) = map Inr ?grads" using bp g by simp
  moreover have "length cxw = length cxw0" "length cxb = length cxb0"
    using lens aw(1) ab(1) by auto
  moreover have "\<forall>i < length cxw0.
           cxw ! i = \<lparr>cols = cols (cxw0 ! i),
                      vals = foldl (map2 fadd) (vals (cxw0 ! i)) (map (\<lambda>g. vals (fst g ! i)) ?grads)\<rparr>
           \<and> length (vals (cxw ! i)) = length (vals (cxw0 ! i))"
  proof (intro allI impI)
    fix i assume i: "i < length cxw0"
    from aw(2) i have c1: "cols (cxw1 ! i) = cols (cxw0 ! i)"
      "vals (cxw1 ! i) = map2 fadd (vals (cxw0 ! i)) (vals (nablaW ! i))"
      and l1: "length (vals (cxw1 ! i)) = length (vals (cxw0 ! i))" by auto
    from sw i aw(1)
    have c: "cxw ! i = \<lparr>cols = cols (cxw1 ! i),
                      vals = foldl (map2 fadd) (vals (cxw1 ! i)) (map (\<lambda>g. vals (fst g ! i)) grads)\<rparr>"
      and l: "length (vals (cxw ! i)) = length (vals (cxw1 ! i))" by auto
    from l l1 have ll: "length (vals (cxw ! i)) = length (vals (cxw0 ! i))" by (rule trans)
    from c have "cxw ! i = \<lparr>cols = cols (cxw0 ! i),
                      vals = foldl (map2 fadd) (vals (cxw0 ! i)) (map (\<lambda>g. vals (fst g ! i)) ?grads)\<rparr>"
      by (simp add: c1)
    from this ll show "cxw ! i = \<lparr>cols = cols (cxw0 ! i),
                      vals = foldl (map2 fadd) (vals (cxw0 ! i)) (map (\<lambda>g. vals (fst g ! i)) ?grads)\<rparr>
           \<and> length (vals (cxw ! i)) = length (vals (cxw0 ! i))" by (rule conjI)
  qed
  moreover have "\<forall>i < length cxb0.
           cxb ! i = \<lparr>cols = cols (cxb0 ! i),
                      vals = foldl (map2 fadd) (vals (cxb0 ! i)) (map (\<lambda>g. vals (snd g ! i)) ?grads)\<rparr>
           \<and> length (vals (cxb ! i)) = length (vals (cxb0 ! i))"
  proof (intro allI impI)
    fix i assume i: "i < length cxb0"
    from ab(2) i have c1: "cols (cxb1 ! i) = cols (cxb0 ! i)"
      "vals (cxb1 ! i) = map2 fadd (vals (cxb0 ! i)) (vals (nablaB ! i))"
      and l1: "length (vals (cxb1 ! i)) = length (vals (cxb0 ! i))" by auto
    from sb i ab(1)
    have c: "cxb ! i = \<lparr>cols = cols (cxb1 ! i),
                      vals = foldl (map2 fadd) (vals (cxb1 ! i)) (map (\<lambda>g. vals (snd g ! i)) grads)\<rparr>"
      and l: "length (vals (cxb ! i)) = length (vals (cxb1 ! i))" by auto
    from l l1 have ll: "length (vals (cxb ! i)) = length (vals (cxb0 ! i))" by (rule trans)
    from c have "cxb ! i = \<lparr>cols = cols (cxb0 ! i),
                      vals = foldl (map2 fadd) (vals (cxb0 ! i)) (map (\<lambda>g. vals (snd g ! i)) ?grads)\<rparr>"
      by (simp add: c1)
    from this ll show "cxb ! i = \<lparr>cols = cols (cxb0 ! i),
                      vals = foldl (map2 fadd) (vals (cxb0 ! i)) (map (\<lambda>g. vals (snd g ! i)) ?grads)\<rparr>
           \<and> length (vals (cxb ! i)) = length (vals (cxb0 ! i))" by (rule conjI)
  qed
  ultimately show ?case by blast
qed

lemma updateWeights_Inr:
  "updateWeights eta lmbda n multByConst cxw (int k) ws = Inr ws' \<Longrightarrow> k \<le> length ws \<Longrightarrow>
     length ws' = length ws \<and> k + length cxw \<le> length ws
     \<and> (\<forall>j < length cxw.
           ws' ! (k + j) =
             \<lparr>cols = cols (ws ! (k + j)),
              vals = map2 fsub
                (map (MultBy (fsub (Fin 1) (fdiv (fmul eta lmbda) (float64_of_int n))))
                   (vals (ws ! (k + j))))
                (map multByConst (vals (cxw ! j)))\<rparr>
           \<and> length (vals (ws ! (k + j))) \<le> length (vals (cxw ! j)))
     \<and> (\<forall>j < k. ws' ! j = ws ! j)"
proof (induction cxw arbitrary: k ws)
  case Nil
  then show ?case by simp
next
  case (Cons w cxw)
  let ?reg = "MultBy (fsub (Fin 1) (fdiv (fmul eta lmbda) (float64_of_int n)))"
  from Cons.prems(1) obtain reduced old decayed new ws1
    where reduced: "Apply w multByConst = Inr reduced"
      and old: "index ws (int k) = Inr old"
      and decayed: "Apply old ?reg = Inr decayed"
      and new: "Sub decayed reduced = Inr (new, None)"
      and ws1: "assign ws (int k) new = Inr ws1"
      and rest: "updateWeights eta lmbda n multByConst cxw (int (Suc k)) ws1 = Inr ws'"
    by (auto simp: andThen_Inr check_Inr add.commute Let_def split: prod.splits)
  from old have k: "k < length ws" and old': "old = ws ! k" by (auto simp: index_Inr)
  from ws1 have ws1': "ws1 = ws[k := new]" by (auto simp: assign_Inr)
  from Apply_Inr [OF reduced] have red: "reduced = \<lparr>cols = cols w, vals = map multByConst (vals w)\<rparr>" .
  from Apply_Inr [OF decayed] have dec: "decayed = \<lparr>cols = cols old, vals = map ?reg (vals old)\<rparr>" .
  from new have op: "operate decayed reduced (\<lambda>x y. fsub x y) = Inr (new, None)"
    by (simp add: Sub_def)
  from operate_Inr(1) [OF op] dec red
  have new': "new = \<lparr>cols = cols old,
                     vals = map2 fsub (map ?reg (vals old)) (map multByConst (vals w))\<rparr>"
    by simp
  from operate_Inr(3) [OF op] dec red have le: "length (vals old) \<le> length (vals w)" by simp
  from k ws1' have "Suc k \<le> length ws1" by simp
  from Cons.IH [OF rest this]
  have len: "length ws' = length ws1" and bound: "Suc k + length cxw \<le> length ws1"
    and upd: "\<forall>j < length cxw.
           ws' ! (Suc k + j) =
             \<lparr>cols = cols (ws1 ! (Suc k + j)),
              vals = map2 fsub (map ?reg (vals (ws1 ! (Suc k + j))))
                (map multByConst (vals (cxw ! j)))\<rparr>
           \<and> length (vals (ws1 ! (Suc k + j))) \<le> length (vals (cxw ! j))"
    and before: "\<forall>j < Suc k. ws' ! j = ws1 ! j"
    by auto
  have "ws' ! (k + j) =
             \<lparr>cols = cols (ws ! (k + j)),
              vals = map2 fsub (map ?reg (vals (ws ! (k + j))))
                (map multByConst (vals ((w # cxw) ! j)))\<rparr>
           \<and> length (vals (ws ! (k + j))) \<le> length (vals ((w # cxw) ! j))"
    if j: "j < length (w # cxw)" for j
  proof (cases j)
    case 0
    from before have "ws' ! k = ws1 ! k" by simp
    with ws1' k have "ws' ! k = new" by simp
    with new' old' le 0 show ?thesis by simp
  next
    case (Suc j')
    with j have "j' < length cxw" by simp
    with upd have "ws' ! (Suc k + j') =
             \<lparr>cols = cols (ws1 ! (Suc k + j')),
              vals = map2 fsub (map ?reg (vals (ws1 ! (Suc k + j'))))
                (map multByConst (vals (cxw ! j')))\<rparr>
           \<and> length (vals (ws1 ! (Suc k + j'))) \<le> length (vals (cxw ! j'))"
      by simp
    moreover have "ws1 ! (Suc k + j') = ws ! (Suc k + j')" using ws1' by simp
    ultimately show ?thesis using Suc by simp
  qed
  moreover have "\<forall>j < k. ws' ! j = ws ! j" using before ws1' by simp
  ultimately show ?case using len bound ws1' by simp
qed

lemma updateBiases_Inr:
  "updateBiases multByConst cxb (int k) bs = Inr bs' \<Longrightarrow> k \<le> length bs \<Longrightarrow>
     length bs' = length bs \<and> k + length cxb \<le> length bs
     \<and> (\<forall>j < length cxb.
           bs' ! (k + j) =
             \<lparr>cols = cols (bs ! (k + j)),
              vals = map2 fsub (vals (bs ! (k + j))) (map multByConst (vals (cxb ! j)))\<rparr>
           \<and> length (vals (bs ! (k + j))) \<le> length (vals (cxb ! j)))
     \<and> (\<forall>j < k. bs' ! j = bs ! j)"
proof (induction cxb arbitrary: k bs)
  case Nil
  then show ?case by simp
next
  case (Cons b cxb)
  from Cons.prems(1) obtain reduced old new bs1
    where reduced: "Apply b multByConst = Inr reduced"
      and old: "index bs (int k) = Inr old"
      and new: "Sub old reduced = Inr (new, None)"
      and bs1: "assign bs (int k) new = Inr bs1"
      and rest: "updateBiases multByConst cxb (int (Suc k)) bs1 = Inr bs'"
    by (auto simp: andThen_Inr check_Inr add.commute split: prod.splits)
  from old have k: "k < length bs" and old': "old = bs ! k" by (auto simp: index_Inr)
  from bs1 have bs1': "bs1 = bs[k := new]" by (auto simp: assign_Inr)
  from Apply_Inr [OF reduced] have red: "reduced = \<lparr>cols = cols b, vals = map multByConst (vals b)\<rparr>" .
  from new have op: "operate old reduced (\<lambda>x y. fsub x y) = Inr (new, None)"
    by (simp add: Sub_def)
  from operate_Inr(1) [OF op] red
  have new': "new = \<lparr>cols = cols old, vals = map2 fsub (vals old) (map multByConst (vals b))\<rparr>"
    by simp
  from operate_Inr(3) [OF op] red have le: "length (vals old) \<le> length (vals b)" by simp
  from k bs1' have "Suc k \<le> length bs1" by simp
  from Cons.IH [OF rest this]
  have len: "length bs' = length bs1" and bound: "Suc k + length cxb \<le> length bs1"
    and upd: "\<forall>j < length cxb.
           bs' ! (Suc k + j) =
             \<lparr>cols = cols (bs1 ! (Suc k + j)),
              vals = map2 fsub (vals (bs1 ! (Suc k + j))) (map multByConst (vals (cxb ! j)))\<rparr>
           \<and> length (vals (bs1 ! (Suc k + j))) \<le> length (vals (cxb ! j))"
    and before: "\<forall>j < Suc k. bs' ! j = bs1 ! j"
    by auto
  have "bs' ! (k + j) =
             \<lparr>cols = cols (bs ! (k + j)),
              vals = map2 fsub (vals (bs ! (k + j))) (map multByConst (vals ((b # cxb) ! j)))\<rparr>
           \<and> length (vals (bs ! (k + j))) \<le> length (vals ((b # cxb) ! j))"
    if j: "j < length (b # cxb)" for j
  proof (cases j)
    case 0
    from before have "bs' ! k = bs1 ! k" by simp
    with bs1' k have "bs' ! k = new" by simp
    with new' old' le 0 show ?thesis by simp
  next
    case (Suc j')
    with j have "j' < length cxb" by simp
    with upd have "bs' ! (Suc k + j') =
             \<lparr>cols = cols (bs1 ! (Suc k + j')),
              vals = map2 fsub (vals (bs1 ! (Suc k + j'))) (map multByConst (vals (cxb ! j')))\<rparr>
           \<and> length (vals (bs1 ! (Suc k + j'))) \<le> length (vals (cxb ! j'))"
      by simp
    moreover have "bs1 ! (Suc k + j') = bs ! (Suc k + j')" using bs1' by simp
    ultimately show ?thesis using Suc by simp
  qed
  moreover have "\<forall>j < k. bs' ! j = bs ! j" using before bs1' by simp
  ultimately show ?case using len bound bs1' by simp
qed

lemma zeroLike_zeros:
  "zeroLike ms = Inr zs \<Longrightarrow> i < length ms \<Longrightarrow>
     \<exists>k \<le> length (vals (ms ! i)). zs ! i = \<lparr>cols = cols (ms ! i), vals = replicate k (Fin 0)\<rparr>"
proof (induction ms arbitrary: zs i)
  case Nil
  then show ?case by simp
next
  case (Cons m ms)
  from Cons.prems(1) obtain r z zs' where r: "Rows m = Inr r"
    and z: "InitMatrix r (Cols m) = Inr z" and zs': "zeroLike ms = Inr zs'" and zs: "zs = z # zs'"
    by (auto simp: andThen_Inr)
  show ?case
  proof (cases i)
    case 0
    from r have "nat (r * cols m) \<le> length (vals m)"
      unfolding Rows_def by (rule quo_bound(3))
    moreover from z have "z = \<lparr>cols = cols m, vals = replicate (nat (r * cols m)) (Fin 0)\<rparr>"
      by (simp add: InitMatrix_Inr Cols_def)
    ultimately show ?thesis using zs 0 by auto
  next
    case (Suc j)
    with Cons.prems have "j < length ms" by simp
    from Cons.IH [OF zs' this] zs Suc show ?thesis by simp
  qed
qed

lemma updateMiniBatch_Inr:
  assumes "updateMiniBatch network batch eta lmbda n = Inr network'"
  shows "\<exists>grads cxw cxb.
      map (backprop network) batch = map Inr grads
    \<and> length cxw = length (weights network) \<and> length cxb = length (biases network)
    \<and> (\<forall>i < length (weights network).
          cxw ! i = foldl (map2 fadd) (replicate (length (vals (weights network ! i))) (Fin 0))
                      (map (\<lambda>g. vals (fst g ! i)) grads)
          \<and> length (cxw ! i) = length (vals (weights network ! i)))
    \<and> (\<forall>i < length (biases network).
          cxb ! i = foldl (map2 fadd) (replicate (length (vals (biases network ! i))) (Fin 0))
                      (map (\<lambda>g. vals (snd g ! i)) grads)
          \<and> length (cxb ! i) = length (vals (biases network ! i)))
    \<and> layers network' = layers network
    \<and> length (weights network') = length (weights network)
    \<and> length (biases network') = length (biases network)
    \<and> (\<forall>i < length (weights network).
          weights network' ! i =
            \<lparr>cols = cols (weights network ! i),
             vals = map2 fsub
               (map (MultBy (fsub (Fin 1) (fdiv (fmul eta lmbda) (float64_of_int n))))
                  (vals (weights network ! i)))
               (map (MultBy (fdiv eta (float64_of_int (len batch)))) (cxw ! i))\<rparr>)
    \<and> (\<forall>i < length (biases network).
          biases network' ! i =
            \<lparr>cols = cols (biases network ! i),
             vals = map2 fsub (vals (biases network ! i))
               (map (MultBy (fdiv eta (float64_of_int (len batch)))) (cxb ! i))\<rparr>)"
proof -
  let ?c = "MultBy (fdiv eta (float64_of_int (len batch)))"
  from assms obtain cxw0 cxb0 cxwM cxbM ws bs
    where w0: "zeroLike (weights network) = Inr cxw0"
      and b0: "zeroLike (biases network) = Inr cxb0"
      and sums: "sumGradients network batch cxw0 cxb0 = Inr (cxwM, cxbM)"
      and ws: "updateWeights eta lmbda n ?c cxwM (int 0) (weights network) = Inr ws"
      and bs: "updateBiases ?c cxbM (int 0) (biases network) = Inr bs"
      and n': "network' = network\<lparr>weights := ws, biases := bs\<rparr>"
    unfolding updateMiniBatch_def
    by (auto simp: andThen_Inr Let_def split: prod.splits)
  note lw0 = zeroLike_length [OF w0] and lb0 = zeroLike_length [OF b0]
  from sumGradients_Inr [OF sums lw0 lb0] obtain grads
    where g: "map (backprop network) batch = map Inr grads"
      and lens: "length cxwM = length cxw0" "length cxbM = length cxb0"
      and sw: "\<forall>i < length cxw0.
           cxwM ! i = \<lparr>cols = cols (cxw0 ! i),
                      vals = foldl (map2 fadd) (vals (cxw0 ! i)) (map (\<lambda>g. vals (fst g ! i)) grads)\<rparr>
           \<and> length (vals (cxwM ! i)) = length (vals (cxw0 ! i))"
      and sb: "\<forall>i < length cxb0.
           cxbM ! i = \<lparr>cols = cols (cxb0 ! i),
                      vals = foldl (map2 fadd) (vals (cxb0 ! i)) (map (\<lambda>g. vals (snd g ! i)) grads)\<rparr>
           \<and> length (vals (cxbM ! i)) = length (vals (cxb0 ! i))"
    by blast
  from updateWeights_Inr [OF ws]
  have lws: "length ws = length (weights network)"
    and uw: "\<forall>j < length cxwM.
           ws ! j =
             \<lparr>cols = cols (weights network ! j),
              vals = map2 fsub
                (map (MultBy (fsub (Fin 1) (fdiv (fmul eta lmbda) (float64_of_int n))))
                   (vals (weights network ! j)))
                (map ?c (vals (cxwM ! j)))\<rparr>
           \<and> length (vals (weights network ! j)) \<le> length (vals (cxwM ! j))"
    by auto
  from updateBiases_Inr [OF bs]
  have lbs: "length bs = length (biases network)"
    and ub: "\<forall>j < length cxbM.
           bs ! j =
             \<lparr>cols = cols (biases network ! j),
              vals = map2 fsub (vals (biases network ! j)) (map ?c (vals (cxbM ! j)))\<rparr>
           \<and> length (vals (biases network ! j)) \<le> length (vals (cxbM ! j))"
    by auto
  let ?cxw = "map vals cxwM" and ?cxb = "map vals cxbM"
  have W: "?cxw ! i = foldl (map2 fadd) (replicate (length (vals (weights network ! i))) (Fin 0))
                      (map (\<lambda>g. vals (fst g ! i)) grads)
          \<and> length (?cxw ! i) = length (vals (weights network ! i))"
    if i: "i < length (weights network)" for i
  proof -
    from zeroLike_zeros [OF w0 i] obtain k where k: "k \<le> length (vals (weights network ! i))"
      and z: "cxw0 ! i = \<lparr>cols = cols (weights network ! i), vals = replicate k (Fin 0)\<rparr>"
      by blast
    from sw i lw0 z
    have v: "vals (cxwM ! i) = foldl (map2 fadd) (replicate k (Fin 0))
                                 (map (\<lambda>g. vals (fst g ! i)) grads)"
      and l: "length (vals (cxwM ! i)) = k" by auto
    from uw i lens lw0 have "length (vals (weights network ! i)) \<le> length (vals (cxwM ! i))"
      by simp
    with l k have "k = length (vals (weights network ! i))" by simp
    with v l i lens lw0 show ?thesis by simp
  qed
  have B: "?cxb ! i = foldl (map2 fadd) (replicate (length (vals (biases network ! i))) (Fin 0))
                      (map (\<lambda>g. vals (snd g ! i)) grads)
          \<and> length (?cxb ! i) = length (vals (biases network ! i))"
    if i: "i < length (biases network)" for i
  proof -
    from zeroLike_zeros [OF b0 i] obtain k where k: "k \<le> length (vals (biases network ! i))"
      and z: "cxb0 ! i = \<lparr>cols = cols (biases network ! i), vals = replicate k (Fin 0)\<rparr>"
      by blast
    from sb i lb0 z
    have v: "vals (cxbM ! i) = foldl (map2 fadd) (replicate k (Fin 0))
                                 (map (\<lambda>g. vals (snd g ! i)) grads)"
      and l: "length (vals (cxbM ! i)) = k" by auto
    from ub i lens lb0 have "length (vals (biases network ! i)) \<le> length (vals (cxbM ! i))"
      by simp
    with l k have "k = length (vals (biases network ! i))" by simp
    with v l i lens lb0 show ?thesis by simp
  qed
  have UW: "\<forall>i < length (weights network).
          weights network' ! i =
            \<lparr>cols = cols (weights network ! i),
             vals = map2 fsub
               (map (MultBy (fsub (Fin 1) (fdiv (fmul eta lmbda) (float64_of_int n))))
                  (vals (weights network ! i)))
               (map ?c (?cxw ! i))\<rparr>"
    using uw lens lw0 n' by simp
  have UB: "\<forall>i < length (biases network).
          biases network' ! i =
            \<lparr>cols = cols (biases network ! i),
             vals = map2 fsub (vals (biases network ! i)) (map ?c (?cxb ! i))\<rparr>"
    using ub lens lb0 n' by simp
  have L: "length ?cxw = length (weights network)" "length ?cxb = length (biases network)"
    using lens lw0 lb0 by simp_all
  have N: "layers network' = layers network" "length (weights network') = length (weights network)"
    "length (biases network') = length (biases network)"
    using n' lws lbs by simp_all
  from g L W B N UW UB show ?thesis by blast
qed

section \<open>The update rule of updateMiniBatch\<close>

lemma map2_map_map:
  "map2 h (map f xs) (map g ys) = map2 (\<lambda>x y. h (f x) (g y)) xs ys"
  by (simp add: zip_map_map case_prod_unfold)

lemma updateMiniBatch_rule:
  assumes "updateMiniBatch network batch eta lmbda n = Inr network'"
  shows "\<exists>grads gradWeightSum gradBiasSum.
      map (backprop network) batch = map Inr grads
    \<and> length gradWeightSum = length (weights network)
    \<and> length gradBiasSum = length (biases network)
    \<and> (\<forall>i < length (weights network).
          gradWeightSum ! i
            = foldl (map2 fadd) (replicate (length (vals (weights network ! i))) (Fin 0))
                (map (\<lambda>g. vals (fst g ! i)) grads)
          \<and> length (gradWeightSum ! i) = length (vals (weights network ! i)))
    \<and> (\<forall>i < length (biases network).
          gradBiasSum ! i
            = foldl (map2 fadd) (replicate (length (vals (biases network ! i))) (Fin 0))
                (map (\<lambda>g. vals (snd g ! i)) grads)
          \<and> length (gradBiasSum ! i) = length (vals (biases network ! i)))
    \<and> layers network' = layers network
    \<and> length (weights network') = length (weights network)
    \<and> length (biases network') = length (biases network)
    \<and> (\<forall>i < length (weights network).
          weights network' ! i =
            \<lparr>cols = cols (weights network ! i),
             vals = map2
               (\<lambda>w g. fsub (fmul (fsub (Fin 1) (fdiv (fmul eta lmbda) (float64_of_int n))) w)
                          (fmul (fdiv eta (float64_of_int (len batch))) g))
               (vals (weights network ! i)) (gradWeightSum ! i)\<rparr>)
    \<and> (\<forall>i < length (biases network).
          biases network' ! i =
            \<lparr>cols = cols (biases network ! i),
             vals = map2 (\<lambda>b g. fsub b (fmul (fdiv eta (float64_of_int (len batch))) g))
               (vals (biases network ! i)) (gradBiasSum ! i)\<rparr>)"
proof -
  have w: "map2 fsub (map (MultBy r) xs) (map (MultBy c) ys)
             = map2 (\<lambda>w g. fsub (fmul r w) (fmul c g)) xs ys" for r c xs ys
    unfolding map2_map_map by (simp add: MultBy_def)
  have b: "map2 fsub xs (map (MultBy c) ys) = map2 (\<lambda>b g. fsub b (fmul c g)) xs ys" for c xs ys
    using map2_map_map [of fsub "\<lambda>x. x" xs "MultBy c" ys] by (simp add: MultBy_def)
  note r = updateMiniBatch_Inr [OF assms, unfolded w, unfolded b]
  show ?thesis by (rule r)
qed

text \<open>
  C4. On a well-formed network and a batch of items that fit it \<open>updateMiniBatch\<close>
  returns. Whenever \<open>updateMiniBatch\<close> returns: \<open>backprop\<close> returned a pair of gradient
  lists for every item of the batch; for each layer \<open>i\<close> the weight accumulator is the
  sum, item by item and element by element, of the \<open>i\<close>-th weight gradients, started
  from zeros, and likewise for the biases; the layer sizes and the numbers of matrices
  are unchanged; the new \<open>weights[i]\<close> has the old column count and the values
  \<open>(1 - eta*lmbda/n) * w - (eta/len(batch)) * g\<close> for \<open>w\<close> in the old \<open>weights[i]\<close> and \<open>g\<close>
  in the \<open>i\<close>-th weight sum, where \<open>n\<close> is the size of the whole training set; the new
  \<open>biases[i]\<close> has the values \<open>b - (eta/len(batch)) * g\<close>, with no decay factor.
\<close>

theorem C4_updateMiniBatch_rule:
  "(wellFormedNN network \<and> list_all (wellFormedItem network) batch \<longrightarrow>
      (\<exists>updated. updateMiniBatch network batch eta lmbda n = Inr updated))
   \<and> (updateMiniBatch network batch eta lmbda n = Inr network' \<longrightarrow>
      (\<exists>grads gradWeightSum gradBiasSum.
            map (backprop network) batch = map Inr grads
          \<and> length gradWeightSum = length (weights network)
          \<and> length gradBiasSum = length (biases network)
          \<and> (\<forall>i < length (weights network).
                gradWeightSum ! i
                  = foldl (map2 fadd) (replicate (length (vals (weights network ! i))) (Fin 0))
                      (map (\<lambda>g. vals (fst g ! i)) grads)
                \<and> length (gradWeightSum ! i) = length (vals (weights network ! i)))
          \<and> (\<forall>i < length (biases network).
                gradBiasSum ! i
                  = foldl (map2 fadd) (replicate (length (vals (biases network ! i))) (Fin 0))
                      (map (\<lambda>g. vals (snd g ! i)) grads)
                \<and> length (gradBiasSum ! i) = length (vals (biases network ! i)))
          \<and> layers network' = layers network
          \<and> length (weights network') = length (weights network)
          \<and> length (biases network') = length (biases network)
          \<and> (\<forall>i < length (weights network).
                weights network' ! i =
                  \<lparr>cols = cols (weights network ! i),
                   vals = map2
                     (\<lambda>w g. fsub (fmul (fsub (Fin 1) (fdiv (fmul eta lmbda) (float64_of_int n))) w)
                                (fmul (fdiv eta (float64_of_int (len batch))) g))
                     (vals (weights network ! i)) (gradWeightSum ! i)\<rparr>)
          \<and> (\<forall>i < length (biases network).
                biases network' ! i =
                  \<lparr>cols = cols (biases network ! i),
                   vals = map2 (\<lambda>b g. fsub b (fmul (fdiv eta (float64_of_int (len batch))) g))
                     (vals (biases network ! i)) (gradBiasSum ! i)\<rparr>)))"
proof (intro conjI impI)
  assume "wellFormedNN network \<and> list_all (wellFormedItem network) batch"
  then have "wellFormedNN network" "list_all (wellFormedItem network) batch" by simp_all
  from updateMiniBatch_total [OF this]
  show "\<exists>updated. updateMiniBatch network batch eta lmbda n = Inr updated" by blast
next
  assume "updateMiniBatch network batch eta lmbda n = Inr network'"
  then show "\<exists>grads gradWeightSum gradBiasSum.
      map (backprop network) batch = map Inr grads
    \<and> length gradWeightSum = length (weights network)
    \<and> length gradBiasSum = length (biases network)
    \<and> (\<forall>i < length (weights network).
          gradWeightSum ! i
            = foldl (map2 fadd) (replicate (length (vals (weights network ! i))) (Fin 0))
                (map (\<lambda>g. vals (fst g ! i)) grads)
          \<and> length (gradWeightSum ! i) = length (vals (weights network ! i)))
    \<and> (\<forall>i < length (biases network).
          gradBiasSum ! i
            = foldl (map2 fadd) (replicate (length (vals (biases network ! i))) (Fin 0))
                (map (\<lambda>g. vals (snd g ! i)) grads)
          \<and> length (gradBiasSum ! i) = length (vals (biases network ! i)))
    \<and> layers network' = layers network
    \<and> length (weights network') = length (weights network)
    \<and> length (biases network') = length (biases network)
    \<and> (\<forall>i < length (weights network).
          weights network' ! i =
            \<lparr>cols = cols (weights network ! i),
             vals = map2
               (\<lambda>w g. fsub (fmul (fsub (Fin 1) (fdiv (fmul eta lmbda) (float64_of_int n))) w)
                          (fmul (fdiv eta (float64_of_int (len batch))) g))
               (vals (weights network ! i)) (gradWeightSum ! i)\<rparr>)
    \<and> (\<forall>i < length (biases network).
          biases network' ! i =
            \<lparr>cols = cols (biases network ! i),
             vals = map2 (\<lambda>b g. fsub b (fmul (fdiv eta (float64_of_int (len batch))) g))
               (vals (biases network ! i)) (gradBiasSum ! i)\<rparr>)"
    by (rule updateMiniBatch_rule)
qed

theorem C4_updateMiniBatch_rule_witness:
  "wellFormedNN
     \<lparr>layers = [2, 1], weights = [\<lparr>cols = 1, vals = [Fin 0, Fin 2]\<rparr>],
      biases = [\<lparr>cols = 1, vals = [Fin 0]\<rparr>]\<rparr>
   \<and> list_all
       (wellFormedItem
          \<lparr>layers = [2, 1], weights = [\<lparr>cols = 1, vals = [Fin 0, Fin 2]\<rparr>],
           biases = [\<lparr>cols = 1, vals = [Fin 0]\<rparr>]\<rparr>)
       [\<lparr>Values = \<lparr>cols = 2, vals = [Fin 1, Fin 0]\<rparr>, Label = Fin 0, Distinct = 1\<rparr>,
        \<lparr>Values = \<lparr>cols = 2, vals = [Fin 1, Fin 0]\<rparr>, Label = Fin 0, Distinct = 1\<rparr>]
   \<and> (\<exists>updated.
        updateMiniBatch
          \<lparr>layers = [2, 1], weights = [\<lparr>cols = 1, vals = [Fin 0, Fin 2]\<rparr>],
           biases = [\<lparr>cols = 1, vals = [Fin 0]\<rparr>]\<rparr>
          [\<lparr>Values = \<lparr>cols = 2, vals = [Fin 1, Fin 0]\<rparr>, Label = Fin 0, Distinct = 1\<rparr>,
           \<lparr>Values = \<lparr>cols = 2, vals = [Fin 1, Fin 0]\<rparr>, Label = Fin 0, Distinct = 1\<rparr>]
          (Fin 1) (Fin (1 / 2)) 2 = Inr updated)
   \<and> updateMiniBatch
     \<lparr>layers = [2, 1], weights = [\<lparr>cols = 1, vals = [Fin 0, Fin 2]\<rparr>],
      biases = [\<lparr>cols = 1, vals = [Fin 0]\<rparr>]\<rparr>
     [\<lparr>Values = \<lparr>cols = 2, vals = [Fin 1, Fin 0]\<rparr>, Label = Fin 0, Distinct = 1\<rparr>,
      \<lparr>Values = \<lparr>cols = 2, vals = [Fin 1, Fin 0]\<rparr>, Label = Fin 0, Distinct = 1\<rparr>]
     (Fin 1) (Fin (1 / 2)) 2
   = Inr \<lparr>layers = [2, 1], weights = [\<lparr>cols = 1, vals = [Fin (1 / 2), Fin (3 / 2)]\<rparr>],
          biases = [\<lparr>cols = 1, vals = [Fin (1 / 2)]\<rparr>]\<rparr>
   \<and> (\<exists>grads gradWeightSum gradBiasSum.
        map (backprop
               \<lparr>layers = [2, 1], weights = [\<lparr>cols = 1, vals = [Fin 0, Fin 2]\<rparr>],
                biases = [\<lparr>cols = 1, vals = [Fin 0]\<rparr>]\<rparr>)
          [\<lparr>Values = \<lparr>cols = 2, vals = [Fin 1, Fin 0]\<rparr>, Label = Fin 0, Distinct = 1\<rparr>,
           \<lparr>Values = \<lparr>cols = 2, vals = [Fin 1, Fin 0]\<rparr>, Label = Fin 0, Distinct = 1\<rparr>]
          = map Inr grads
      \<and> gradWeightSum ! 0
          = foldl (map2 fadd) [Fin 0, Fin 0] (map (\<lambda>g. vals (fst g ! 0)) grads)
      \<and> gradBiasSum ! 0 = foldl (map2 fadd) [Fin 0] (map (\<lambda>g. vals (snd g ! 0)) grads)
      \<and> \<lparr>cols = 1, vals = [Fin (1 / 2), Fin (3 / 2)]\<rparr>
          = \<lparr>cols = 1,
             vals = map2 (\<lambda>w g. fsub (fmul (Fin (3 / 4)) w) (fmul (Fin (1 / 2)) g))
                      [Fin 0, Fin 2] (gradWeightSum ! 0)\<rparr>
      \<and> \<lparr>cols = 1, vals = [Fin (1 / 2)]\<rparr>
          = \<lparr>cols = 1,
             vals = map2 (\<lambda>b g. fsub b (fmul (Fin (1 / 2)) g)) [Fin 0] (gradBiasSum ! 0)\<rparr>)"
proof -
  let ?net = "\<lparr>layers = [2, 1], weights = [\<lparr>cols = 1, vals = [Fin 0, Fin 2]\<rparr>],
               biases = [\<lparr>cols = 1, vals = [Fin 0]\<rparr>]\<rparr>"
  let ?item = "\<lparr>Values = \<lparr>cols = 2, vals = [Fin 1, Fin 0]\<rparr>, Label = Fin 0, Distinct = 1\<rparr>"
  let ?net' = "\<lparr>layers = [2, 1], weights = [\<lparr>cols = 1, vals = [Fin (1 / 2), Fin (3 / 2)]\<rparr>],
                biases = [\<lparr>cols = 1, vals = [Fin (1 / 2)]\<rparr>]\<rparr>"
  have h: "updateMiniBatch ?net [?item, ?item] (Fin 1) (Fin (1 / 2)) 2 = Inr ?net'"
    by (simp add: run_defs eval_nat_numeral)
  have wn: "wellFormedNN ?net"
    by (simp add: wellFormedNN_def shape_def upt_rec [of 0])
  have wb: "list_all (wellFormedItem ?net) [?item, ?item]"
    by (simp add: wellFormedItem_def shape_def)
  note inst = C4_updateMiniBatch_rule [of ?net "[?item, ?item]" "Fin 1" "Fin (1 / 2)" 2 ?net']
  from wn wb have wnb: "wellFormedNN ?net \<and> list_all (wellFormedItem ?net) [?item, ?item]"
    by (rule conjI)
  from inst [THEN conjunct1, THEN mp, OF wnb]
  have ret: "\<exists>updated. updateMiniBatch ?net [?item, ?item] (Fin 1) (Fin (1 / 2)) 2 = Inr updated" .
  from inst [THEN conjunct2, THEN mp, OF h] obtain grads gradWeightSum gradBiasSum
    where g: "map (backprop ?net) [?item, ?item] = map Inr grads"
      and W: "\<forall>i < length (weights ?net).
          gradWeightSum ! i
            = foldl (map2 fadd) (replicate (length (vals (weights ?net ! i))) (Fin 0))
                (map (\<lambda>g. vals (fst g ! i)) grads)
          \<and> length (gradWeightSum ! i) = length (vals (weights ?net ! i))"
      and B: "\<forall>i < length (biases ?net).
          gradBiasSum ! i
            = foldl (map2 fadd) (replicate (length (vals (biases ?net ! i))) (Fin 0))
                (map (\<lambda>g. vals (snd g ! i)) grads)
          \<and> length (gradBiasSum ! i) = length (vals (biases ?net ! i))"
      and UW: "\<forall>i < length (weights ?net).
          weights ?net' ! i =
            \<lparr>cols = cols (weights ?net ! i),
             vals = map2
               (\<lambda>w g. fsub (fmul (fsub (Fin 1) (fdiv (fmul (Fin 1) (Fin (1 / 2))) (float64_of_int 2))) w)
                          (fmul (fdiv (Fin 1) (float64_of_int (len [?item, ?item]))) g))
               (vals (weights ?net ! i)) (gradWeightSum ! i)\<rparr>"
      and UB: "\<forall>i < length (biases ?net).
          biases ?net' ! i =
            \<lparr>cols = cols (biases ?net ! i),
             vals = map2 (\<lambda>b g. fsub b (fmul (fdiv (Fin 1) (float64_of_int (len [?item, ?item]))) g))
               (vals (biases ?net ! i)) (gradBiasSum ! i)\<rparr>"
    by blast
  from W have W0: "gradWeightSum ! 0
          = foldl (map2 fadd) [Fin 0, Fin 0] (map (\<lambda>g. vals (fst g ! 0)) grads)"
    by (simp add: eval_nat_numeral)
  from B have B0: "gradBiasSum ! 0 = foldl (map2 fadd) [Fin 0] (map (\<lambda>g. vals (snd g ! 0)) grads)"
    by simp
  from UW have UW0: "\<lparr>cols = 1, vals = [Fin (1 / 2), Fin (3 / 2)]\<rparr>
          = \<lparr>cols = 1,
             vals = map2 (\<lambda>w g. fsub (fmul (Fin (3 / 4)) w) (fmul (Fin (1 / 2)) g))
                      [Fin 0, Fin 2] (gradWeightSum ! 0)\<rparr>"
    by (simp add: fsub_def float64_of_int_def len_def round64_simps)
  from UB have UB0: "\<lparr>cols = 1, vals = [Fin (1 / 2)]\<rparr>
          = \<lparr>cols = 1,
             vals = map2 (\<lambda>b g. fsub b (fmul (Fin (1 / 2)) g)) [Fin 0] (gradBiasSum ! 0)\<rparr>"
    by (simp add: fsub_def float64_of_int_def len_def round64_simps)
  show ?thesis
    apply (rule conjI [OF wn])
    apply (rule conjI [OF wb])
    apply (rule conjI [OF ret])
    apply (rule conjI [OF h])
    apply (rule exI [of _ grads], rule exI [of _ gradWeightSum], rule exI [of _ gradBiasSum])
    apply (intro conjI)
        apply (rule g, rule W0, rule B0, rule UW0, rule UB0)
    done
qed

section \<open>updateMiniBatch with eta = 0\<close>











section \<open>Saving and loading\<close>

lemma floats_roundtrip:
  "list_all isFinite vs \<Longrightarrow>
     \<exists>js. collect (map marshal_float64 vs) = Inr js
          \<and> collect (map unmarshal_float64 js) = Inr vs"
proof (induction vs)
  case Nil
  then show ?case by simp
next
  case (Cons v vs)
  then obtain js where "collect (map marshal_float64 vs) = Inr js"
    and "collect (map unmarshal_float64 js) = Inr vs" by auto
  moreover from Cons.prems obtain r where "v = Fin r" by (cases v) auto
  ultimately show ?case by simp
qed

lemma ints_roundtrip:
  "collect (map (unmarshal_int \<circ> marshal_int) is) = Inr is"
  by (induction "is") (simp_all add: marshal_int_def)

lemma Matrix_roundtrip:
  assumes "list_all isFinite (vals m)"
  shows "\<exists>j. Matrix_MarshalJSON m = Inr j \<and> Matrix_UnmarshalJSON j = Inr m"
proof -
  from floats_roundtrip [OF assms] obtain js
    where "collect (map marshal_float64 (vals m)) = Inr js"
      and "collect (map unmarshal_float64 js) = Inr (vals m)" by blast
  then show ?thesis
    by (simp add: Matrix_MarshalJSON_def field_def marshal_int_def)
qed

lemma Matrices_roundtrip:
  "list_all (\<lambda>m. list_all isFinite (vals m)) ms \<Longrightarrow>
     \<exists>js. collect (map Matrix_MarshalJSON ms) = Inr js
          \<and> collect (map Matrix_UnmarshalJSON js) = Inr ms"
proof (induction ms)
  case Nil
  then show ?case by simp
next
  case (Cons m ms)
  then obtain js where "collect (map Matrix_MarshalJSON ms) = Inr js"
    and "collect (map Matrix_UnmarshalJSON js) = Inr ms" by auto
  moreover from Cons.prems Matrix_roundtrip [of m] obtain j
    where "Matrix_MarshalJSON m = Inr j" and "Matrix_UnmarshalJSON j = Inr m" by auto
  ultimately show ?case by simp
qed

text \<open>
  C8, as stated: every Matrix and every Network comes back from serialization. The
  matrix with the single value NaN does not serialize: \<open>MarshalJSON\<close> returns the error
  of \<open>json.Marshal\<close>, and so does \<open>MarshalJSON\<close> of a network that holds this matrix.
\<close>

theorem C8_NaN_counterexample:
  "Matrix_MarshalJSON \<lparr>cols = 1, vals = [NaN]\<rparr> = Inl UnsupportedValueError
   \<and> NN_MarshalJSON \<lparr>layers = [1, 1], weights = [\<lparr>cols = 1, vals = [NaN]\<rparr>],
                     biases = [\<lparr>cols = 1, vals = [Fin 0]\<rparr>]\<rparr>
     = Inl UnsupportedValueError"
  by (simp add: Matrix_MarshalJSON_def NN_MarshalJSON_def)

text \<open>
  C8, amended. A Matrix whose values are all finite serializes, and \<open>UnmarshalJSON\<close> of
  the result gives the same column count and the same values; a Network whose weight
  and bias matrices hold finite values only serializes, and \<open>UnmarshalJSON\<close> of the
  result gives the same layer sizes, weights and biases.
\<close>

theorem C8_roundtrip_of_finite_values:
  "(list_all isFinite (vals m) \<longrightarrow>
      (\<exists>j. Matrix_MarshalJSON m = Inr j \<and> Matrix_UnmarshalJSON j = Inr m))
   \<and> (list_all (\<lambda>m. list_all isFinite (vals m)) (weights network)
        \<and> list_all (\<lambda>m. list_all isFinite (vals m)) (biases network) \<longrightarrow>
      (\<exists>j. NN_MarshalJSON network = Inr j \<and> NN_UnmarshalJSON j = Inr network))"
proof (intro conjI impI)
  assume "list_all isFinite (vals m)"
  then show "\<exists>j. Matrix_MarshalJSON m = Inr j \<and> Matrix_UnmarshalJSON j = Inr m"
    by (rule Matrix_roundtrip)
next
  assume "list_all (\<lambda>m. list_all isFinite (vals m)) (weights network)
        \<and> list_all (\<lambda>m. list_all isFinite (vals m)) (biases network)"
  then obtain ws bs where "collect (map Matrix_MarshalJSON (weights network)) = Inr ws"
    and "collect (map Matrix_UnmarshalJSON ws) = Inr (weights network)"
    and "collect (map Matrix_MarshalJSON (biases network)) = Inr bs"
    and "collect (map Matrix_UnmarshalJSON bs) = Inr (biases network)"
    using Matrices_roundtrip [of "weights network"] Matrices_roundtrip [of "biases network"]
    by blast
  then show "\<exists>j. NN_MarshalJSON network = Inr j \<and> NN_UnmarshalJSON j = Inr network"
    by (simp add: NN_MarshalJSON_def field_def ints_roundtrip)
qed

theorem C8_roundtrip_of_finite_values_witness:
  "list_all isFinite (vals \<lparr>cols = 2, vals = [Fin 1, Fin (- (1 / 2)), Fin 0, Fin 3]\<rparr>)
   \<and> (\<exists>j. Matrix_MarshalJSON \<lparr>cols = 2, vals = [Fin 1, Fin (- (1 / 2)), Fin 0, Fin 3]\<rparr> = Inr j
        \<and> Matrix_UnmarshalJSON j
          = Inr \<lparr>cols = 2, vals = [Fin 1, Fin (- (1 / 2)), Fin 0, Fin 3]\<rparr>)
   \<and> list_all (\<lambda>m. list_all isFinite (vals m))
        (weights \<lparr>layers = [2, 1], weights = [\<lparr>cols = 1, vals = [Fin 1, Fin 2]\<rparr>],
                  biases = [\<lparr>cols = 1, vals = [Fin 3]\<rparr>]\<rparr>)
   \<and> list_all (\<lambda>m. list_all isFinite (vals m))
        (biases \<lparr>layers = [2, 1], weights = [\<lparr>cols = 1, vals = [Fin 1, Fin 2]\<rparr>],
                 biases = [\<lparr>cols = 1, vals = [Fin 3]\<rparr>]\<rparr>)
   \<and> (\<exists>j. NN_MarshalJSON \<lparr>layers = [2, 1], weights = [\<lparr>cols = 1, vals = [Fin 1, Fin 2]\<rparr>],
                            biases = [\<lparr>cols = 1, vals = [Fin 3]\<rparr>]\<rparr> = Inr j
        \<and> NN_UnmarshalJSON j
          = Inr \<lparr>layers = [2, 1], weights = [\<lparr>cols = 1, vals = [Fin 1, Fin 2]\<rparr>],
                 biases = [\<lparr>cols = 1, vals = [Fin 3]\<rparr>]\<rparr>)"
proof -
  let ?m = "\<lparr>cols = 2, vals = [Fin 1, Fin (- (1 / 2)), Fin 0, Fin 3]\<rparr>"
  let ?n = "\<lparr>layers = [2, 1], weights = [\<lparr>cols = 1, vals = [Fin 1, Fin 2]\<rparr>],
             biases = [\<lparr>cols = 1, vals = [Fin 3]\<rparr>]\<rparr>"
  have fm: "list_all isFinite (vals ?m)" by simp
  have fw: "list_all (\<lambda>m. list_all isFinite (vals m)) (weights ?n)" by simp
  have fb: "list_all (\<lambda>m. list_all isFinite (vals m)) (biases ?n)" by simp
  note r = C8_roundtrip_of_finite_values [of ?m ?n]
  from r fm have m: "\<exists>j. Matrix_MarshalJSON ?m = Inr j \<and> Matrix_UnmarshalJSON j = Inr ?m"
    by (rule conjunct1 [THEN mp])
  from r have "list_all (\<lambda>m. list_all isFinite (vals m)) (weights ?n)
        \<and> list_all (\<lambda>m. list_all isFinite (vals m)) (biases ?n) \<longrightarrow>
      (\<exists>j. NN_MarshalJSON ?n = Inr j \<and> NN_UnmarshalJSON j = Inr ?n)"
    by (rule conjunct2)
  moreover from fw fb
  have "list_all (\<lambda>m. list_all isFinite (vals m)) (weights ?n)
        \<and> list_all (\<lambda>m. list_all isFinite (vals m)) (biases ?n)"
    by (rule conjI)
  ultimately have n: "\<exists>j. NN_MarshalJSON ?n = Inr j \<and> NN_UnmarshalJSON j = Inr ?n"
    by (rule mp)
  show ?thesis
    by (intro conjI fm fw fb m n)
qed

end
